(* ===== verification/Audit_Prelude.thy ===== *)
theory Audit_Prelude
  imports Complex_Main "HOL-Library.Word" "HOL-Library.Char_ord" "HOL-Library.List_Lexorder"
    "HOL-Library.Sublist"
begin

text \<open>
  Shared vocabulary of the development: Python exceptions as values, the
  Python string operations the sources use, decimal numerals, and generic
  lemmas on lists and results.

  A Python \<open>str\<close> is represented by its UTF-8 bytes, one HOL \<open>char\<close> per
  byte (a lone surrogate, which a Python \<open>str\<close> may hold, by the three bytes
  the generalised encoding gives it).  Code-point order and byte order agree
  under this encoding.  Case conversion and \<open>strip\<close> are those of the ASCII
  range.
\<close>

section \<open>Collections of rewrite rules\<close>

named_theorems py_defs \<open>definitions of the string and value operations of Python\<close>
named_theorems res_elims \<open>elimination rules for results\<close>

section \<open>Exceptions and results\<close>

text \<open>
  The exception classes the sources raise, catch or discriminate on.
  \<open>SQLAlchemyError\<close>, \<open>RedisError\<close> and \<open>OtherError\<close> carry the name of the
  concrete class.
\<close>

datatype exn_kind =
    JSONDecodeError | ValidationError | TypeError | KeyError | ValueError
  | OverflowError | UnicodeEncodeError | RuntimeError
  | IntegrityError | SQLAlchemyError string
  | ResponseError | RedisTimeoutError | RedisAuthenticationError | RedisError string
  | ExpiredSignatureError | InvalidTokenError | PyJWKClientError | TokenInvalid
  | HTTPException int
  | RedisSafetyError | EnvironmentClassificationError | AuthenticationFailedError
  | IdentityMismatchError | ProhibitedCommandError | DangerousCommandError
  | SystemExit int
  | OtherError string

datatype exn = Exn (kind: exn_kind) (message: string)

type_synonym 'a res = "exn + 'a"

abbreviation raise :: "exn_kind \<Rightarrow> string \<Rightarrow> 'a res" where
  "raise k m \<equiv> Inl (Exn k m)"

text \<open>\<open>type(e).__name__\<close>.\<close>

fun type_name :: "exn_kind \<Rightarrow> string" where
  "type_name JSONDecodeError = ''JSONDecodeError''"
| "type_name ValidationError = ''ValidationError''"
| "type_name TypeError = ''TypeError''"
| "type_name KeyError = ''KeyError''"
| "type_name ValueError = ''ValueError''"
| "type_name OverflowError = ''OverflowError''"
| "type_name UnicodeEncodeError = ''UnicodeEncodeError''"
| "type_name RuntimeError = ''RuntimeError''"
| "type_name IntegrityError = ''IntegrityError''"
| "type_name (SQLAlchemyError n) = n"
| "type_name ResponseError = ''ResponseError''"
| "type_name RedisTimeoutError = ''TimeoutError''"
| "type_name RedisAuthenticationError = ''AuthenticationError''"
| "type_name (RedisError n) = n"
| "type_name ExpiredSignatureError = ''ExpiredSignatureError''"
| "type_name InvalidTokenError = ''InvalidTokenError''"
| "type_name PyJWKClientError = ''PyJWKClientError''"
| "type_name TokenInvalid = ''TokenInvalid''"
| "type_name (HTTPException n) = ''HTTPException''"
| "type_name RedisSafetyError = ''RedisSafetyError''"
| "type_name EnvironmentClassificationError = ''EnvironmentClassificationError''"
| "type_name AuthenticationFailedError = ''AuthenticationFailedError''"
| "type_name IdentityMismatchError = ''IdentityMismatchError''"
| "type_name ProhibitedCommandError = ''ProhibitedCommandError''"
| "type_name DangerousCommandError = ''DangerousCommandError''"
| "type_name (SystemExit n) = ''SystemExit''"
| "type_name (OtherError n) = n"

text \<open>The subclass tests behind the \<open>except\<close> clauses of the sources.\<close>

fun is_value_error :: "exn \<Rightarrow> bool" where
  "is_value_error (Exn k m) =
     (k \<in> {ValueError, JSONDecodeError, UnicodeEncodeError, ValidationError})"

fun is_sqlalchemy_error :: "exn \<Rightarrow> bool" where
  "is_sqlalchemy_error (Exn IntegrityError m) = True"
| "is_sqlalchemy_error (Exn (SQLAlchemyError n) m) = True"
| "is_sqlalchemy_error (Exn _ m) = False"

fun is_invalid_token_error :: "exn \<Rightarrow> bool" where
  "is_invalid_token_error (Exn k m) = (k \<in> {InvalidTokenError, ExpiredSignatureError})"

fun is_redis_error :: "exn \<Rightarrow> bool" where
  "is_redis_error (Exn ResponseError m) = True"
| "is_redis_error (Exn RedisTimeoutError m) = True"
| "is_redis_error (Exn RedisAuthenticationError m) = True"
| "is_redis_error (Exn (RedisError n) m) = True"
| "is_redis_error (Exn _ m) = False"

fun is_redis_safety_error :: "exn \<Rightarrow> bool" where
  "is_redis_safety_error (Exn k m) =
     (k \<in> {RedisSafetyError, EnvironmentClassificationError, AuthenticationFailedError,
            IdentityMismatchError, ProhibitedCommandError, DangerousCommandError})"

text \<open>\<open>SystemExit\<close> is not an \<open>Exception\<close>: the blanket handlers do not catch it.\<close>

fun is_exception :: "exn \<Rightarrow> bool" where
  "is_exception (Exn (SystemExit n) m) = False"
| "is_exception (Exn _ m) = True"

fun bind_res :: "'a res \<Rightarrow> ('a \<Rightarrow> 'b res) \<Rightarrow> 'b res" where
  "bind_res (Inl e) f = Inl e"
| "bind_res (Inr x) f = f x"

lemma bind_res_Inr [simp]:
  "bind_res r f = Inr y \<longleftrightarrow> (\<exists>x. r = Inr x \<and> f x = Inr y)"
  by (cases r) auto

lemma bind_res_Inl: "bind_res r f = Inl e \<longleftrightarrow> r = Inl e \<or> (\<exists>x. r = Inr x \<and> f x = Inl e)"
  by (cases r) auto

lemma bind_res_cong [fundef_cong]:
  "r = r' \<Longrightarrow> (\<And>x. r' = Inr x \<Longrightarrow> f x = g x) \<Longrightarrow> bind_res r f = bind_res r' g"
  by (cases r') auto

fun is_ok :: "'a res \<Rightarrow> bool" where
  "is_ok (Inl e) = False"
| "is_ok (Inr x) = True"

lemma is_ok_iff: "is_ok r \<longleftrightarrow> (\<exists>x. r = Inr x)"
  by (cases r) auto

fun fold_res :: "('a \<Rightarrow> 'b \<Rightarrow> 'b res) \<Rightarrow> 'a list \<Rightarrow> 'b \<Rightarrow> 'b res" where
  "fold_res f [] s = Inr s"
| "fold_res f (x # xs) s = bind_res (f x s) (fold_res f xs)"

fun map_res :: "('a \<Rightarrow> 'b res) \<Rightarrow> 'a list \<Rightarrow> 'b list res" where
  "map_res f [] = Inr []"
| "map_res f (x # xs) = bind_res (f x) (\<lambda>y. bind_res (map_res f xs) (\<lambda>ys. Inr (y # ys)))"

lemma map_res_cong [fundef_cong]:
  "xs = ys \<Longrightarrow> (\<And>x. x \<in> set ys \<Longrightarrow> f x = g x) \<Longrightarrow> map_res f xs = map_res g ys"
proof (induction ys arbitrary: xs)
  case (Cons y ys)
  then show ?case by (cases "g y") auto
qed simp

lemma map_res_Inr: "(\<And>x. x \<in> set xs \<Longrightarrow> f x = Inr (g x)) \<Longrightarrow> map_res f xs = Inr (map g xs)"
  by (induction xs) auto

section \<open>Python strings\<close>

abbreviation nl :: string where "nl \<equiv> [CHR 0x0A]"

definition code :: "char \<Rightarrow> nat" where
  "code c = of_char c"

text \<open>\<open>sub in s\<close>, \<open>s.startswith(p)\<close>, \<open>s.endswith(p)\<close>.\<close>

fun contains :: "string \<Rightarrow> string \<Rightarrow> bool" where
  "contains p [] = (p = [])"
| "contains p (c # cs) = (take (length p) (c # cs) = p \<or> contains p cs)"

definition startswith :: "string \<Rightarrow> string \<Rightarrow> bool" where
  [py_defs]: "startswith s p \<longleftrightarrow> take (length p) s = p"

definition endswith :: "string \<Rightarrow> string \<Rightarrow> bool" where
  [py_defs]: "endswith s p \<longleftrightarrow> length p \<le> length s \<and> drop (length s - length p) s = p"

text \<open>\<open>s.partition(c)\<close> for a one-character separator.\<close>

definition partition_at :: "char \<Rightarrow> string \<Rightarrow> string \<times> string \<times> string" where
  [py_defs]: "partition_at c s =
     (if c \<in> set s
      then (takeWhile (\<lambda>x. x \<noteq> c) s, [c], tl (dropWhile (\<lambda>x. x \<noteq> c) s))
      else (s, [], []))"

definition ascii_lower :: "char \<Rightarrow> char" where
  [py_defs]: "ascii_lower c =
     (if 65 \<le> code c \<and> code c \<le> 90 then char_of (code c + 32) else c)"

definition ascii_upper :: "char \<Rightarrow> char" where
  [py_defs]: "ascii_upper c =
     (if 97 \<le> code c \<and> code c \<le> 122 then char_of (code c - 32) else c)"

definition lower :: "string \<Rightarrow> string" where
  [py_defs]: "lower s = map ascii_lower s"

definition upper :: "string \<Rightarrow> string" where
  [py_defs]: "upper s = map ascii_upper s"

text \<open>The ASCII characters for which \<open>str.isspace\<close> holds.\<close>

definition is_space :: "char \<Rightarrow> bool" where
  [py_defs]: "is_space c \<longleftrightarrow> code c \<in> {9, 10, 11, 12, 13, 28, 29, 30, 31, 32}"

definition strip :: "string \<Rightarrow> string" where
  [py_defs]: "strip s = rev (dropWhile is_space (rev (dropWhile is_space s)))"

text \<open>\<open>sep.join(xs)\<close>.\<close>

fun join :: "string \<Rightarrow> string list \<Rightarrow> string" where
  "join sep [] = []"
| "join sep [x] = x"
| "join sep (x # xs) = x @ sep @ join sep xs"

lemma join_Cons: "xs \<noteq> [] \<Longrightarrow> join sep (x # xs) = x @ sep @ join sep xs"
  by (cases xs) auto

definition is_ascii :: "string \<Rightarrow> bool" where
  [py_defs]: "is_ascii s \<longleftrightarrow> list_all (\<lambda>c. code c < 128) s"

definition is_digit :: "char \<Rightarrow> bool" where
  [py_defs]: "is_digit c \<longleftrightarrow> 48 \<le> code c \<and> code c \<le> 57"

text \<open>
  \<open>s.encode()\<close> (UTF-8): the identity on the representation, except that a
  lone surrogate (bytes \<open>ED A0\<close> to \<open>ED BF\<close>) raises.
\<close>

fun has_surrogate :: "string \<Rightarrow> bool" where
  "has_surrogate (a # b # s) =
     ((code a = 237 \<and> 160 \<le> code b \<and> code b \<le> 191) \<or> has_surrogate (b # s))"
| "has_surrogate _ = False"

definition encode :: "string \<Rightarrow> string res" where
  "encode s = (if has_surrogate s then raise UnicodeEncodeError ''surrogates not allowed'' else Inr s)"

lemma encode_Inr [simp]: "encode s = Inr t \<longleftrightarrow> \<not> has_surrogate s \<and> t = s"
  by (auto simp: encode_def)

section \<open>Decimal numerals\<close>

fun show_nat :: "nat \<Rightarrow> string" where
  "show_nat n = (if n < 10 then [char_of (48 + n)]
                 else show_nat (n div 10) @ [char_of (48 + n mod 10)])"

declare show_nat.simps [simp del]

definition show_int :: "int \<Rightarrow> string" where
  "show_int i = (if i < 0 then ''-'' @ show_nat (nat (- i)) else show_nat (nat i))"

definition digit_val :: "char \<Rightarrow> nat" where
  "digit_val c = code c - 48"

definition read_nat :: "string \<Rightarrow> nat" where
  "read_nat s = foldl (\<lambda>n c. 10 * n + digit_val c) 0 s"

lemma code_char_of [simp]: "n < 256 \<Longrightarrow> code (char_of n) = n"
  by (simp add: code_def)

lemma code_inj: "code a = code b \<Longrightarrow> a = b"
  by (simp add: code_def)

lemma code_less_256 [simp]: "code c < 256"
  by (simp add: code_def)

lemma read_nat_snoc [simp]: "read_nat (s @ [c]) = 10 * read_nat s + digit_val c"
  by (simp add: read_nat_def)

lemma show_nat_digits: "c \<in> set (show_nat n) \<Longrightarrow> is_digit c"
proof (induction n rule: show_nat.induct)
  case (1 n)
  then show ?case
    by (subst (asm) (2) show_nat.simps) (auto simp: is_digit_def split: if_splits)
qed

lemma show_nat_not_Nil [simp]: "show_nat n \<noteq> []"
  by (subst show_nat.simps) simp

lemma read_show_nat [simp]: "read_nat (show_nat n) = n"
proof (induction n rule: show_nat.induct)
  case (1 n)
  show ?case
  proof (cases "n < 10")
    case True
    then show ?thesis by (subst show_nat.simps) (simp add: read_nat_def digit_val_def)
  next
    case False
    with 1 show ?thesis by (subst show_nat.simps) (simp add: digit_val_def)
  qed
qed

lemma show_nat_inject [simp]: "show_nat m = show_nat n \<longleftrightarrow> m = n"
  by (metis read_show_nat)

lemma show_nat_no_minus: "hd (show_nat n) \<noteq> CHR ''-''"
proof -
  have "is_digit (hd (show_nat n))" by (rule show_nat_digits [of _ n]) simp
  then show ?thesis by (auto simp: is_digit_def code_def)
qed

lemma show_int_inject [simp]: "show_int a = show_int b \<longleftrightarrow> a = b"
proof -
  have "show_nat m \<noteq> CHR ''-'' # s" for m s
    using show_nat_no_minus [of m] by auto
  then have "show_nat m \<noteq> CHR ''-'' # s \<and> CHR ''-'' # s \<noteq> show_nat m" for m s
    by metis
  then show ?thesis by (auto simp: show_int_def)
qed

text \<open>
  Python's \<open>int(text)\<close>: surrounding blanks, an optional sign, decimal digits
  with single underscores between digits.
\<close>

fun digits_us :: "string \<Rightarrow> string option" where
  "digits_us [] = None"
| "digits_us [c] = (if is_digit c then Some [c] else None)"
| "digits_us (c # d # s) =
     (if \<not> is_digit c then None
      else if d = CHR ''_'' then map_option (Cons c) (digits_us s)
      else map_option (Cons c) (digits_us (d # s)))"

definition py_int :: "string \<Rightarrow> int res" where
  "py_int s =
     (let t = strip s;
          (neg, u) = (case t of [] \<Rightarrow> (False, [])
                      | c # cs \<Rightarrow> if c = CHR ''-'' then (True, cs)
                                  else if c = CHR ''+'' then (False, cs) else (False, t))
      in case digits_us u of
           None \<Rightarrow> raise ValueError ''invalid literal for int() with base 10''
         | Some ds \<Rightarrow> Inr (if neg then - int (read_nat ds) else int (read_nat ds)))"

section \<open>Generic lemmas on lists\<close>

lemma append_sep_inject:
  assumes "x @ c # s = y @ c # t" and "c \<notin> set x" and "c \<notin> set y"
  shows "x = y \<and> s = t"
  using assms
proof (induction x arbitrary: y)
  case Nil
  then show ?case by (cases y) auto
next
  case (Cons a x)
  then show ?case by (cases y) auto
qed

lemma join_inject:
  assumes "join [c] xs = join [c] ys" and "length xs = length ys"
    and "\<forall>x \<in> set xs. c \<notin> set x" and "\<forall>y \<in> set ys. c \<notin> set y"
  shows "xs = ys"
  using assms(2,1,3,4)
proof (induction xs ys rule: list_induct2)
  case (Cons x xs y ys)
  show ?case
  proof (cases "xs = []")
    case False
    with Cons.hyps have "ys \<noteq> []" by auto
    with False Cons.prems(1) have "x @ c # join [c] xs = y @ c # join [c] ys"
      by (simp add: join_Cons)
    with Cons.prems have "x = y \<and> join [c] xs = join [c] ys"
      by (intro append_sep_inject) auto
    with Cons show ?thesis by auto
  qed (use Cons in auto)
qed simp

lemma map_of_SomeD2: "map_of xs k = Some v \<Longrightarrow> k \<in> fst ` set xs"
  by (metis domI dom_map_of_conv_image_fst)

end
