(* ===== verification/Py_Time.thy ===== *)
theory Py_Time
  imports Audit_Prelude
begin

text \<open>
  Python's \<open>datetime\<close> as far as the sources use it: naive and aware values,
  conversion to UTC, the range check of the arithmetic operations, and
  \<open>isoformat\<close>.  A value is the reading of its own wall clock, in microseconds
  since 0001-01-01T00:00:00, with the UTC offset (in microseconds) of an aware
  value.
\<close>

datatype datetime = DateTime (wall: int) (tz: "int option")

definition usec :: int where "usec = 1000000"
definition usec_day :: int where "usec_day = 86400 * usec"
definition max_wall :: int where "max_wall = 3652059 * usec_day"

text \<open>\<open>datetime.min\<close> to \<open>datetime.max\<close>; results outside raise \<open>OverflowError\<close>.\<close>

definition in_range :: "int \<Rightarrow> bool" where
  "in_range w \<longleftrightarrow> 0 \<le> w \<and> w < max_wall"

definition mk_datetime :: "int \<Rightarrow> int option \<Rightarrow> datetime res" where
  "mk_datetime w z =
     (if in_range w then Inr (DateTime w z) else raise OverflowError ''date value out of range'')"

text \<open>\<open>d.astimezone(timezone.utc).replace(tzinfo=None)\<close> for an aware value.\<close>

definition utc_naive :: "datetime \<Rightarrow> datetime res" where
  "utc_naive d = (case tz d of None \<Rightarrow> Inr d | Some off \<Rightarrow> mk_datetime (wall d - off) None)"

definition microsecond :: "datetime \<Rightarrow> int" where
  "microsecond d = wall d mod usec"

definition drop_microsecond :: "datetime \<Rightarrow> datetime" where
  "drop_microsecond d = DateTime (wall d - microsecond d) (tz d)"

definition add_seconds :: "datetime \<Rightarrow> int \<Rightarrow> datetime res" where
  "add_seconds d n = mk_datetime (wall d + n * usec) (tz d)"

section \<open>The proleptic Gregorian calendar\<close>

definition is_leap :: "nat \<Rightarrow> bool" where
  "is_leap y \<longleftrightarrow> y mod 4 = 0 \<and> (y mod 100 \<noteq> 0 \<or> y mod 400 = 0)"

definition month_lengths :: "nat \<Rightarrow> nat list" where
  "month_lengths y = [31, if is_leap y then 29 else 28, 31, 30, 31, 30, 31, 31, 30, 31, 30, 31]"

text \<open>Year and zero-based day of the year of the day \<open>n\<close> days after 0001-01-01.\<close>

definition year_day :: "nat \<Rightarrow> nat \<times> nat" where
  "year_day n =
     (let n400 = n div 146097; r = n mod 146097;
          n100 = r div 36524; r = r mod 36524;
          n4 = r div 1461; r = r mod 1461;
          n1 = r div 365; r = r mod 365;
          y = 400 * n400 + 100 * n100 + 4 * n4 + n1 + 1
      in if n1 = 4 \<or> n100 = 4 then (y - 1, 365) else (y, r))"

fun month_day :: "nat list \<Rightarrow> nat \<Rightarrow> nat \<Rightarrow> nat \<times> nat" where
  "month_day [] m d = (m, d + 1)"
| "month_day (l # ls) m d = (if d < l then (m, d + 1) else month_day ls (m + 1) (d - l))"

definition day_number :: "nat \<Rightarrow> nat \<Rightarrow> nat" where
  "day_number y d = 365 * (y - 1) + (y - 1) div 4 - (y - 1) div 100 + (y - 1) div 400 + d"

lemma day_number_parts:
  assumes "b \<le> 3" and "c \<le> 24" and "d \<le> 3"
  shows "day_number (400 * a + 100 * b + 4 * c + d + 1) r =
    146097 * a + 36524 * b + 1461 * c + 365 * d + r"
proof -
  let ?z = "400 * a + 100 * b + 4 * c + d"
  have "?z div 4 = 100 * a + 25 * b + c \<and> ?z div 100 = 4 * a + b \<and> ?z div 400 = a"
    using assms by (intro conjI div_nat_eqI) simp_all
  then show ?thesis by (simp add: day_number_def)
qed

text \<open>The quotients of \<^const>\<open>year_day\<close> and what bounds them.\<close>

lemma year_day_parts:
  obtains a b c d r where
    "n = 146097 * a + 36524 * b + 1461 * c + 365 * d + r"
    "year_day n = (if d = 4 \<or> b = 4 then (400 * a + 100 * b + 4 * c + d, 365)
       else (400 * a + 100 * b + 4 * c + d + 1, r))"
    "b \<le> 4" "c \<le> 24" "d \<le> 4" "r < 365" "b = 4 \<Longrightarrow> c = 0 \<and> d = 0 \<and> r = 0"
    "d = 4 \<Longrightarrow> r = 0 \<and> c \<le> 23 \<and> b \<le> 3"
proof -
  define a r0 where "a = n div 146097" and "r0 = n mod 146097"
  define b r1 where "b = r0 div 36524" and "r1 = r0 mod 36524"
  define c r2 where "c = r1 div 1461" and "r2 = r1 mod 1461"
  define d r where "d = r2 div 365" and "r = r2 mod 365"
  note defs = a_def r0_def b_def r1_def c_def r2_def d_def r_def
  have eqs: "n = a * 146097 + r0" "r0 = b * 36524 + r1" "r1 = c * 1461 + r2" "r2 = d * 365 + r"
    unfolding defs by simp_all
  have lts: "r0 < 146097" "r1 < 36524" "r2 < 1461" "r < 365"
    unfolding defs by simp_all
  have yd: "year_day n = (if d = 4 \<or> b = 4 then (400 * a + 100 * b + 4 * c + d, 365)
       else (400 * a + 100 * b + 4 * c + d + 1, r))"
    unfolding year_day_def Let_def defs by simp
  from eqs lts have "b \<le> 4" "c \<le> 24" "d \<le> 4" by linarith+
  moreover from eqs lts have "b = 4 \<Longrightarrow> c = 0 \<and> d = 0 \<and> r = 0" by linarith
  moreover from eqs lts have "d = 4 \<Longrightarrow> r = 0 \<and> c \<le> 23 \<and> b \<le> 3" by linarith
  moreover from eqs have "n = 146097 * a + 36524 * b + 1461 * c + 365 * d + r" by linarith
  ultimately show thesis using that [OF _ yd] lts by blast
qed

lemma day_number_year_day: "day_number (fst (year_day n)) (snd (year_day n)) = n"
proof -
  obtain a b c d r where n: "n = 146097 * a + 36524 * b + 1461 * c + 365 * d + r"
    and yd: "year_day n = (if d = 4 \<or> b = 4 then (400 * a + 100 * b + 4 * c + d, 365)
       else (400 * a + 100 * b + 4 * c + d + 1, r))"
    and le: "b \<le> 4" "c \<le> 24" "d \<le> 4"
    and b4: "b = 4 \<Longrightarrow> c = 0 \<and> d = 0 \<and> r = 0"
    and d4: "d = 4 \<Longrightarrow> r = 0 \<and> c \<le> 23 \<and> b \<le> 3"
    by (rule year_day_parts [of n]) blast
  consider "b = 4" | "d = 4" | "b \<le> 3" "d \<le> 3" using le by linarith
  then show ?thesis
  proof cases
    case 1
    with b4 have "year_day n = (400 * a + 100 * 3 + 4 * 24 + 3 + 1, 365)" by (simp add: yd)
    then show ?thesis using 1 b4 day_number_parts [of 3 24 3 a 365] by (simp add: n)
  next
    case 2
    then have "year_day n = (400 * a + 100 * b + 4 * c + 3 + 1, 365)" by (simp add: yd)
    then show ?thesis using 2 d4 le day_number_parts [of b c 3 a 365] by (simp add: n)
  next
    case 3
    then have "year_day n = (400 * a + 100 * b + 4 * c + d + 1, r)" by (simp add: yd)
    then show ?thesis using 3 le day_number_parts [of b c d a r] by (simp add: n)
  qed
qed

lemma year_day_inject: "year_day m = year_day n \<Longrightarrow> m = n"
  by (metis day_number_year_day)

lemma month_day_lower: "month_day ls m d = (m', d') \<Longrightarrow> m \<le> m' \<and> 1 \<le> d'"
proof (induction ls arbitrary: m d)
  case (Cons l ls)
  then show ?case by (force split: if_splits)
qed auto

lemma month_day_inject: "month_day ls m d = month_day ls m e \<Longrightarrow> d = e"
proof (induction ls arbitrary: m d e)
  case (Cons l ls)
  have far: "month_day ls (m + 1) x \<noteq> (m, y)" for x y
    using month_day_lower [of ls "m + 1" x m y] by auto
  have far': "(m, y) \<noteq> month_day ls (m + 1) x" for x y
    using far [of x y] by metis
  have shift: "month_day ls (m + 1) (d - l) = month_day ls (m + 1) (e - l) \<Longrightarrow> d - l = e - l"
    by (rule Cons.IH)
  show ?case
  proof (cases "d < l"; cases "e < l")
    assume "\<not> d < l" "\<not> e < l"
    with Cons.prems shift show ?thesis by (simp add: not_less)
  qed (use Cons.prems far far' in \<open>auto simp del: One_nat_def add_Suc_right\<close>)
qed simp

section \<open>isoformat\<close>

text \<open>\<open>%0wd\<close> for a value below \<open>10 ^ w\<close>.\<close>

fun show_fixed :: "nat \<Rightarrow> nat \<Rightarrow> string" where
  "show_fixed 0 n = []"
| "show_fixed (Suc w) n = show_fixed w (n div 10) @ [char_of (48 + n mod 10)]"

lemma length_show_fixed [simp]: "length (show_fixed w n) = w"
  by (induction w arbitrary: n) auto

lemma show_fixed_inject:
  "show_fixed w m = show_fixed w n \<Longrightarrow> m < 10 ^ w \<Longrightarrow> n < 10 ^ w \<Longrightarrow> m = n"
proof (induction w arbitrary: m n)
  case (Suc w)
  then have "show_fixed w (m div 10) = show_fixed w (n div 10)"
    and c: "char_of (48 + m mod 10) = (char_of (48 + n mod 10) :: char)" by simp_all
  moreover have "m div 10 < 10 ^ w" "n div 10 < 10 ^ w" using Suc.prems(2,3) by auto
  ultimately have "m div 10 = n div 10" by (auto intro: Suc.IH)
  moreover have "48 + m mod 10 = 48 + n mod 10"
    using arg_cong [OF c, of code] by simp
  ultimately show ?case by (metis add_left_cancel div_mult_mod_eq)
qed simp

definition iso_date :: "nat \<Rightarrow> string" where
  "iso_date n =
     (let (y, d) = year_day n; (m, dd) = month_day (month_lengths y) 1 d
      in show_fixed 4 y @ ''-'' @ show_fixed 2 m @ ''-'' @ show_fixed 2 dd)"

definition iso_time :: "nat \<Rightarrow> string" where
  "iso_time s = show_fixed 2 (s div 3600) @ '':'' @ show_fixed 2 (s div 60 mod 60) @ '':''
     @ show_fixed 2 (s mod 60)"

definition iso_offset :: "int \<Rightarrow> string" where
  "iso_offset off =
     (let a = nat \<bar>off\<bar>; s = a div 1000000; u = a mod 1000000
      in (if off < 0 then ''-'' else ''+'') @ show_fixed 2 (s div 3600) @ '':''
         @ show_fixed 2 (s div 60 mod 60)
         @ (if s mod 60 = 0 \<and> u = 0 then [] else '':'' @ show_fixed 2 (s mod 60))
         @ (if u = 0 then [] else ''.'' @ show_fixed 6 u))"

text \<open>\<open>d.isoformat(sep)\<close>; \<open>str(d)\<close> is \<open>d.isoformat(' ')\<close>.\<close>

definition isoformat :: "string \<Rightarrow> datetime \<Rightarrow> string" where
  "isoformat sep d =
     iso_date (nat (wall d div usec_day)) @ sep
     @ iso_time (nat (wall d mod usec_day div usec))
     @ (if microsecond d = 0 then [] else ''.'' @ show_fixed 6 (nat (microsecond d)))
     @ (case tz d of None \<Rightarrow> [] | Some off \<Rightarrow> iso_offset off)"

lemma length_iso_date: "length (iso_date n) = 10"
  by (simp add: iso_date_def Let_def split: prod.split)

lemma length_iso_time: "length (iso_time s) = 8"
  by (simp add: iso_time_def)

lemma year_day_bound: "n < 3652059 \<Longrightarrow> fst (year_day n) < 10000"
proof -
  assume n3: "n < 3652059"
  obtain a b c d r where n: "n = 146097 * a + 36524 * b + 1461 * c + 365 * d + r"
    and yd: "year_day n = (if d = 4 \<or> b = 4 then (400 * a + 100 * b + 4 * c + d, 365)
       else (400 * a + 100 * b + 4 * c + d + 1, r))"
    and le: "b \<le> 4" "c \<le> 24" "d \<le> 4"
    and b4: "b = 4 \<Longrightarrow> c = 0 \<and> d = 0 \<and> r = 0"
    and d4: "d = 4 \<Longrightarrow> r = 0 \<and> c \<le> 23 \<and> b \<le> 3"
    by (rule year_day_parts [of n]) blast
  have "fst (year_day n) \<le> 400 * a + 100 * b + 4 * c + d + 1" by (simp add: yd)
  moreover from n n3 have "a \<le> 24" by linarith
  ultimately show ?thesis
  proof (cases "a \<le> 23")
    case True
    with le b4 have "b = 4 \<or> b \<le> 3" "400 * a \<le> 9200" by linarith+
    then show ?thesis using le b4 by (auto simp: yd)
  next
    case False
    with \<open>a \<le> 24\<close> have "a = 24" by simp
    with n n3 have s: "36524 * b + 1461 * c + 365 * d + r < 145731" by simp
    then have "b \<le> 3" by linarith
    moreover have "100 * b + 4 * c + d + 1 < 400"
    proof (cases "b \<le> 2")
      case True
      with le show ?thesis by linarith
    next
      case False
      with \<open>b \<le> 3\<close> s have "1461 * c + 365 * d + r < 36159" by simp
      then show ?thesis using le \<open>b \<le> 3\<close> by (cases "c \<le> 23") linarith+
    qed
    ultimately show ?thesis using \<open>a = 24\<close> by (simp add: yd)
  qed
qed

lemma month_day_upper:
  "month_day ls m d = (m', d') \<Longrightarrow> d < sum_list ls \<Longrightarrow> \<forall>l \<in> set ls. l \<le> 31
    \<Longrightarrow> m' < m + length ls \<and> d' \<le> 31"
proof (induction ls arbitrary: m d)
  case (Cons l ls)
  show ?case
  proof (cases "d < l")
    case False
    with Cons.prems have "month_day ls (m + 1) (d - l) = (m', d')" "d - l < sum_list ls" by auto
    with Cons.IH [of "m + 1" "d - l"] Cons.prems(3) show ?thesis by auto
  qed (use Cons.prems in auto)
qed simp

lemma is_leap_centuries: "is_leap (400 * a)"
  by (simp add: is_leap_def)

lemma is_leap_fours:
  assumes "c \<le> 23"
  shows "is_leap (400 * a + 100 * b + 4 * c + 4)"
proof -
  have "400 * a + 100 * b + 4 * c + 4 = 4 * (100 * a + 25 * b + c + 1)" by simp
  then have "(400 * a + 100 * b + 4 * c + 4) mod 4 = 0" by (metis mod_mult_self1_is_0)
  moreover have "(400 * a + 100 * b + 4 * c + 4) mod 100 = (4 * c + 4 + (4 * a + b) * 100) mod 100"
    by (simp add: algebra_simps)
  then have "(400 * a + 100 * b + 4 * c + 4) mod 100 = (4 * c + 4) mod 100"
    by (simp only: mod_mult_self1)
  then have "(400 * a + 100 * b + 4 * c + 4) mod 100 = 4 * c + 4" using assms by simp
  ultimately show ?thesis by (simp add: is_leap_def)
qed

lemma year_day_doy: "snd (year_day n) < sum_list (month_lengths (fst (year_day n)))"
proof -
  obtain a b c d r where yd: "year_day n = (if d = 4 \<or> b = 4
      then (400 * a + 100 * b + 4 * c + d, 365) else (400 * a + 100 * b + 4 * c + d + 1, r))"
    and r: "r < 365"
    and b4: "b = 4 \<Longrightarrow> c = 0 \<and> d = 0 \<and> r = 0"
    and d4: "d = 4 \<Longrightarrow> r = 0 \<and> c \<le> 23 \<and> b \<le> 3"
    by (rule year_day_parts [of n]) blast
  have "is_leap (fst (year_day n))" if "d = 4 \<or> b = 4"
    using that b4 d4 is_leap_centuries [of "a + 1"] is_leap_fours [of c a b]
    by (auto simp: yd add.commute)
  then show ?thesis using r by (auto simp: yd month_lengths_def)
qed

lemma iso_date_inject:
  assumes "iso_date m = iso_date n" and "m < 3652059" and "n < 3652059"
  shows "m = n"
proof -
  obtain y d where yd: "year_day m = (y, d)" by force
  obtain y' d' where yd': "year_day n = (y', d')" by force
  obtain mo dd where md: "month_day (month_lengths y) 1 d = (mo, dd)" by force
  obtain mo' dd' where md': "month_day (month_lengths y') 1 d' = (mo', dd')" by force
  have le: "\<forall>l \<in> set (month_lengths x). l \<le> 31" "length (month_lengths x) = 12" for x
    by (auto simp: month_lengths_def)
  have up: "mo < 13 \<and> dd \<le> 31" "mo' < 13 \<and> dd' \<le> 31"
    using month_day_upper [OF md _ le(1)] month_day_upper [OF md' _ le(1)]
      year_day_doy [of m] year_day_doy [of n] yd yd' le(2) by auto
  have y10: "y < 10000" "y' < 10000" using year_day_bound assms(2,3) yd yd' by (metis fst_conv)+
  from assms(1) yd yd' md md' have
    "show_fixed 4 y = show_fixed 4 y'" "show_fixed 2 mo = show_fixed 2 mo'"
    "show_fixed 2 dd = show_fixed 2 dd'"
    by (simp_all add: iso_date_def)
  then have "y = y'" "mo = mo'" "dd = dd'"
    using up y10 by (auto elim!: show_fixed_inject)
  with md md' month_day_inject [of "month_lengths y" 1 d d'] yd yd'
  have "year_day m = year_day n" by simp
  then show ?thesis by (rule year_day_inject)
qed

lemma iso_time_inject:
  assumes "iso_time s = iso_time t" and "s < 86400" and "t < 86400"
  shows "s = t"
proof -
  from assms(1) have "show_fixed 2 (s div 3600) = show_fixed 2 (t div 3600)"
    "show_fixed 2 (s div 60 mod 60) = show_fixed 2 (t div 60 mod 60)"
    "show_fixed 2 (s mod 60) = show_fixed 2 (t mod 60)"
    by (simp_all add: iso_time_def)
  then have "s div 3600 = t div 3600" "s div 60 mod 60 = t div 60 mod 60" "s mod 60 = t mod 60"
    using assms(2,3) by (auto elim!: show_fixed_inject)
  moreover have "x = (x div 3600 * 60 + x div 60 mod 60) * 60 + x mod 60" for x :: nat
    using div_mult2_eq [of x 60 60] div_mult_mod_eq [of "x div 60" 60] by simp
  ultimately show ?thesis by metis
qed

text \<open>Two whole-second naive values in range print alike only if they are equal.\<close>

lemma isoformat_inject:
  assumes "isoformat sep (DateTime v None) = isoformat sep (DateTime w None)"
    and "in_range v" and "in_range w" and "v mod usec = 0" and "w mod usec = 0"
  shows "v = w"
proof -
  have dvd: "usec dvd usec_day" by (simp add: usec_day_def)
  have parts: "x = x div usec_day * usec_day + x mod usec_day div usec * usec"
    if "x mod usec = 0" for x
    using that div_mult_mod_eq [of x usec_day] div_mult_mod_eq [of "x mod usec_day" usec]
    by (simp add: mod_mod_cancel [OF dvd])
  have sec: "nat (x mod usec_day div usec) < 86400" "0 \<le> x mod usec_day div usec" for x
    using pos_mod_bound [of usec_day x] pos_mod_sign [of usec_day x]
    by (simp_all add: usec_day_def usec_def nat_less_iff div_int_pos_iff)
  have day: "nat (x div usec_day) < 3652059" "0 \<le> x div usec_day" if "in_range x" for x
  proof -
    from that have x: "0 \<le> x" "x < 3652059 * usec_day" by (auto simp: in_range_def max_wall_def)
    moreover have "x div usec_day * usec_day \<le> x"
      using div_mult_mod_eq [of x usec_day] pos_mod_sign [of usec_day x]
      by (simp add: usec_day_def usec_def)
    ultimately have "x div usec_day < 3652059" unfolding usec_day_def usec_def by linarith
    moreover from x show "0 \<le> x div usec_day" by (simp add: usec_day_def usec_def div_int_pos_iff)
    ultimately show "nat (x div usec_day) < 3652059" by simp
  qed
  from assms(1,4,5)
  have "iso_date (nat (v div usec_day)) @ sep @ iso_time (nat (v mod usec_day div usec)) =
        iso_date (nat (w div usec_day)) @ sep @ iso_time (nat (w mod usec_day div usec))"
    by (simp add: isoformat_def microsecond_def)
  then have "iso_date (nat (v div usec_day)) = iso_date (nat (w div usec_day))"
    "iso_time (nat (v mod usec_day div usec)) = iso_time (nat (w mod usec_day div usec))"
    by (simp_all add: append_eq_append_conv length_iso_date)
  then have "nat (v div usec_day) = nat (w div usec_day)"
    "nat (v mod usec_day div usec) = nat (w mod usec_day div usec)"
    by (auto intro: iso_date_inject iso_time_inject day(1) sec(1) assms(2,3))
  then have "v div usec_day = w div usec_day" "v mod usec_day div usec = w mod usec_day div usec"
    using day(2) assms(2,3) sec(2) eq_nat_nat_iff by blast+
  with parts [OF assms(4)] parts [OF assms(5)] show ?thesis by metis
qed

end
