(* ===== verification/Py_Value.thy ===== *)
theory Py_Value
  imports Py_Time
begin

text \<open>
  Python values as they come out of \<open>json.loads\<close> and go into the dictionaries
  of the sources, with truth value, \<open>str\<close>, \<open>in\<close>, \<open>dict.get\<close>.  A float is
  represented by its decimal text; a dictionary by its items in insertion
  order.
\<close>

datatype pyval =
    PNone
  | PBool bool
  | PInt int
  | PFloat string
  | PStr string
  | PList "pyval list"
  | PDict "(string \<times> pyval) list"
  | PDatetime datetime

type_synonym pydict = "(string \<times> pyval) list"

text \<open>Truth value (\<open>if v\<close>, \<open>not v\<close>, \<open>v or w\<close>).\<close>

fun truthy :: "pyval \<Rightarrow> bool" where
  "truthy PNone = False"
| "truthy (PBool b) = b"
| "truthy (PInt i) = (i \<noteq> 0)"
| "truthy (PFloat t) = (t \<notin> {''0.0'', ''-0.0''})"
| "truthy (PStr s) = (s \<noteq> [])"
| "truthy (PList xs) = (xs \<noteq> [])"
| "truthy (PDict d) = (d \<noteq> [])"
| "truthy (PDatetime t) = True"

definition dict_get :: "pydict \<Rightarrow> string \<Rightarrow> pyval" where
  "dict_get d k = (case map_of d k of None \<Rightarrow> PNone | Some v \<Rightarrow> v)"

definition dict_has :: "pydict \<Rightarrow> string \<Rightarrow> bool" where
  "dict_has d k \<longleftrightarrow> map_of d k \<noteq> None"

text \<open>\<open>d[k] = v\<close>: a present key keeps its position.\<close>

fun dict_set :: "string \<Rightarrow> 'a \<Rightarrow> (string \<times> 'a) list \<Rightarrow> (string \<times> 'a) list" where
  "dict_set k v [] = [(k, v)]"
| "dict_set k v ((k', v') # d) = (if k = k' then (k, v) # d else (k', v') # dict_set k v d)"

lemma map_of_dict_set: "map_of (dict_set k v d) = (map_of d)(k \<mapsto> v)"
  by (induction d) auto

lemma dict_set_fresh: "k \<notin> fst ` set d \<Longrightarrow> dict_set k v d = d @ [(k, v)]"
  by (induction d) auto

definition of_opt :: "string option \<Rightarrow> pyval" where
  "of_opt x = (case x of None \<Rightarrow> PNone | Some s \<Rightarrow> PStr s)"

text \<open>\<open>repr\<close> of a string, then \<open>repr\<close> and \<open>str\<close> of a value.\<close>

definition hex_digit :: "nat \<Rightarrow> char" where
  "hex_digit n = (if n < 10 then char_of (48 + n) else char_of (87 + n))"

definition repr_char :: "char \<Rightarrow> char \<Rightarrow> string" where
  "repr_char q c =
     (if c = q \<or> code c = 92 then [CHR 0x5C, c]
      else if code c = 9 then [CHR 0x5C, CHR ''t'']
      else if code c = 10 then [CHR 0x5C, CHR ''n'']
      else if code c = 13 then [CHR 0x5C, CHR ''r'']
      else if code c < 32 \<or> code c = 127
      then [CHR 0x5C, CHR ''x'', hex_digit (code c div 16), hex_digit (code c mod 16)]
      else [c])"

definition repr_str :: "string \<Rightarrow> string" where
  "repr_str s =
     (let q = (if CHR 0x27 \<in> set s \<and> CHR 0x22 \<notin> set s
               then CHR 0x22 else CHR 0x27)
      in [q] @ concat (map (repr_char q) s) @ [q])"

fun py_repr :: "pyval \<Rightarrow> string" where
  "py_repr PNone = ''None''"
| "py_repr (PBool b) = (if b then ''True'' else ''False'')"
| "py_repr (PInt i) = show_int i"
| "py_repr (PFloat t) = t"
| "py_repr (PStr s) = repr_str s"
| "py_repr (PList xs) = ''['' @ join '', '' (map py_repr xs) @ '']''"
| "py_repr (PDict d) =
     ''{'' @ join '', '' (map (\<lambda>(k, v). repr_str k @ '': '' @ py_repr v) d) @ ''}''"
| "py_repr (PDatetime t) = ''datetime.datetime('' @ isoformat '' '' t @ '')''"

fun py_str :: "pyval \<Rightarrow> string" where
  "py_str (PStr s) = s"
| "py_str (PDatetime t) = isoformat '' '' t"
| "py_str v = py_repr v"

text \<open>\<open>s in v\<close> for a string \<open>s\<close>.\<close>

fun py_in :: "string \<Rightarrow> pyval \<Rightarrow> bool res" where
  "py_in s (PStr t) = Inr (contains s t)"
| "py_in s (PList xs) = Inr (PStr s \<in> set xs)"
| "py_in s (PDict d) = Inr (s \<in> fst ` set d)"
| "py_in s v = raise TypeError ''argument is not iterable''"

section \<open>UTF-8\<close>

fun utf8_dec :: "string \<Rightarrow> nat list" where
  "utf8_dec [] = []"
| "utf8_dec (a # s) =
     (if code a < 192 then code a # utf8_dec s
      else if code a < 224 then
        (case s of b # t \<Rightarrow> ((code a - 192) * 64 + (code b - 128)) # utf8_dec t
         | _ \<Rightarrow> code a # utf8_dec s)
      else if code a < 240 then
        (case s of b # c # t \<Rightarrow>
            ((code a - 224) * 4096 + (code b - 128) * 64 + (code c - 128)) # utf8_dec t
         | _ \<Rightarrow> code a # utf8_dec s)
      else
        (case s of b # c # d # t \<Rightarrow>
            ((code a - 240) * 262144 + (code b - 128) * 4096 + (code c - 128) * 64 + (code d - 128))
              # utf8_dec t
         | _ \<Rightarrow> code a # utf8_dec s))"

definition utf8_enc :: "nat \<Rightarrow> string" where
  "utf8_enc n =
     (if n < 128 then [char_of n]
      else if n < 2048 then [char_of (192 + n div 64), char_of (128 + n mod 64)]
      else if n < 65536
      then [char_of (224 + n div 4096), char_of (128 + n div 64 mod 64), char_of (128 + n mod 64)]
      else [char_of (240 + n div 262144), char_of (128 + n div 4096 mod 64),
            char_of (128 + n div 64 mod 64), char_of (128 + n mod 64)])"

text \<open>A Unicode scalar value, and a string that is the encoding of such values.\<close>

definition is_scalar :: "nat \<Rightarrow> bool" where
  "is_scalar n \<longleftrightarrow> n < 0xD800 \<or> (0xDFFF < n \<and> n < 0x110000)"

definition utf8_ok :: "string \<Rightarrow> bool" where
  "utf8_ok s \<longleftrightarrow> list_all is_scalar (utf8_dec s) \<and> concat (map utf8_enc (utf8_dec s)) = s"

lemma utf8_dec_ascii: "is_ascii s \<Longrightarrow> utf8_dec s = map code s"
  by (induction s) (auto simp: is_ascii_def)

lemma utf8_ok_ascii:
  assumes "is_ascii s"
  shows "utf8_ok s"
proof -
  have "concat (map (\<lambda>c. utf8_enc (code c)) s) = s"
    using assms by (induction s) (auto simp: is_ascii_def utf8_enc_def code_def)
  with assms show ?thesis
    by (auto simp: utf8_ok_def utf8_dec_ascii comp_def is_scalar_def is_ascii_def list_all_iff)
qed

end
