(* ===== verification/Py_Crypto.thy ===== *)
theory Py_Crypto
  imports Audit_Prelude
begin

text \<open>
  The parts of \<open>hashlib\<close> and \<open>hmac\<close> the sources use: SHA-256 (FIPS 180-4) and
  HMAC (RFC 2104) over byte strings, \<open>hexdigest\<close>, and \<open>hmac.compare_digest\<close>
  with its restriction to ASCII strings.  Nothing is assumed of the hash: a
  statement about forgery or tampering says that the alternative is a
  collision, two different messages with the same code under the same key.
\<close>

unbundle bit_operations_syntax

type_synonym u32 = "32 word"

section \<open>SHA-256\<close>

text \<open>
  The constants are the first 32 bits of the fractional parts of roots of
  primes; \<open>root_bits k n i r\<close> finds the remaining \<open>i\<close> bits of the \<open>k\<close>-th root of
  \<open>n\<close> rounded down.
\<close>

fun root_bits :: "nat \<Rightarrow> nat \<Rightarrow> nat \<Rightarrow> nat \<Rightarrow> nat" where
  "root_bits k n 0 r = r"
| "root_bits k n (Suc i) r = root_bits k n i (if (r + 2 ^ i) ^ k \<le> n then r + 2 ^ i else r)"

definition root_frac :: "nat \<Rightarrow> nat \<Rightarrow> u32" where
  "root_frac k p = word_of_nat (root_bits k (p * 2 ^ (32 * k)) 35 0)"

definition sha_primes :: "nat list" where
  "sha_primes = filter (\<lambda>n. list_all (\<lambda>d. n mod d \<noteq> 0) [2..<n]) [2..<312]"

definition sha_k :: "u32 list" where
  "sha_k = map (root_frac 3) sha_primes"

definition sha_h0 :: "u32 list" where
  "sha_h0 = map (root_frac 2) [2, 3, 5, 7, 11, 13, 17, 19]"

definition big_s0 :: "u32 \<Rightarrow> u32" where
  "big_s0 x = word_rotr 2 x XOR word_rotr 13 x XOR word_rotr 22 x"

definition big_s1 :: "u32 \<Rightarrow> u32" where
  "big_s1 x = word_rotr 6 x XOR word_rotr 11 x XOR word_rotr 25 x"

definition small_s0 :: "u32 \<Rightarrow> u32" where
  "small_s0 x = word_rotr 7 x XOR word_rotr 18 x XOR drop_bit 3 x"

definition small_s1 :: "u32 \<Rightarrow> u32" where
  "small_s1 x = word_rotr 17 x XOR word_rotr 19 x XOR drop_bit 10 x"

definition ch :: "u32 \<Rightarrow> u32 \<Rightarrow> u32 \<Rightarrow> u32" where
  "ch e f g = (e AND f) XOR (NOT e AND g)"

definition maj :: "u32 \<Rightarrow> u32 \<Rightarrow> u32 \<Rightarrow> u32" where
  "maj a b c = (a AND b) XOR (a AND c) XOR (b AND c)"

text \<open>The message schedule, latest word first.\<close>

fun schedule :: "nat \<Rightarrow> u32 list \<Rightarrow> u32 list" where
  "schedule 0 ws = ws"
| "schedule (Suc n) ws =
     schedule n ((small_s1 (ws ! 1) + ws ! 6 + small_s0 (ws ! 14) + ws ! 15) # ws)"

fun round_step :: "u32 \<Rightarrow> u32 \<Rightarrow> u32 list \<Rightarrow> u32 list" where
  "round_step k w [a, b, c, d, e, f, g, h] =
     (let t1 = h + big_s1 e + ch e f g + k + w; t2 = big_s0 a + maj a b c
      in [t1 + t2, a, b, c, d + t1, e, f, g])"
| "round_step k w s = s"

definition compress :: "u32 list \<Rightarrow> u32 list \<Rightarrow> u32 list" where
  "compress hs block =
     (let ws = rev (schedule 48 (rev block))
      in map2 (+) hs (fold (\<lambda>(k, w). round_step k w) (zip sha_k ws) hs))"

definition be_word :: "char list \<Rightarrow> u32" where
  "be_word bs = word_of_nat (foldl (\<lambda>n c. 256 * n + code c) 0 bs)"

definition word_bytes :: "u32 \<Rightarrow> string" where
  "word_bytes w = map (\<lambda>i. char_of (unat w div 256 ^ i mod 256)) [3, 2, 1, 0]"

fun chunks :: "nat \<Rightarrow> 'a list \<Rightarrow> 'a list list" where
  "chunks n [] = []"
| "chunks n (x # xs) = take (Suc n) (x # xs) # chunks n (drop n xs)"

definition length_bytes :: "nat \<Rightarrow> string" where
  "length_bytes n = map (\<lambda>i. char_of (8 * n div 256 ^ i mod 256)) [7, 6, 5, 4, 3, 2, 1, 0]"

definition sha_pad :: "string \<Rightarrow> string" where
  "sha_pad m = m @ [CHR 0x80] @ replicate ((119 - length m mod 64) mod 64) (CHR 0x00)
     @ length_bytes (length m)"

definition sha256 :: "string \<Rightarrow> string" where
  "sha256 m = concat (map word_bytes
     (foldl compress sha_h0 (map (\<lambda>b. map be_word (chunks 3 b)) (chunks 63 (sha_pad m)))))"

section \<open>HMAC\<close>

definition xor_byte :: "nat \<Rightarrow> char \<Rightarrow> char" where
  "xor_byte p c = char_of (p XOR code c)"

definition hmac_block_key :: "string \<Rightarrow> string" where
  "hmac_block_key k =
     (let k' = (if 64 < length k then sha256 k else k)
      in k' @ replicate (64 - length k') (CHR 0x00))"

definition hmac_sha256 :: "string \<Rightarrow> string \<Rightarrow> string" where
  "hmac_sha256 k m =
     sha256 (map (xor_byte 0x5c) (hmac_block_key k)
       @ sha256 (map (xor_byte 0x36) (hmac_block_key k) @ m))"

definition hex_nibble :: "nat \<Rightarrow> char" where
  "hex_nibble n = ''0123456789abcdef'' ! (n mod 16)"

definition hexdigest :: "string \<Rightarrow> string" where
  "hexdigest s = concat (map (\<lambda>c. [hex_nibble (code c div 16), hex_nibble (code c)]) s)"

text \<open>\<open>hmac.new(key, msg, hashlib.sha256).hexdigest()\<close>.\<close>

definition hmac_hex :: "string \<Rightarrow> string \<Rightarrow> string" where
  "hmac_hex k m = hexdigest (hmac_sha256 k m)"

text \<open>Two different messages with the same code under one key.\<close>

definition hmac_collision :: "string \<Rightarrow> string \<Rightarrow> string \<Rightarrow> bool" where
  "hmac_collision k m m' \<longleftrightarrow> m \<noteq> m' \<and> hmac_hex k m = hmac_hex k m'"

text \<open>\<open>hmac.compare_digest\<close> on two strings: non-ASCII arguments raise.\<close>

definition compare_digest :: "string \<Rightarrow> string \<Rightarrow> bool res" where
  "compare_digest a b =
     (if is_ascii a \<and> is_ascii b then Inr (a = b)
      else raise TypeError ''comparing strings with non-ASCII characters is not supported'')"

section \<open>The form of a digest\<close>

lemma length_round_step: "length (round_step k w s) = length s"
  by (induction k w s rule: round_step.induct) (auto simp: Let_def)

lemma length_fold_rounds: "length (fold (\<lambda>(k, w). round_step k w) kws s) = length s"
  by (induction kws arbitrary: s) (auto simp: length_round_step)

lemma length_compress: "length (compress hs b) = length hs"
  by (simp add: compress_def Let_def length_fold_rounds)

lemma length_foldl_compress: "length (foldl compress hs bs) = length hs"
  by (induction bs arbitrary: hs) (auto simp: length_compress)

lemma length_concat_words: "length (concat (map word_bytes ws)) = 4 * length ws"
  by (induction ws) (auto simp: word_bytes_def)

lemma length_sha256 [simp]: "length (sha256 m) = 32"
  by (simp add: sha256_def length_concat_words length_foldl_compress sha_h0_def)

lemma length_hexdigest [simp]: "length (hexdigest s) = 2 * length s"
  by (induction s) (auto simp: hexdigest_def)

lemma length_hmac_hex [simp]: "length (hmac_hex k m) = 64"
  by (simp add: hmac_hex_def hmac_sha256_def)

lemma hex_nibble_cases: "hex_nibble n \<in> set ''0123456789abcdef''"
  unfolding hex_nibble_def by (rule nth_mem) simp

lemma hexdigest_chars: "set (hexdigest s) \<subseteq> set ''0123456789abcdef''"
  using hex_nibble_cases by (auto simp: hexdigest_def)

lemma hmac_hex_ascii [simp]: "is_ascii (hmac_hex k m)"
proof -
  have "\<forall>c \<in> set ''0123456789abcdef''. code c < 128" by (simp add: code_def)
  then show ?thesis
    using hexdigest_chars unfolding hmac_hex_def is_ascii_def list_all_iff by blast
qed

lemma hmac_hex_not_Nil [simp]: "hmac_hex k m \<noteq> []"
  using length_hmac_hex [of k m] by (metis list.size(3) zero_neq_numeral)

lemma compare_digest_hmac:
  "compare_digest a (hmac_hex k m) =
     (if is_ascii a then Inr (a = hmac_hex k m)
      else raise TypeError ''comparing strings with non-ASCII characters is not supported'')"
  by (simp add: compare_digest_def)

end
