(* ===== verification/Signing.thy ===== *)
theory Signing
  imports Py_Value Py_Crypto
begin

text \<open>
  \<open>audit/signing.py\<close>: the HMAC over the exact transmitted \<open>data\<close> string, bound
  to the producer's service name and to the version of the envelope.
\<close>

definition signing_domain_label :: string where
  "signing_domain_label = ''omnibioai-audit-events''"

definition SUPPORTED_VERSION :: string where
  "SUPPORTED_VERSION = ''v1''"

definition signing_key :: "string \<Rightarrow> string res" where
  "signing_key secret =
     bind_res (encode (signing_domain_label @ '':'' @ secret)) (\<lambda>b. Inr (sha256 b))"

definition signing_message :: "string \<Rightarrow> string \<Rightarrow> string \<Rightarrow> string res" where
  "signing_message version service data = encode (version @ nl @ service @ nl @ data)"

definition sign_audit_event :: "string \<Rightarrow> string option \<Rightarrow> string \<Rightarrow> string res" where
  "sign_audit_event service data secret =
     (if service = [] then raise ValueError ''service must be a non-empty string''
      else case data of
        None \<Rightarrow> raise ValueError ''data must not be None''
      | Some d \<Rightarrow>
          bind_res (signing_key secret) (\<lambda>k.
          bind_res (signing_message SUPPORTED_VERSION service d) (\<lambda>m.
          Inr (SUPPORTED_VERSION @ '':'' @ hmac_hex k m))))"

text \<open>
  \<open>verify_audit_event\<close> takes \<open>service\<close> and \<open>signature\<close> as arbitrary values (it
  checks their type); every exception of its body is the answer \<open>False\<close>.
\<close>

definition verify_audit_event :: "pyval \<Rightarrow> string option \<Rightarrow> pyval \<Rightarrow> string \<Rightarrow> bool" where
  "verify_audit_event service data signature secret =
     (case signature of
        PStr sg \<Rightarrow>
          (if sg = [] then False
           else case service of
             PStr sv \<Rightarrow>
               (if sv = [] then False
                else case data of
                  None \<Rightarrow> False
                | Some d \<Rightarrow>
                    (let (version, sep, mac_hex) = partition_at CHR '':'' sg
                     in if sep = [] \<or> version \<noteq> SUPPORTED_VERSION then False
                        else case bind_res (signing_key secret) (\<lambda>k.
                                  bind_res (signing_message version sv d) (\<lambda>m.
                                  compare_digest mac_hex (hmac_hex k m)))
                             of Inl e \<Rightarrow> False | Inr b \<Rightarrow> b))
           | _ \<Rightarrow> False)
      | _ \<Rightarrow> False)"

section \<open>What a valid signature is\<close>

lemma partition_version:
  "partition_at CHR '':'' s = (SUPPORTED_VERSION, sep, mac) \<and> sep \<noteq> []
    \<longleftrightarrow> s = SUPPORTED_VERSION @ '':'' @ mac \<and> sep = '':''"
proof
  assume h: "partition_at CHR '':'' s = (SUPPORTED_VERSION, sep, mac) \<and> sep \<noteq> []"
  then have c: "CHR '':'' \<in> set s" and tw: "takeWhile (\<lambda>x. x \<noteq> CHR '':'') s = SUPPORTED_VERSION"
    and sep: "sep = '':''" and mac: "mac = tl (dropWhile (\<lambda>x. x \<noteq> CHR '':'') s)"
    by (auto simp: partition_at_def split: if_splits)
  from c have "dropWhile (\<lambda>x. x \<noteq> CHR '':'') s \<noteq> []" by (auto simp: dropWhile_eq_Nil_conv)
  then have "dropWhile (\<lambda>x. x \<noteq> CHR '':'') s = CHR '':'' # mac"
    using hd_dropWhile [of "\<lambda>x. x \<noteq> CHR '':''" s] mac
    by (cases "dropWhile (\<lambda>x. x \<noteq> CHR '':'') s") auto
  with tw sep show "s = SUPPORTED_VERSION @ '':'' @ mac \<and> sep = '':''"
    by (metis append_Cons append_Nil takeWhile_dropWhile_id)
qed (simp add: partition_at_def SUPPORTED_VERSION_def)

lemma verify_audit_event_iff:
  "verify_audit_event (PStr service) (Some data) (PStr signature) secret \<longleftrightarrow>
     service \<noteq> [] \<and>
     (\<exists>k m. signing_key secret = Inr k \<and> signing_message SUPPORTED_VERSION service data = Inr m \<and>
        signature = SUPPORTED_VERSION @ '':'' @ hmac_hex k m)" (is "?l = ?r")
proof
  assume l: ?l
  obtain version sep mac where p: "partition_at CHR '':'' signature = (version, sep, mac)"
    by (metis prod_cases3)
  from l p have v: "version = SUPPORTED_VERSION" "sep \<noteq> []" and sv: "service \<noteq> []"
    by (auto simp: verify_audit_event_def split: if_splits)
  with p partition_version [of signature sep mac] have sig: "signature = SUPPORTED_VERSION @ '':'' @ mac"
    by simp
  from l p v obtain k m where "signing_key secret = Inr k"
    "signing_message SUPPORTED_VERSION service data = Inr m" "compare_digest mac (hmac_hex k m) = Inr True"
    by (auto simp: verify_audit_event_def split: if_splits sum.splits)
  with sig sv show ?r by (auto simp: compare_digest_def split: if_splits)
next
  assume ?r
  then obtain k m where sv: "service \<noteq> []" and k: "signing_key secret = Inr k"
    and m: "signing_message SUPPORTED_VERSION service data = Inr m"
    and sig: "signature = SUPPORTED_VERSION @ '':'' @ hmac_hex k m" by blast
  have "partition_at CHR '':'' signature = (SUPPORTED_VERSION, '':'', hmac_hex k m)"
    using partition_version [of signature "'':''" "hmac_hex k m"] sig by simp
  then show ?l
    using sv k m sig by (simp add: verify_audit_event_def compare_digest_def SUPPORTED_VERSION_def)
qed

lemma verify_audit_event_shape:
  assumes "verify_audit_event service data signature secret"
  obtains sv d sg where "service = PStr sv" "data = Some d" "signature = PStr sg"
  using assms by (auto simp: verify_audit_event_def split: pyval.splits option.splits if_splits)

lemma signing_message_inject:
  assumes "signing_message v s d = Inr m" and "signing_message v s' d' = Inr m"
    and "CHR 0x0A \<notin> set s" and "CHR 0x0A \<notin> set s'"
  shows "s = s' \<and> d = d'"
proof -
  from assms(1,2) have "s @ CHR 0x0A # d = s' @ CHR 0x0A # d'"
    by (auto simp: signing_message_def)
  then show ?thesis using assms(3,4) by (rule append_sep_inject)
qed

section \<open>Properties\<close>

text \<open>
  An event signed with \<open>sign_audit_event\<close> verifies: for every service
  name, data string and secret for which a signature is produced, the produced
  \<open>sig\<close> field is accepted for exactly that service and data under that secret.
\<close>

lemma sign_then_verify:
  assumes "sign_audit_event service (Some data) secret = Inr signature"
  shows "verify_audit_event (PStr service) (Some data) (PStr signature) secret"
  using assms by (auto simp: sign_audit_event_def verify_audit_event_iff split: if_splits)

text \<open>
  C13: a signature cannot be moved to another service or to other data: if one
  \<open>sig\<close> value is accepted for two pairs of service name and data under one
  secret, with service names free of line feeds, then the pairs are equal or
  the two signed messages are an HMAC collision under the derived key.
\<close>

theorem signature_binds_service_and_data:
  assumes "verify_audit_event (PStr s) (Some d) (PStr sig) secret"
    and "verify_audit_event (PStr s') (Some d') (PStr sig) secret"
    and "CHR 0x0A \<notin> set s" and "CHR 0x0A \<notin> set s'"
  shows "(s = s' \<and> d = d') \<or>
    (\<exists>k m m'. signing_key secret = Inr k \<and> signing_message SUPPORTED_VERSION s d = Inr m \<and>
      signing_message SUPPORTED_VERSION s' d' = Inr m' \<and> hmac_collision k m m')"
proof -
  from assms(1,2) obtain k m m' where k: "signing_key secret = Inr k"
    and m: "signing_message SUPPORTED_VERSION s d = Inr m"
    and m': "signing_message SUPPORTED_VERSION s' d' = Inr m'" and h: "hmac_hex k m = hmac_hex k m'"
    by (auto simp: verify_audit_event_iff)
  show ?thesis
  proof (cases "m = m'")
    case True
    with signing_message_inject [OF m _ assms(3,4)] m' show ?thesis by blast
  next
    case False
    with k m m' h show ?thesis by (auto simp: hmac_collision_def)
  qed
qed

theorem signature_binds_service_and_data_witness:
  "\<exists>sig. verify_audit_event (PStr ''tes'') (Some ''{}'') (PStr sig) ''k'' \<and>
     CHR 0x0A \<notin> set ''tes'' \<and>
     ((''tes'' = ''tes'' \<and> ''{}'' = ''{}'') \<or>
      (\<exists>k m m'. signing_key ''k'' = Inr k \<and> signing_message SUPPORTED_VERSION ''tes'' ''{}'' = Inr m \<and>
        signing_message SUPPORTED_VERSION ''tes'' ''{}'' = Inr m' \<and> hmac_collision k m m'))"
proof -
  have "\<exists>sig. verify_audit_event (PStr ''tes'') (Some ''{}'') (PStr sig) ''k''"
    by (simp add: verify_audit_event_iff signing_key_def signing_message_def encode_def
        signing_domain_label_def SUPPORTED_VERSION_def code_def)
  then obtain sig where v: "verify_audit_event (PStr ''tes'') (Some ''{}'') (PStr sig) ''k''" ..
  have nl: "CHR 0x0A \<notin> set ''tes''" by simp
  show ?thesis using signature_binds_service_and_data [OF v v nl nl] v nl by blast
qed

end
