(* ===== verification/Py_Json.thy ===== *)
theory Py_Json
  imports Py_Value
begin

text \<open>
  \<open>json.dumps\<close> and \<open>json.loads\<close> of the Python standard library: the encoder
  with \<open>ensure_ascii=True\<close> and the options the sources pass (\<open>sort_keys\<close>,
  \<open>separators\<close>, \<open>default=str\<close>), the strict decoder, and their round trip.
  The decoder takes fuel bounded by the length of the text, which is proved
  to be enough.
\<close>

section \<open>json.dumps\<close>

definition bslash :: char where "bslash = CHR 0x5C"
definition dquote :: char where "dquote = CHR 0x22"

definition hex4 :: "nat \<Rightarrow> string" where
  "hex4 n = [hex_digit (n div 4096 mod 16), hex_digit (n div 256 mod 16),
             hex_digit (n div 16 mod 16), hex_digit (n mod 16)]"

definition escape_cp :: "nat \<Rightarrow> string" where
  "escape_cp n =
     (if n = 34 then [bslash, dquote]
      else if n = 92 then [bslash, bslash]
      else if n = 10 then [bslash, CHR ''n'']
      else if n = 13 then [bslash, CHR ''r'']
      else if n = 9 then [bslash, CHR ''t'']
      else if n = 12 then [bslash, CHR ''f'']
      else if n = 8 then [bslash, CHR ''b'']
      else if 32 \<le> n \<and> n \<le> 126 then [char_of n]
      else if n < 65536 then bslash # CHR ''u'' # hex4 n
      else (bslash # CHR ''u'' # hex4 (0xD800 + (n - 65536) div 1024))
           @ (bslash # CHR ''u'' # hex4 (0xDC00 + (n - 65536) mod 1024)))"

definition json_str :: "string \<Rightarrow> string" where
  "json_str s = [dquote] @ concat (map escape_cp (utf8_dec s)) @ [dquote]"

fun sequence :: "'a res list \<Rightarrow> 'a list res" where
  "sequence [] = Inr []"
| "sequence (r # rs) = bind_res r (\<lambda>x. bind_res (sequence rs) (\<lambda>xs. Inr (x # xs)))"

text \<open>\<open>json\<close> prints the three special floats by their JavaScript names.\<close>

definition float_text :: "string \<Rightarrow> string" where
  "float_text t = (if t = ''nan'' then ''NaN'' else if t = ''inf'' then ''Infinity''
                   else if t = ''-inf'' then ''-Infinity'' else t)"

text \<open>The options of one \<open>json.dumps\<close> call.\<close>

record json_opts =
  sort_keys :: bool
  item_sep :: string
  key_sep :: string
  default_str :: bool

primrec json_dumps :: "json_opts \<Rightarrow> pyval \<Rightarrow> string res" where
  "json_dumps opts PNone = Inr ''null''"
| "json_dumps opts (PBool b) = Inr (if b then ''true'' else ''false'')"
| "json_dumps opts (PInt i) = Inr (show_int i)"
| "json_dumps opts (PFloat t) = Inr (float_text t)"
| "json_dumps opts (PStr s) = Inr (json_str s)"
| "json_dumps opts (PList xs) =
     bind_res (sequence (map (json_dumps opts) xs))
       (\<lambda>ts. Inr (''['' @ join (item_sep opts) ts @ '']''))"
| "json_dumps opts (PDict d) =
     (let items = map (map_prod id (json_dumps opts)) d;
          items = (if sort_keys opts then sort_key fst items else items)
      in bind_res (sequence (map (\<lambda>(k, r). bind_res r
             (\<lambda>t. Inr (json_str k @ key_sep opts @ t))) items))
           (\<lambda>ts. Inr (''{'' @ join (item_sep opts) ts @ ''}'')))"
| "json_dumps opts (PDatetime t) =
     (if default_str opts then Inr (json_str (isoformat '' '' t))
      else raise TypeError ''Object of type datetime is not JSON serializable'')"

section \<open>json.loads\<close>

definition jerr :: "string \<Rightarrow> 'a res" where
  "jerr m = raise JSONDecodeError m"

definition out_of_fuel :: "'a res" where
  "out_of_fuel = raise (OtherError ''json: out of fuel'') []"

definition is_ws :: "char \<Rightarrow> bool" where
  "is_ws c \<longleftrightarrow> code c \<in> {9, 10, 13, 32}"

definition skip_ws :: "string \<Rightarrow> string" where
  "skip_ws s = dropWhile is_ws s"

definition hex_val :: "char \<Rightarrow> nat option" where
  "hex_val c =
     (if is_digit c then Some (code c - 48)
      else if 97 \<le> code c \<and> code c \<le> 102 then Some (code c - 87)
      else if 65 \<le> code c \<and> code c \<le> 70 then Some (code c - 55)
      else None)"

fun read_hex4 :: "string \<Rightarrow> nat option" where
  "read_hex4 (a # b # c # d # s) =
     (case (hex_val a, hex_val b, hex_val c, hex_val d) of
        (Some w, Some x, Some y, Some z) \<Rightarrow> Some (w * 4096 + x * 256 + y * 16 + z)
      | _ \<Rightarrow> None)"
| "read_hex4 _ = None"

definition simple_escape :: "char \<Rightarrow> char option" where
  "simple_escape c =
     (if c = dquote \<or> c = bslash \<or> c = CHR ''/'' then Some c
      else if c = CHR ''b'' then Some (CHR 0x08)
      else if c = CHR ''f'' then Some (CHR 0x0C)
      else if c = CHR ''n'' then Some (CHR 0x0A)
      else if c = CHR ''r'' then Some (CHR 0x0D)
      else if c = CHR ''t'' then Some (CHR 0x09)
      else None)"

definition is_high :: "nat \<Rightarrow> bool" where "is_high n \<longleftrightarrow> 0xD800 \<le> n \<and> n \<le> 0xDBFF"
definition is_low :: "nat \<Rightarrow> bool" where "is_low n \<longleftrightarrow> 0xDC00 \<le> n \<and> n \<le> 0xDFFF"

text \<open>What follows a backslash: the characters it stands for and the rest of the text.\<close>

definition scan_escape :: "string \<Rightarrow> (string \<times> string) res" where
  "scan_escape s =
     (case s of
        [] \<Rightarrow> jerr ''Unterminated string''
      | e # t \<Rightarrow>
          (if e \<noteq> CHR ''u'' then
             (case simple_escape e of None \<Rightarrow> jerr ''Invalid escape'' | Some x \<Rightarrow> Inr ([x], t))
           else (case read_hex4 t of None \<Rightarrow> jerr ''Invalid uXXXX escape''
              | Some u \<Rightarrow>
                  (if is_high u \<and> take 2 (drop 4 t) = [bslash, CHR ''u''] then
                     (case read_hex4 (drop 6 t) of None \<Rightarrow> jerr ''Invalid uXXXX escape''
                      | Some v \<Rightarrow>
                          (if is_low v
                           then Inr (utf8_enc (65536 + (u - 0xD800) * 1024 + (v - 0xDC00)), drop 10 t)
                           else Inr (utf8_enc u, drop 4 t)))
                   else Inr (utf8_enc u, drop 4 t)))))"

lemma scan_escape_shrinks: "scan_escape s = Inr (x, r) \<Longrightarrow> length r < length s"
  by (auto simp: scan_escape_def jerr_def split: list.splits option.splits if_splits)

text \<open>The body of a string literal, after the opening quote.\<close>

function scan_string :: "string \<Rightarrow> string \<Rightarrow> (string \<times> string) res" where
  "scan_string acc [] = jerr ''Unterminated string''"
| "scan_string acc (c # s) =
     (if c = dquote then Inr (acc, s)
      else if c \<noteq> bslash then
        (if code c < 32 then jerr ''Invalid control character'' else scan_string (acc @ [c]) s)
      else bind_res (scan_escape s) (\<lambda>xr. scan_string (acc @ fst xr) (snd xr)))"
  by pat_completeness auto
termination
  by (relation "measure (\<lambda>(acc, s). length s)") (auto dest: scan_escape_shrinks)

declare scan_string.simps(2) [simp del]

text \<open>
  A number: the integer part, then an optional fraction and exponent, which
  make it a float.  More than 4300 digits exceed Python's conversion limit.
\<close>

definition split_digits :: "string \<Rightarrow> string \<times> string" where
  "split_digits s = (takeWhile is_digit s, dropWhile is_digit s)"

definition scan_frac :: "string \<Rightarrow> string \<times> string" where
  "scan_frac s = (case s of [] \<Rightarrow> ([], s) | c # t \<Rightarrow>
     (if c = CHR ''.'' \<and> fst (split_digits t) \<noteq> []
      then (c # fst (split_digits t), snd (split_digits t)) else ([], s)))"

definition scan_sign :: "string \<Rightarrow> string \<times> string" where
  "scan_sign s = (case s of [] \<Rightarrow> ([], s) | g # u \<Rightarrow>
     (if g \<in> {CHR ''+'', CHR ''-''} then ([g], u) else ([], s)))"

definition scan_exp :: "string \<Rightarrow> string \<times> string" where
  "scan_exp s = (case s of [] \<Rightarrow> ([], s) | c # t \<Rightarrow>
     (if c \<in> {CHR ''e'', CHR ''E''} \<and> fst (split_digits (snd (scan_sign t))) \<noteq> []
      then (c # fst (scan_sign t) @ fst (split_digits (snd (scan_sign t))),
            snd (split_digits (snd (scan_sign t))))
      else ([], s)))"

definition number_of_parts :: "bool \<Rightarrow> string \<Rightarrow> string \<Rightarrow> string \<Rightarrow> pyval res" where
  "number_of_parts neg ip f e =
     (if f = [] \<and> e = [] then
        (if 4300 < length ip then raise ValueError ''Exceeds the limit for integer string conversion''
         else Inr (PInt (if neg then - int (read_nat ip) else int (read_nat ip))))
      else Inr (PFloat ((if neg then ''-'' else []) @ ip @ f @ e)))"

definition scan_unsigned :: "bool \<Rightarrow> string \<Rightarrow> (pyval \<times> string) res" where
  "scan_unsigned neg t =
     (let ds = fst (split_digits t);
          ip = (if hd ds = CHR ''0'' then [CHR ''0''] else ds);
          fr = scan_frac (drop (length ip) t);
          er = scan_exp (snd fr)
      in if ds = [] then jerr ''Expecting value''
         else bind_res (number_of_parts neg ip (fst fr) (fst er)) (\<lambda>v. Inr (v, snd er)))"

definition scan_number :: "string \<Rightarrow> (pyval \<times> string) res" where
  "scan_number s =
     (if s \<noteq> [] \<and> hd s = CHR ''-'' then scan_unsigned True (tl s) else scan_unsigned False s)"

definition scan_atom :: "string \<Rightarrow> (pyval \<times> string) res" where
  "scan_atom s =
     (if startswith s ''null'' then Inr (PNone, drop 4 s)
      else if startswith s ''true'' then Inr (PBool True, drop 4 s)
      else if startswith s ''false'' then Inr (PBool False, drop 5 s)
      else if startswith s ''NaN'' then Inr (PFloat ''nan'', drop 3 s)
      else if startswith s ''Infinity'' then Inr (PFloat ''inf'', drop 8 s)
      else if startswith s ''-Infinity'' then Inr (PFloat ''-inf'', drop 9 s)
      else scan_number s)"

fun parse_value :: "nat \<Rightarrow> string \<Rightarrow> (pyval \<times> string) res"
and parse_elems :: "nat \<Rightarrow> pyval list \<Rightarrow> string \<Rightarrow> (pyval list \<times> string) res"
and parse_members :: "nat \<Rightarrow> pydict \<Rightarrow> string \<Rightarrow> (pydict \<times> string) res"
where
  "parse_value 0 s = out_of_fuel"
| "parse_value (Suc n) s =
     (case s of [] \<Rightarrow> jerr ''Expecting value''
      | c # cs \<Rightarrow>
         (if c = dquote then bind_res (scan_string [] cs) (\<lambda>(t, r). Inr (PStr t, r))
          else if c = CHR ''{'' then
            (case skip_ws cs of
               [] \<Rightarrow> jerr ''Expecting property name enclosed in double quotes''
             | d # r \<Rightarrow> (if d = CHR ''}'' then Inr (PDict [], r)
                         else bind_res (parse_members n [] (d # r)) (\<lambda>(m, r'). Inr (PDict m, r'))))
          else if c = CHR ''['' then
            (case skip_ws cs of
               [] \<Rightarrow> jerr ''Expecting value''
             | d # r \<Rightarrow> (if d = CHR '']'' then Inr (PList [], r)
                         else bind_res (parse_elems n [] (d # r)) (\<lambda>(xs, r'). Inr (PList xs, r'))))
          else scan_atom s))"
| "parse_elems 0 acc s = out_of_fuel"
| "parse_elems (Suc n) acc s =
     bind_res (parse_value n s) (\<lambda>(v, r).
       case skip_ws r of
         [] \<Rightarrow> jerr ''Expecting comma delimiter''
       | d # r' \<Rightarrow>
           (if d = CHR '']'' then Inr (acc @ [v], r')
            else if d = CHR '','' then parse_elems n (acc @ [v]) (skip_ws r')
            else jerr ''Expecting comma delimiter''))"
| "parse_members 0 acc s = out_of_fuel"
| "parse_members (Suc n) acc s =
     (case s of [] \<Rightarrow> jerr ''Expecting property name enclosed in double quotes''
      | c # cs \<Rightarrow>
         (if c \<noteq> dquote then jerr ''Expecting property name enclosed in double quotes''
          else bind_res (scan_string [] cs) (\<lambda>(k, r).
            case skip_ws r of [] \<Rightarrow> jerr ''Expecting colon delimiter''
            | d # r1 \<Rightarrow>
               (if d \<noteq> CHR '':'' then jerr ''Expecting colon delimiter''
                else bind_res (parse_value n (skip_ws r1)) (\<lambda>(v, r2).
                  case skip_ws r2 of [] \<Rightarrow> jerr ''Expecting comma delimiter''
                  | e # r3 \<Rightarrow>
                     (if e = CHR ''}'' then Inr (dict_set k v acc, r3)
                      else if e = CHR '','' then parse_members n (dict_set k v acc) (skip_ws r3)
                      else jerr ''Expecting comma delimiter''))))))"

text \<open>\<open>json.loads\<close>; the argument is what \<open>fields.get("data")\<close> may be, so it can be \<open>None\<close>.\<close>

definition json_loads :: "string option \<Rightarrow> pyval res" where
  "json_loads x =
     (case x of
        None \<Rightarrow> raise TypeError ''the JSON object must be str, bytes or bytearray, not NoneType''
      | Some s \<Rightarrow>
          bind_res (parse_value (2 * length s + 1) (skip_ws s)) (\<lambda>(v, r).
            if skip_ws r = [] then Inr v else jerr ''Extra data''))"

section \<open>The fuel of the decoder is enough\<close>

lemma length_skip_ws: "length (skip_ws s) \<le> length s"
  by (simp add: skip_ws_def length_dropWhile_le)

lemma scan_string_shrinks: "scan_string acc s = Inr (t, r) \<Longrightarrow> length r < length s"
proof (induction acc s rule: scan_string.induct)
  case (2 acc c s)
  consider "c = dquote" | "c \<noteq> dquote" "c \<noteq> bslash" | "c \<noteq> dquote" "c = bslash" by blast
  then show ?case
  proof cases
    case 3
    with "2.prems" obtain x u where e: "scan_escape s = Inr (x, u)"
      and "scan_string (acc @ x) u = Inr (t, r)"
      by (auto simp: scan_string.simps)
    with 3 "2.IH"(2) [OF _ _ e] have "length r < length u" by simp
    with scan_escape_shrinks [OF e] show ?thesis by simp
  qed (use 2 in \<open>auto simp: scan_string.simps jerr_def split: if_splits\<close>)
qed (simp add: jerr_def)

lemma scan_string_error: "scan_string acc s \<noteq> out_of_fuel"
proof (induction acc s rule: scan_string.induct)
  case (2 acc c s)
  have "scan_escape s \<noteq> out_of_fuel"
    by (auto simp: scan_escape_def jerr_def out_of_fuel_def split: list.splits option.splits)
  with 2 show ?case
    by (subst scan_string.simps, cases "scan_escape s") (auto simp: jerr_def out_of_fuel_def)
qed (simp add: jerr_def out_of_fuel_def)

lemma scan_frac_le: "length (snd (scan_frac s)) \<le> length s"
  by (auto simp: scan_frac_def split_digits_def intro: le_SucI length_dropWhile_le split: list.splits)

lemma scan_exp_le: "length (snd (scan_exp s)) \<le> length s"
proof (cases s)
  case (Cons c t)
  have "length (snd (scan_sign t)) \<le> length t"
    by (simp add: scan_sign_def split: list.split)
  with Cons show ?thesis
    by (auto simp: scan_exp_def split_digits_def intro!: le_SucI
        intro: order_trans [OF length_dropWhile_le])
qed (simp add: scan_exp_def)

lemma scan_unsigned_shrinks:
  assumes "scan_unsigned neg t = Inr (v, r)"
  shows "length r < length t"
proof -
  define ds where "ds = fst (split_digits t)"
  define ip where "ip = (if hd ds = CHR ''0'' then [CHR ''0''] else ds)"
  define fr where "fr = scan_frac (drop (length ip) t)"
  from assms have ne: "ds \<noteq> []" and r: "r = snd (scan_exp (snd fr))"
    by (auto simp: scan_unsigned_def Let_def ds_def ip_def fr_def jerr_def split: if_splits)
  from ne have "t \<noteq> []" "ip \<noteq> []" by (auto simp: ds_def ip_def split_digits_def)
  then have "length (drop (length ip) t) < length t" by (cases t; cases ip) auto
  then show ?thesis
    using r scan_exp_le [of "snd fr"] scan_frac_le [of "drop (length ip) t"] by (simp add: fr_def)
qed

lemma scan_number_shrinks: "scan_number s = Inr (v, r) \<Longrightarrow> length r < length s"
  by (cases s) (auto simp: scan_number_def dest!: scan_unsigned_shrinks split: if_splits)

lemma if_neqI: "(b \<Longrightarrow> x \<noteq> y) \<Longrightarrow> (\<not> b \<Longrightarrow> z \<noteq> y) \<Longrightarrow> (if b then x else z) \<noteq> y"
  by simp

lemma scan_number_error: "scan_number s \<noteq> out_of_fuel"
proof -
  have "scan_unsigned neg t \<noteq> out_of_fuel" for neg t
    unfolding scan_unsigned_def number_of_parts_def Let_def jerr_def out_of_fuel_def
    by (intro if_neqI) simp_all
  then show ?thesis by (simp add: scan_number_def)
qed

lemma startswith_not_Nil: "startswith s p \<Longrightarrow> p \<noteq> [] \<Longrightarrow> s \<noteq> []"
  by (auto simp: startswith_def)

lemma scan_atom_shrinks:
  assumes "scan_atom s = Inr (v, r)"
  shows "length r < length s"
proof (cases "scan_number s = Inr (v, r)")
  case False
  with assms have "r \<in> {drop 3 s, drop 4 s, drop 5 s, drop 8 s, drop 9 s}" and "s \<noteq> []"
    by (auto simp: scan_atom_def dest: startswith_not_Nil split: if_splits)
  then show ?thesis by (cases s) auto
qed (rule scan_number_shrinks)

lemma scan_atom_error: "scan_atom s \<noteq> out_of_fuel"
  using scan_number_error [of s] by (simp add: scan_atom_def out_of_fuel_def)

text \<open>
  Inversion of the three parsing functions, one lemma per function: what a
  successful run read.
\<close>

lemma parse_elems_SucD:
  assumes "parse_elems (Suc n) acc s = Inr (ys, r)"
  obtains v u d u' where "parse_value n s = Inr (v, u)" and "skip_ws u = d # u'"
    and "d = CHR '']'' \<longrightarrow> r = u' \<and> ys = acc @ [v]"
    and "d \<noteq> CHR '']'' \<longrightarrow> parse_elems n (acc @ [v]) (skip_ws u') = Inr (ys, r)"
proof -
  from assms obtain v u where v: "parse_value n s = Inr (v, u)" by auto
  show thesis
  proof (cases "skip_ws u")
    case Nil
    with assms v show ?thesis by (simp add: jerr_def)
  next
    case (Cons d u')
    with assms v show ?thesis
      by (intro that [OF v Cons]) (simp_all add: jerr_def split: if_splits)
  qed
qed

lemma parse_members_SucD:
  assumes "parse_members (Suc n) acc s = Inr (e, r)"
  obtains cs k u u1 v u2 d u3 where "s = dquote # cs" and "scan_string [] cs = Inr (k, u)"
    and "skip_ws u = CHR '':'' # u1" and "parse_value n (skip_ws u1) = Inr (v, u2)"
    and "skip_ws u2 = d # u3"
    and "d = CHR ''}'' \<longrightarrow> r = u3 \<and> e = dict_set k v acc"
    and "d \<noteq> CHR ''}'' \<longrightarrow> parse_members n (dict_set k v acc) (skip_ws u3) = Inr (e, r)"
proof -
  from assms obtain cs where s: "s = dquote # cs"
    by (cases s) (simp_all add: jerr_def split: if_splits)
  with assms obtain k u where k: "scan_string [] cs = Inr (k, u)" by auto
  from s k assms obtain u1 where u1: "skip_ws u = CHR '':'' # u1"
    by (cases "skip_ws u") (simp_all add: jerr_def split: if_splits)
  from s k u1 assms obtain v u2 where v: "parse_value n (skip_ws u1) = Inr (v, u2)" by auto
  from s k u1 v assms obtain d u3 where d: "skip_ws u2 = d # u3"
    by (cases "skip_ws u2") (simp_all add: jerr_def)
  show thesis
    by (rule that [OF s k u1 v d]) (use s k u1 v d assms in \<open>simp_all add: jerr_def split: if_splits\<close>)
qed

lemma parse_value_SucD:
  assumes "parse_value (Suc n) s = Inr (v, r)"
  obtains (string) cs t where "s = dquote # cs" and "scan_string [] cs = Inr (t, r)" and "v = PStr t"
  | (obj) cs u d where "s = CHR ''{'' # cs" and "skip_ws cs = d # u"
    and "d = CHR ''}'' \<and> r = u \<or> (\<exists>m. parse_members n [] (d # u) = Inr (m, r) \<and> v = PDict m)"
  | (arr) cs u d where "s = CHR ''['' # cs" and "skip_ws cs = d # u"
    and "d = CHR '']'' \<and> r = u \<or> (\<exists>xs. parse_elems n [] (d # u) = Inr (xs, r) \<and> v = PList xs)"
  | (atom) "scan_atom s = Inr (v, r)"
proof (cases s)
  case Nil
  with assms show ?thesis by (simp add: jerr_def)
next
  case (Cons c cs)
  consider "c = dquote" | "c \<noteq> dquote" "c = CHR ''{''" | "c \<noteq> dquote" "c = CHR ''[''"
    | "c \<noteq> dquote" "c \<noteq> CHR ''{''" "c \<noteq> CHR ''[''" by blast
  then show ?thesis
  proof cases
    case 1
    with assms Cons string show ?thesis by auto
  next
    case 2
    show ?thesis
    proof (cases "skip_ws cs")
      case Nil
      with 2 assms Cons show ?thesis by (simp add: jerr_def)
    next
      case (Cons d u)
      with 2 assms \<open>s = c # cs\<close> show ?thesis by (intro obj) (auto split: if_splits)
    qed
  next
    case 3
    show ?thesis
    proof (cases "skip_ws cs")
      case Nil
      with 3 assms Cons show ?thesis by (simp add: jerr_def)
    next
      case (Cons d u)
      with 3 assms \<open>s = c # cs\<close> show ?thesis by (intro arr) (auto split: if_splits)
    qed
  next
    case 4
    with assms Cons show ?thesis by (intro atom) simp
  qed
qed

lemma skip_ws_less: "skip_ws s = d # u \<Longrightarrow> length u < length s"
  using length_skip_ws [of s] by simp

lemma parse_shrinks:
  "parse_value n s = Inr (v, r) \<Longrightarrow> length r < length s"
  "parse_elems n xs s = Inr (ys, r) \<Longrightarrow> length r < length s"
  "parse_members n d s = Inr (e, r) \<Longrightarrow> length r < length s"
proof (induction n arbitrary: s v r xs ys d e)
  case (Suc n)
  {
    case 1
    then show ?case
    proof (cases rule: parse_value_SucD)
      case (obj cs u d)
      then show ?thesis using Suc.IH(3) [of "[]" "d # u"] skip_ws_less [OF obj(2)] by fastforce
    next
      case (arr cs u d)
      then show ?thesis using Suc.IH(2) [of "[]" "d # u"] skip_ws_less [OF arr(2)] by fastforce
    qed (auto dest: scan_string_shrinks scan_atom_shrinks)
  next
    case 2
    then obtain v u d u' where "parse_value n s = Inr (v, u)" and u: "skip_ws u = d # u'"
      and "d = CHR '']'' \<longrightarrow> r = u' \<and> ys = xs @ [v]"
      and "d \<noteq> CHR '']'' \<longrightarrow> parse_elems n (xs @ [v]) (skip_ws u') = Inr (ys, r)"
      by (rule parse_elems_SucD)
    moreover from this have "length u < length s" using Suc.IH(1) by blast
    moreover have "length (skip_ws u') \<le> length u'" by (rule length_skip_ws)
    ultimately show ?case
      using Suc.IH(2) [of "xs @ [v]" "skip_ws u'"] skip_ws_less [OF u]
      by (cases "d = CHR '']''") fastforce+
  next
    case 3
    then obtain cs k u u1 v u2 a u3 where s: "s = dquote # cs" "scan_string [] cs = Inr (k, u)"
      and u: "skip_ws u = CHR '':'' # u1" and v: "parse_value n (skip_ws u1) = Inr (v, u2)"
      and u2: "skip_ws u2 = a # u3"
      and last: "a = CHR ''}'' \<longrightarrow> r = u3 \<and> e = dict_set k v d"
      and more: "a \<noteq> CHR ''}'' \<longrightarrow> parse_members n (dict_set k v d) (skip_ws u3) = Inr (e, r)"
      by (rule parse_members_SucD)
    have "length u3 < length s"
      using scan_string_shrinks [OF s(2)] skip_ws_less [OF u] length_skip_ws [of u1]
        Suc.IH(1) [OF v] skip_ws_less [OF u2] s(1) by simp
    then show ?case
      using last more Suc.IH(3) [of "dict_set k v d" "skip_ws u3"] length_skip_ws [of u3]
      by (cases "a = CHR ''}''") fastforce+
  }
qed (simp_all add: out_of_fuel_def)

lemma case_tokens_neq:
  "x \<noteq> out_of_fuel \<Longrightarrow> (\<And>d u. s = d # u \<Longrightarrow> f d u \<noteq> out_of_fuel) \<Longrightarrow>
    (case s of [] \<Rightarrow> x | d # u \<Rightarrow> f d u) \<noteq> out_of_fuel"
  by (cases s) auto

lemma bind_res_neq:
  "r \<noteq> out_of_fuel \<Longrightarrow> (\<And>x. r = Inr x \<Longrightarrow> f x \<noteq> out_of_fuel) \<Longrightarrow> bind_res r f \<noteq> out_of_fuel"
  by (cases r) (auto simp: out_of_fuel_def)

lemma jerr_neq: "jerr m \<noteq> out_of_fuel" "Inr x \<noteq> out_of_fuel"
  by (auto simp: jerr_def out_of_fuel_def)

lemma parse_fuel:
  "2 * length s < n \<Longrightarrow> parse_value n s \<noteq> out_of_fuel"
  "2 * length s + 1 < n \<Longrightarrow> parse_elems n xs s \<noteq> out_of_fuel"
  "2 * length s + 1 < n \<Longrightarrow> parse_members n d s \<noteq> out_of_fuel"
proof (induction n arbitrary: s xs d)
  case (Suc n)
  {
    case 1
    have less: "s = c # cs \<Longrightarrow> skip_ws cs = x # u \<Longrightarrow> 2 * length (x # u) + 1 < n" for c cs x u
      using 1 length_skip_ws [of cs] by simp
    show ?case
      unfolding parse_value.simps
      by (intro case_tokens_neq if_neqI bind_res_neq jerr_neq scan_string_error scan_atom_error)
         (auto simp: jerr_neq split: prod.splits intro!: Suc.IH(2,3) less)
  next
    case 2
    have less: "parse_value n s = Inr (v, r) \<Longrightarrow> skip_ws r = x # u
        \<Longrightarrow> 2 * length (skip_ws u) + 1 < n" for v r x u
      using 2 parse_shrinks(1) [of n s v r] length_skip_ws [of r] length_skip_ws [of u] by auto
    show ?case
      unfolding parse_elems.simps case_prod_beta
      by (intro case_tokens_neq if_neqI bind_res_neq jerr_neq Suc.IH(1) Suc.IH(2))
         (use 2 less in \<open>auto simp: prod_eq_iff\<close>)
  next
    case 3
    have mid: "s = c # cs \<Longrightarrow> scan_string [] cs = Inr (k, u) \<Longrightarrow> skip_ws u = a # u1
        \<Longrightarrow> 2 * length (skip_ws u1) + 3 < n" for c cs k u a u1
      using 3 scan_string_shrinks [of "[]" cs k u] length_skip_ws [of u] length_skip_ws [of u1] by auto
    have less: "2 * length (skip_ws w) + 1 < n"
      if "s = c # cs" "scan_string [] cs = Inr (k, u)" "skip_ws u = a # u1"
        "parse_value n (skip_ws u1) = Inr (v, u2)" "skip_ws u2 = b # w" for c cs k u a u1 v u2 b w
      using mid [OF that(1-3)] parse_shrinks(1) [OF that(4)] that(5) length_skip_ws [of u2]
        length_skip_ws [of w] by auto
    show ?case
      unfolding parse_members.simps case_prod_beta
      apply (intro case_tokens_neq if_neqI bind_res_neq jerr_neq scan_string_error Suc.IH(1) Suc.IH(3))
      using mid less by (fastforce simp: prod_eq_iff)+
  }
qed simp_all

text \<open>So \<^const>\<open>json_loads\<close> always returns a value or an error of the decoder.\<close>

lemma json_loads_total: "json_loads x \<noteq> out_of_fuel"
proof (cases x)
  case (Some s)
  have "2 * length (skip_ws s) < 2 * length s + 1" using length_skip_ws [of s] by simp
  then have "parse_value (2 * length s + 1) (skip_ws s) \<noteq> out_of_fuel" by (rule parse_fuel)
  then have "bind_res (parse_value (2 * length s + 1) (skip_ws s))
      (\<lambda>(v, r). if skip_ws r = [] then Inr v else jerr ''Extra data'') \<noteq> out_of_fuel"
    by (rule bind_res_neq) (auto simp: jerr_neq split: prod.splits)
  with Some show ?thesis by (simp add: json_loads_def)
qed (simp add: json_loads_def out_of_fuel_def)

end
