(* ===== verification/Audit_Models.thy ===== *)
theory Audit_Models
  imports Py_Json
begin

text \<open>
  \<open>audit/models.py\<close> (the event envelope and its validation) and
  \<open>db/models.py\<close> (the rows of the three tables).  Pydantic's leaf validators
  are a parameter; which fields there are, which are required, their defaults
  and the tenant rule are the source's.
\<close>

section \<open>The event envelope\<close>

record audit_event =
  event_id :: string
  timestamp :: datetime
  service :: string
  event_type :: string
  user_id :: "string option"
  organization_id :: "string option"
  tenant_scope :: string
  action :: string
  resource :: "string option"
  decision :: "string option"
  reason :: "string option"
  trace_id :: "string option"
  event_context :: pyval

text \<open>The validators of the field types \<open>str\<close>, \<open>datetime\<close> and \<open>dict[str, Any]\<close>.\<close>

record pydantic =
  valid_str :: "pyval \<Rightarrow> string option"
  valid_datetime :: "pyval \<Rightarrow> datetime option"
  valid_dict :: "pyval \<Rightarrow> pydict option"

definition invalid :: "string \<Rightarrow> 'a res" where
  "invalid f = raise ValidationError f"

definition get_required :: "(pyval \<Rightarrow> 'a option) \<Rightarrow> pydict \<Rightarrow> string \<Rightarrow> 'a res" where
  "get_required valid d k =
     (case map_of d k of None \<Rightarrow> invalid k
      | Some v \<Rightarrow> (case valid v of None \<Rightarrow> invalid k | Some x \<Rightarrow> Inr x))"

definition get_default :: "(pyval \<Rightarrow> 'a option) \<Rightarrow> 'a \<Rightarrow> pydict \<Rightarrow> string \<Rightarrow> 'a res" where
  "get_default valid dflt d k =
     (case map_of d k of None \<Rightarrow> Inr dflt
      | Some v \<Rightarrow> (case valid v of None \<Rightarrow> invalid k | Some x \<Rightarrow> Inr x))"

text \<open>A field of type \<open>str | None\<close> with default \<open>None\<close>.\<close>

definition get_optional :: "pydantic \<Rightarrow> pydict \<Rightarrow> string \<Rightarrow> string option res" where
  "get_optional P = get_default
     (\<lambda>v. if v = PNone then Some None else map_option Some (valid_str P v)) None"

definition tenant_scopes :: "string list" where
  "tenant_scopes = [''organization'', ''global'', ''unknown'']"

definition valid_scope :: "pyval \<Rightarrow> string option" where
  "valid_scope v = (case v of PStr s \<Rightarrow> (if s \<in> set tenant_scopes then Some s else None) | _ \<Rightarrow> None)"

text \<open>The \<open>mode="after"\<close> validator; its \<open>ValueError\<close> surfaces as a \<open>ValidationError\<close>.\<close>

definition validate_tenant_scope :: "audit_event \<Rightarrow> audit_event res" where
  "validate_tenant_scope ev =
     (let ev' = (if organization_id ev \<noteq> None \<and> tenant_scope ev = ''unknown''
                 then ev\<lparr>tenant_scope := ''organization''\<rparr> else ev)
      in if tenant_scope ev' = ''organization'' \<and> organization_id ev' = None
         then raise ValidationError ''organization tenant scope requires organization_id''
         else if tenant_scope ev' \<noteq> ''organization'' \<and> organization_id ev' \<noteq> None
         then raise ValidationError ''organization_id requires organization tenant scope''
         else Inr ev')"

text \<open>
  \<open>AuditEvent(**payload)\<close>; \<open>uuid\<close> and \<open>now\<close> are what the default factories
  of \<open>event_id\<close> and \<open>timestamp\<close> would return.
\<close>

definition audit_event_init :: "pydantic \<Rightarrow> string \<Rightarrow> datetime \<Rightarrow> pydict \<Rightarrow> audit_event res" where
  "audit_event_init P uuid now d =
     bind_res (get_default (valid_str P) uuid d ''event_id'') (\<lambda>eid.
     bind_res (get_default (valid_datetime P) now d ''timestamp'') (\<lambda>ts.
     bind_res (get_required (valid_str P) d ''service'') (\<lambda>sv.
     bind_res (get_required (valid_str P) d ''event_type'') (\<lambda>ety.
     bind_res (get_optional P d ''user_id'') (\<lambda>uid.
     bind_res (get_optional P d ''organization_id'') (\<lambda>org.
     bind_res (get_default valid_scope ''unknown'' d ''tenant_scope'') (\<lambda>sc.
     bind_res (get_default (valid_str P) [] d ''action'') (\<lambda>act.
     bind_res (get_optional P d ''resource'') (\<lambda>rs.
     bind_res (get_optional P d ''decision'') (\<lambda>dec.
     bind_res (get_optional P d ''reason'') (\<lambda>rea.
     bind_res (get_optional P d ''trace_id'') (\<lambda>tr.
     bind_res (get_default (valid_dict P) [] d ''context'') (\<lambda>ctx.
     validate_tenant_scope
       \<lparr>event_id = eid, timestamp = ts, service = sv, event_type = ety, user_id = uid,
        organization_id = org, tenant_scope = sc, action = act, resource = rs, decision = dec,
        reason = rea, trace_id = tr, event_context = PDict ctx\<rparr>)))))))))))))"

text \<open>The tenant contract of an accepted event.\<close>

definition tenant_ok :: "audit_event \<Rightarrow> bool" where
  "tenant_ok ev \<longleftrightarrow> tenant_scope ev \<in> set tenant_scopes \<and>
     (tenant_scope ev = ''organization'' \<longleftrightarrow> organization_id ev \<noteq> None)"

lemma validate_tenant_scope_iff:
  "validate_tenant_scope ev = Inr ev' \<longleftrightarrow>
     (tenant_scope ev' = ''organization'' \<longleftrightarrow> organization_id ev' \<noteq> None) \<and>
     ev' = (if organization_id ev \<noteq> None \<and> tenant_scope ev = ''unknown''
            then ev\<lparr>tenant_scope := ''organization''\<rparr> else ev)"
  by (auto simp: validate_tenant_scope_def Let_def)

lemma get_default_scope:
  "get_default valid_scope ''unknown'' d k = Inr s \<Longrightarrow> s \<in> set tenant_scopes"
  by (auto simp: get_default_def valid_scope_def invalid_def tenant_scopes_def
      split: option.splits pyval.splits if_splits)

text \<open>
  Every event the envelope accepts honours the tenant contract: its scope
  is one of the three values, and it is \<open>organization\<close> exactly when an
  organization ID is present, whatever the payload declared.
\<close>

theorem accepted_event_tenant_ok:
  assumes "audit_event_init P uuid now d = Inr ev"
  shows "tenant_ok ev"
proof -
  from assms obtain ev0 where v: "validate_tenant_scope ev0 = Inr ev"
    and s: "tenant_scope ev0 \<in> set tenant_scopes"
    by (auto simp: audit_event_init_def dest!: get_default_scope)
  then have "tenant_scope ev \<in> set tenant_scopes"
    by (auto simp: validate_tenant_scope_iff tenant_scopes_def)
  moreover from v have "tenant_scope ev = ''organization'' \<longleftrightarrow> organization_id ev \<noteq> None"
    using iffD1 [OF validate_tenant_scope_iff] by blast
  ultimately show ?thesis by (simp add: tenant_ok_def)
qed

text \<open>Pydantic's documented behaviour on values that are already of the field's type.\<close>

definition pydantic_ok :: "pydantic \<Rightarrow> bool" where
  "pydantic_ok P \<longleftrightarrow>
     (\<forall>s. valid_str P (PStr s) = Some s) \<and> valid_str P PNone = None \<and>
     (\<forall>t. valid_datetime P (PDatetime t) = Some t) \<and> (\<forall>d. valid_dict P (PDict d) = Some d)"

text \<open>An instance that accepts exactly these.\<close>

definition strict_pydantic :: pydantic where
  "strict_pydantic =
     \<lparr>valid_str = (\<lambda>v. case v of PStr s \<Rightarrow> Some s | _ \<Rightarrow> None),
      valid_datetime = (\<lambda>v. case v of PDatetime t \<Rightarrow> Some t | _ \<Rightarrow> None),
      valid_dict = (\<lambda>v. case v of PDict d \<Rightarrow> Some d | _ \<Rightarrow> None)\<rparr>"

lemma pydantic_ok_strict: "pydantic_ok strict_pydantic"
  by (simp add: pydantic_ok_def strict_pydantic_def)

theorem accepted_event_tenant_ok_witness:
  "\<exists>ev. audit_event_init strict_pydantic ''u1'' (DateTime 0 None)
     [(''service'', PStr ''tes''), (''event_type'', PStr ''submit''), (''organization_id'', PStr ''589'')]
     = Inr ev \<and> tenant_scope ev = ''organization'' \<and> tenant_ok ev"
proof -
  let ?d = "[(''service'', PStr ''tes''), (''event_type'', PStr ''submit''), (''organization_id'', PStr ''589'')]"
  have "\<exists>ev. audit_event_init strict_pydantic ''u1'' (DateTime 0 None) ?d = Inr ev
      \<and> tenant_scope ev = ''organization''"
    by (simp add: audit_event_init_def get_default_def get_required_def get_optional_def
        strict_pydantic_def validate_tenant_scope_def)
  then show ?thesis using accepted_event_tenant_ok by blast
qed

section \<open>The rows of the tables\<close>

text \<open>
  \<open>AuditEventRecord\<close>: the columns of the event, then the classification and
  the tamper-detection columns.  Nullable columns are options; \<open>created_at\<close>
  is set by the server, so it is absent from a row being inserted.
\<close>

record audit_row = audit_event +
  integrity_status :: string
  record_integrity_hash :: "string option"
  integrity_key_id :: "string option"
  created_at :: "datetime option"

text \<open>\<open>QuarantinedAuditEvent\<close>.\<close>

record quarantine_row =
  stream_message_id :: string
  raw_data :: "string option"
  raw_signature :: "string option"
  q_service :: "string option"
  failure_category :: string
  failure_detail :: "string option"
  delivery_attempts :: int
  q_record_integrity_hash :: "string option"
  q_integrity_key_id :: "string option"
  quarantined_at :: "datetime option"

text \<open>\<open>AuditLegalHold\<close>: one row per held record.\<close>

record legal_hold =
  record_table :: string
  record_key :: string
  held_at :: "datetime option"
  held_by :: "string option"
  hold_reason :: "string option"

text \<open>The mapping a hash is computed over, for each of the two tables.\<close>

definition event_fields :: "audit_row \<Rightarrow> pydict" where
  "event_fields r =
     [(''event_id'', PStr (event_id r)), (''timestamp'', PDatetime (timestamp r)),
      (''service'', PStr (service r)), (''event_type'', PStr (event_type r)),
      (''user_id'', of_opt (user_id r)), (''organization_id'', of_opt (organization_id r)),
      (''tenant_scope'', PStr (tenant_scope r)), (''action'', PStr (action r)),
      (''resource'', of_opt (resource r)), (''decision'', of_opt (decision r)),
      (''reason'', of_opt (reason r)), (''trace_id'', of_opt (trace_id r)),
      (''context'', event_context r), (''integrity_status'', PStr (integrity_status r)),
      (''record_integrity_hash'', of_opt (record_integrity_hash r)),
      (''integrity_key_id'', of_opt (integrity_key_id r))]"

definition quarantine_fields :: "quarantine_row \<Rightarrow> pydict" where
  "quarantine_fields r =
     [(''stream_message_id'', PStr (stream_message_id r)), (''raw_data'', of_opt (raw_data r)),
      (''raw_signature'', of_opt (raw_signature r)), (''service'', of_opt (q_service r)),
      (''failure_category'', PStr (failure_category r)),
      (''failure_detail'', of_opt (failure_detail r)),
      (''delivery_attempts'', PInt (delivery_attempts r)),
      (''record_integrity_hash'', of_opt (q_record_integrity_hash r)),
      (''integrity_key_id'', of_opt (q_integrity_key_id r))]"

end
