(* ===== verification/Json_Roundtrip.thy ===== *)
theory Json_Roundtrip
  imports Py_Json
begin

text \<open>
  \<open>json.loads\<close> inverts \<open>json.dumps\<close>: a value without datetimes, whose
  dictionaries have distinct keys and whose strings are well-formed, is read
  back as it was, with the dictionaries in the order they were printed in.
  Hence two values with the same canonical text are equal up to the order of
  their keys.
\<close>

section \<open>Strings\<close>

lemma hex_val_digit: "n < 16 \<Longrightarrow> hex_val (hex_digit n) = Some n"
  by (auto simp: hex_val_def hex_digit_def is_digit_def)

lemma hex4_value:
  assumes "n < 65536"
  shows "n div 4096 mod 16 * 4096 + n div 256 mod 16 * 256 + n div 16 mod 16 * 16 + n mod 16 = (n::nat)"
proof -
  have "n div 16 div 16 = n div 256" "n div 256 div 16 = n div 4096"
    by (simp_all flip: div_mult2_eq)
  moreover have "n div 4096 < 16" using assms by (simp add: less_mult_imp_div_less)
  moreover have "q3 * 4096 + d2 * 256 + d1 * 16 + d0 = n"
    if "n = q1 * 16 + d0" "q1 = q2 * 16 + d1" "q2 = q3 * 16 + d2" for q1 q2 q3 d0 d1 d2 :: nat
    using that by simp
  ultimately show ?thesis
    by (metis div_mult_mod_eq mod_less)
qed

lemma read_hex4_hex4: "n < 65536 \<Longrightarrow> read_hex4 (hex4 n @ s) = Some n"
  using hex4_value by (simp add: hex4_def hex_val_digit)

lemma length_hex4 [simp]: "length (hex4 n) = 4"
  by (simp add: hex4_def)

lemma drop_hex4 [simp]: "drop 4 (hex4 n @ s) = s" "drop 6 (hex4 n @ a # b # s) = s"
  by (simp_all add: hex4_def)

lemma quote_codes [simp]: "code dquote = 34" "code bslash = 92" "dquote \<noteq> bslash" "bslash \<noteq> dquote"
  by (simp_all add: dquote_def bslash_def code_def)

lemma char_of_escapes:
  "char_of (34::nat) = CHR 0x22" "char_of (92::nat) = CHR 0x5C" "char_of (10::nat) = CHR 0x0A"
  "char_of (13::nat) = CHR 0x0D" "char_of (9::nat) = CHR 0x09" "char_of (12::nat) = CHR 0x0C"
  "char_of (8::nat) = CHR 0x08"
  by code_simp+

lemma scan_string_bslash [simp]:
  "scan_string acc (bslash # s) = bind_res (scan_escape s) (\<lambda>xr. scan_string (acc @ fst xr) (snd xr))"
  by (simp add: scan_string.simps)

lemma scan_escape_simple: "e \<noteq> CHR ''u'' \<Longrightarrow> simple_escape e = Some x \<Longrightarrow> scan_escape (e # s) = Inr ([x], s)"
  by (simp add: scan_escape_def)

lemma simple_escapes:
  "simple_escape dquote = Some dquote" "simple_escape bslash = Some bslash"
  "simple_escape CHR ''n'' = Some CHR 0x0A" "simple_escape CHR ''r'' = Some CHR 0x0D"
  "simple_escape CHR ''t'' = Some CHR 0x09" "simple_escape CHR ''f'' = Some CHR 0x0C"
  "simple_escape CHR ''b'' = Some CHR 0x08"
  by (simp_all add: simple_escape_def dquote_def bslash_def)

lemma scan_escape_u:
  assumes "n < 65536" and "\<not> is_high n"
  shows "scan_escape (CHR ''u'' # hex4 n @ s) = Inr (utf8_enc n, s)"
  using assms by (simp add: scan_escape_def read_hex4_hex4)

lemma scan_escape_pair:
  assumes "65536 \<le> n" and "n < 0x110000"
  shows "scan_escape (CHR ''u'' # hex4 (0xD800 + (n - 65536) div 1024) @ bslash # CHR ''u''
      # hex4 (0xDC00 + (n - 65536) mod 1024) @ s) = Inr (utf8_enc n, s)"
proof -
  let ?h = "0xD800 + (n - 65536) div 1024" and ?l = "0xDC00 + (n - 65536) mod 1024"
  have n: "65536 + (?h - 0xD800) * 1024 + (?l - 0xDC00) = n"
    using assms(1) div_mult_mod_eq [of "n - 65536" 1024] by simp
  have "is_high ?h" "?h < 65536" "is_low ?l" "?l < 65536"
    using assms by (auto simp: is_high_def is_low_def)
  moreover have "drop 10 (hex4 ?h @ bslash # CHR ''u'' # hex4 ?l @ s) = s"
    by (simp add: hex4_def)
  ultimately show ?thesis using n by (simp add: scan_escape_def read_hex4_hex4)
qed

lemma scan_string_escape:
  assumes "is_scalar n"
  shows "scan_string acc (escape_cp n @ s) = scan_string (acc @ utf8_enc n) s"
proof -
  consider (simple) "n \<in> {34, 92, 10, 13, 9, 12, 8}"
    | (plain) "n \<notin> {34, 92, 10, 13, 9, 12, 8}" "32 \<le> n" "n \<le> 126"
    | (bmp) "n \<notin> {34, 92, 10, 13, 9, 12, 8}" "\<not> (32 \<le> n \<and> n \<le> 126)" "n < 65536"
    | (astral) "65536 \<le> n" by force
  then show ?thesis
  proof cases
    case simple
    moreover have "dquote \<noteq> CHR ''u''" "bslash \<noteq> CHR ''u''" by (simp_all add: dquote_def bslash_def)
    ultimately show ?thesis
      by (elim insertE)
         (simp_all add: escape_cp_def scan_escape_simple simple_escapes utf8_enc_def,
          simp_all add: dquote_def bslash_def char_of_escapes)
  next
    case plain
    then have "(char_of n :: char) \<noteq> dquote" "(char_of n :: char) \<noteq> bslash"
      by (auto dest!: arg_cong [of _ _ code])
    with plain show ?thesis by (simp add: escape_cp_def scan_string.simps utf8_enc_def)
  next
    case bmp
    with assms have "\<not> is_high n" by (auto simp: is_high_def is_scalar_def)
    with bmp show ?thesis by (auto simp: escape_cp_def scan_escape_u)
  next
    case astral
    with assms show ?thesis
      by (simp add: escape_cp_def scan_escape_pair is_scalar_def)
  qed
qed

lemma scan_string_escapes:
  "list_all is_scalar ns \<Longrightarrow>
    scan_string acc (concat (map escape_cp ns) @ dquote # s) = Inr (acc @ concat (map utf8_enc ns), s)"
proof (induction ns arbitrary: acc)
  case Nil
  then show ?case by (simp add: scan_string.simps)
next
  case (Cons n ns)
  then show ?case by (simp add: scan_string_escape)
qed

lemma scan_json_str:
  assumes "utf8_ok s"
  shows "scan_string [] (tl (json_str s) @ r) = Inr (s, r)"
  using assms scan_string_escapes [of "utf8_dec s" "[]" r]
  by (simp add: json_str_def utf8_ok_def)

section \<open>Numbers\<close>

text \<open>What may follow a number: the end of the text or a character that cannot extend it.\<close>

definition delim :: "string \<Rightarrow> bool" where
  "delim r \<longleftrightarrow> (case r of [] \<Rightarrow> True | c # _ \<Rightarrow> 
     \<not> is_digit c \<and> c \<notin> {CHR ''.'', CHR ''e'', CHR ''E'', CHR ''+'', CHR ''-''})"

lemma split_digits_append:
  "delim r \<Longrightarrow> split_digits (s @ r) = (fst (split_digits s), snd (split_digits s) @ r)"
  by (induction s) (auto simp: split_digits_def delim_def split: list.splits)

lemma scan_frac_append:
  "delim r \<Longrightarrow> scan_frac (s @ r) = (fst (scan_frac s), snd (scan_frac s) @ r)"
  by (cases s) (auto simp: scan_frac_def split_digits_append, auto simp: delim_def split: list.splits)

lemma scan_sign_append:
  "delim r \<Longrightarrow> scan_sign (s @ r) = (fst (scan_sign s), snd (scan_sign s) @ r)"
  by (auto simp: scan_sign_def delim_def split: list.splits)

lemma scan_exp_append:
  "delim r \<Longrightarrow> scan_exp (s @ r) = (fst (scan_exp s), snd (scan_exp s) @ r)"
  by (cases s) (simp_all add: scan_exp_def scan_sign_append split_digits_append,
      simp add: delim_def split: list.splits)

lemma scan_unsigned_append:
  assumes "delim r" and "scan_unsigned neg t = Inr (v, u)"
  shows "scan_unsigned neg (t @ r) = Inr (v, u @ r)"
proof -
  define ds where "ds = fst (split_digits t)"
  define ip where "ip = (if hd ds = CHR ''0'' then [CHR ''0''] else ds)"
  have ne: "ds \<noteq> []" using assms(2) by (auto simp: scan_unsigned_def Let_def ds_def jerr_def)
  have ds': "fst (split_digits (t @ r)) = ds" using assms(1) by (simp add: split_digits_append ds_def)
  have "length ip \<le> length t"
    using ne by (cases t) (auto simp: ip_def ds_def split_digits_def length_takeWhile_le le_SucI)
  then have "drop (length ip) (t @ r) = drop (length ip) t @ r" by simp
  then show ?thesis
    using assms(2) ne unfolding scan_unsigned_def Let_def ds'
    unfolding ds_def [symmetric] ip_def [symmetric]
    by (auto simp: scan_frac_append [OF assms(1)] scan_exp_append [OF assms(1)])
qed

lemma scan_number_append:
  assumes "delim r" and "scan_number s = Inr (v, u)"
  shows "scan_number (s @ r) = Inr (v, u @ r)"
proof -
  have "s \<noteq> []" using scan_number_shrinks [OF assms(2)] by auto
  with assms show ?thesis by (auto simp: scan_number_def scan_unsigned_append split: if_splits)
qed

text \<open>The decimal text of a natural number starts with a zero only for zero.\<close>

lemma hd_show_nat: "hd (show_nat n) = CHR ''0'' \<Longrightarrow> n = 0"
proof (induction n rule: show_nat.induct)
  case (1 n)
  show ?case
  proof (cases "n < 10")
    case True
    with "1.prems" have "(char_of (48 + n) :: char) = CHR ''0''" by (simp add: show_nat.simps [of n])
    from arg_cong [OF this, of code] True show ?thesis by (simp add: code_def)
  next
    case False
    with "1.prems" have "hd (show_nat (n div 10)) = CHR ''0''" by (simp add: show_nat.simps [of n])
    with 1 False show ?thesis by auto
  qed
qed

lemma split_digits_show_nat: "split_digits (show_nat n) = (show_nat n, [])"
proof -
  have "takeWhile is_digit (show_nat n) = show_nat n" "dropWhile is_digit (show_nat n) = []"
    using show_nat_digits [of _ n] by (auto simp: takeWhile_eq_all_conv dropWhile_eq_Nil_conv)
  then show ?thesis by (simp add: split_digits_def)
qed

lemma scan_number_show_nat:
  assumes "length (show_nat n) \<le> 4300"
  shows "scan_number (show_nat n) = Inr (PInt (int n), [])"
    and "scan_number (CHR ''-'' # show_nat n) = Inr (PInt (- int n), [])"
proof -
  let ?ip = "if hd (show_nat n) = CHR ''0'' then [CHR ''0''] else show_nat n"
  have "show_nat 0 = [CHR ''0'']" by code_simp
  then have "?ip = show_nat n" using hd_show_nat [of n] by auto
  then show "scan_number (show_nat n) = Inr (PInt (int n), [])"
    "scan_number (CHR ''-'' # show_nat n) = Inr (PInt (- int n), [])"
    using assms show_nat_no_minus [of n]
    by (simp_all add: scan_number_def scan_unsigned_def number_of_parts_def Let_def
        split_digits_show_nat scan_frac_def scan_exp_def)
qed

lemma scan_number_show_int:
  "length (show_int i) \<le> 4300 \<Longrightarrow> scan_number (show_int i) = Inr (PInt i, [])"
  by (cases "i < 0") (simp_all add: show_int_def scan_number_show_nat)

section \<open>Values\<close>

text \<open>The text of a float: printed and read back as itself.\<close>

definition float_ok :: "string \<Rightarrow> bool" where
  "float_ok t \<longleftrightarrow> t \<in> {''nan'', ''inf'', ''-inf''} \<or> scan_number t = Inr (PFloat t, [])"

primrec json_ok :: "pyval \<Rightarrow> bool" where
  "json_ok PNone = True"
| "json_ok (PBool b) = True"
| "json_ok (PInt i) = (length (show_int i) \<le> 4300)"
| "json_ok (PFloat t) = float_ok t"
| "json_ok (PStr s) = utf8_ok s"
| "json_ok (PList xs) = list_all id (map json_ok xs)"
| "json_ok (PDict d) =
     (distinct (map fst d) \<and> list_all (\<lambda>(k, b). utf8_ok k \<and> b) (map (map_prod id json_ok) d))"
| "json_ok (PDatetime t) = False"

text \<open>What \<open>json.dumps\<close> prints, as a value: with \<open>sort_keys\<close> the dictionaries are sorted.\<close>

definition order_items :: "json_opts \<Rightarrow> (string \<times> 'a) list \<Rightarrow> (string \<times> 'a) list" where
  "order_items opts d = (if sort_keys opts then sort_key fst d else d)"

primrec norm :: "json_opts \<Rightarrow> pyval \<Rightarrow> pyval" where
  "norm opts PNone = PNone"
| "norm opts (PBool b) = PBool b"
| "norm opts (PInt i) = PInt i"
| "norm opts (PFloat t) = PFloat t"
| "norm opts (PStr s) = PStr s"
| "norm opts (PList xs) = PList (map (norm opts) xs)"
| "norm opts (PDict d) = PDict (order_items opts (map (map_prod id (norm opts)) d))"
| "norm opts (PDatetime t) = PDatetime t"

text \<open>Separators: the token followed by blanks only.\<close>

definition opts_ok :: "json_opts \<Rightarrow> bool" where
  "opts_ok opts \<longleftrightarrow>
     item_sep opts \<noteq> [] \<and> hd (item_sep opts) = CHR '','' \<and> list_all is_ws (tl (item_sep opts)) \<and>
     key_sep opts \<noteq> [] \<and> hd (key_sep opts) = CHR '':'' \<and> list_all is_ws (tl (key_sep opts))"

lemma opts_okE:
  assumes "opts_ok opts"
  obtains w w' where "item_sep opts = CHR '','' # w" "list_all is_ws w"
    "key_sep opts = CHR '':'' # w'" "list_all is_ws w'"
  using assms by (cases "item_sep opts"; cases "key_sep opts") (auto simp: opts_ok_def)

lemma skip_ws_blank: "list_all is_ws w \<Longrightarrow> skip_ws (w @ s) = skip_ws s"
  by (induction w) (auto simp: skip_ws_def)

text \<open>Where a printed value starts: not with a blank and not with a closing bracket.\<close>

definition good_start :: "string \<Rightarrow> bool" where
  "good_start t \<longleftrightarrow> t \<noteq> [] \<and> \<not> is_ws (hd t) \<and> hd t \<notin> {CHR '']'', CHR ''}''}"

lemma good_start_skip: "good_start t \<Longrightarrow> skip_ws (t @ s) = t @ s"
  by (cases t) (auto simp: good_start_def skip_ws_def)

lemma good_start_not_Nil: "good_start t \<Longrightarrow> t \<noteq> []"
  by (simp add: good_start_def)

lemma sequence_Inr: "sequence rs = Inr xs \<longleftrightarrow> rs = map Inr xs"
  by (induction rs arbitrary: xs) (auto simp: Cons_eq_map_conv)

text \<open>One element is read back from any text it is printed into.\<close>

definition reads :: "string \<Rightarrow> pyval \<Rightarrow> bool" where
  "reads t v \<longleftrightarrow> good_start t \<and>
     (\<forall>n r. delim r \<longrightarrow> 2 * length t \<le> n \<longrightarrow> parse_value n (t @ r) = Inr (v, r))"

lemma readsD: "reads t v \<Longrightarrow> delim r \<Longrightarrow> 2 * length t \<le> n \<Longrightarrow> parse_value n (t @ r) = Inr (v, r)"
  by (simp add: reads_def)

lemma delim_tokens: "delim (CHR '','' # s)" "delim (CHR '']'' # s)" "delim (CHR ''}'' # s)"
  by (simp_all add: delim_def is_digit_def code_def)

lemma skip_tokens:
  "skip_ws (CHR '','' # s) = CHR '','' # s" "skip_ws (CHR '']'' # s) = CHR '']'' # s"
  "skip_ws (CHR ''}'' # s) = CHR ''}'' # s" "skip_ws (CHR '':'' # s) = CHR '':'' # s"
  by (simp_all add: skip_ws_def is_ws_def code_def)

lemma parse_elems_join:
  assumes "list_all2 reads ts vs" and "ts \<noteq> []" and "isep = CHR '','' # w" and "list_all is_ws w"
    and "2 * length (join isep ts) + 1 \<le> n"
  shows "parse_elems n acc (join isep ts @ CHR '']'' # r) = Inr (acc @ vs, r)"
  using assms(1,2,5)
proof (induction ts vs arbitrary: n acc rule: list_all2_induct)
  case (Cons t ts v vs)
  then obtain m where n: "n = Suc m" by (cases n) auto
  show ?case
  proof (cases "ts = []")
    case True
    with Cons n have "parse_value m (t @ CHR '']'' # r) = Inr (v, CHR '']'' # r)"
      by (intro readsD delim_tokens) auto
    with True Cons n show ?thesis by (simp add: skip_tokens)
  next
    case False
    let ?rest = "CHR '','' # w @ join isep ts @ CHR '']'' # r"
    have t: "t \<noteq> []" using Cons.hyps by (auto simp: reads_def good_start_def)
    have len: "2 * length t + 2 + 2 * length (join isep ts) + 1 \<le> n"
      using Cons.prems(2) False assms(3) by (simp add: join_Cons)
    have "parse_value m (t @ ?rest) = Inr (v, ?rest)"
      using Cons.hyps(1) len n by (intro readsD delim_tokens) auto
    moreover obtain t' ts' where ts: "ts = t' # ts'" using False by (cases ts) auto
    with Cons.hyps have "good_start t'" by (auto simp: reads_def list_all2_Cons1)
    then have "good_start (join isep ts)"
      using ts by (cases ts') (auto simp: good_start_def)
    then have "skip_ws (w @ join isep ts @ CHR '']'' # r) = join isep ts @ CHR '']'' # r"
      by (simp add: skip_ws_blank [OF assms(4)] good_start_skip)
    moreover have "parse_elems m (acc @ [v]) (join isep ts @ CHR '']'' # r) = Inr (acc @ [v] @ vs, r)"
      using Cons.IH [OF False, of m "acc @ [v]"] len n t by (cases t) auto
    ultimately show ?thesis
      using False n assms(3) by (simp add: join_Cons skip_tokens)
  qed
qed simp

definition member_text :: "json_opts \<Rightarrow> string \<times> string \<Rightarrow> string" where
  "member_text opts kt = json_str (fst kt) @ key_sep opts @ snd kt"

definition reads_member :: "string \<times> string \<Rightarrow> string \<times> pyval \<Rightarrow> bool" where
  "reads_member kt kv \<longleftrightarrow> fst kt = fst kv \<and> utf8_ok (fst kt) \<and> reads (snd kt) (snd kv)"

lemma json_str_Cons: "json_str s = dquote # tl (json_str s)"
  by (simp add: json_str_def)

lemma member_text_good_start: "good_start (member_text opts kt)"
  by (simp add: member_text_def json_str_def good_start_def is_ws_def, simp add: dquote_def)

text \<open>One member, up to the token that follows it.\<close>

lemma parse_member:
  assumes "reads_member (k, t) (k, v)" and "opts_ok opts" and "delim r"
    and "2 * length (member_text opts (k, t)) \<le> n" and "skip_ws r = d # u"
  shows "parse_members (Suc n) acc (member_text opts (k, t) @ r) =
    (if d = CHR ''}'' then Inr (dict_set k v acc, u)
     else if d = CHR '','' then parse_members n (dict_set k v acc) (skip_ws u)
     else jerr ''Expecting comma delimiter'')"
proof -
  from assms(2) obtain w where ks: "key_sep opts = CHR '':'' # w" and w: "list_all is_ws w"
    by (rule opts_okE)
  have t: "good_start t" and k: "utf8_ok k" using assms(1) by (auto simp: reads_member_def reads_def)
  have "parse_value n (t @ r) = Inr (v, r)"
    using assms(1,3,4) by (intro readsD) (auto simp: reads_member_def member_text_def)
  moreover have "skip_ws (w @ t @ r) = t @ r"
    by (simp add: skip_ws_blank [OF w] good_start_skip [OF t])
  moreover have "member_text opts (k, t) @ r = dquote # tl (json_str k) @ CHR '':'' # w @ t @ r"
    using json_str_Cons [of k] by (simp add: member_text_def ks)
  ultimately show ?thesis
    by (simp add: scan_json_str [OF k] skip_tokens assms(5))
qed

lemma parse_members_join:
  assumes "list_all2 reads_member kts kvs" and "kts \<noteq> []" and "opts_ok opts"
    and "distinct (map fst acc @ map fst kvs)"
    and "2 * length (join (item_sep opts) (map (member_text opts) kts)) + 1 \<le> n"
  shows "parse_members n acc (join (item_sep opts) (map (member_text opts) kts) @ CHR ''}'' # r)
    = Inr (acc @ kvs, r)"
  using assms(1,2,4,5)
proof (induction kts kvs arbitrary: n acc rule: list_all2_induct)
  case (Cons kt kts kv kvs)
  from assms(3) obtain w where isep: "item_sep opts = CHR '','' # w" and w: "list_all is_ws w"
    by (rule opts_okE)
  obtain k t v where kt: "kt = (k, t)" and kv: "kv = (k, v)" and rm: "reads_member (k, t) (k, v)"
    using Cons.hyps(1) by (cases kt; cases kv) (auto simp: reads_member_def)
  obtain m where n: "n = Suc m" using Cons.prems(3) by (cases n) auto
  have fresh: "dict_set k v acc = acc @ [(k, v)]"
    using Cons.prems(2) kv by (intro dict_set_fresh) auto
  show ?case
  proof (cases "kts = []")
    case True
    with Cons.prems(3) n kt have "2 * length (member_text opts (k, t)) \<le> m" by simp
    from parse_member [OF rm assms(3) delim_tokens(3) this, of r "CHR ''}''" r acc]
    show ?thesis using True Cons n kt kv fresh by (simp add: skip_tokens)
  next
    case False
    let ?tl = "join (item_sep opts) (map (member_text opts) kts) @ CHR ''}'' # r"
    have len: "2 * length (member_text opts kt) + 2
        + 2 * length (join (item_sep opts) (map (member_text opts) kts)) + 1 \<le> n"
      using Cons.prems(3) False isep by (simp add: join_Cons)
    obtain kt' kts' where "kts = kt' # kts'" using False by (cases kts) auto
    then have "good_start (join (item_sep opts) (map (member_text opts) kts))"
      using member_text_good_start [of opts kt'] by (cases kts') (auto simp: good_start_def)
    then have skip: "skip_ws (w @ ?tl) = ?tl"
      by (simp add: skip_ws_blank [OF w] good_start_skip)
    have "parse_members m (acc @ [(k, v)]) ?tl = Inr ((acc @ [(k, v)]) @ kvs, r)"
      using Cons.prems(2) len n kv by (intro Cons.IH False) auto
    moreover from len n kt have "2 * length (member_text opts (k, t)) \<le> m" by simp
    then have "parse_members (Suc m) acc (member_text opts (k, t) @ CHR '','' # w @ ?tl) =
        parse_members m (dict_set k v acc) (skip_ws (w @ ?tl))"
      by (subst parse_member [OF rm assms(3) delim_tokens(1) _ skip_tokens(1)]) auto
    ultimately show ?thesis
      using False n kt kv fresh isep skip by (simp add: join_Cons)
  qed
qed simp

lemma insort_key_map_prod:
  "insort_key fst (map_prod id f x) (map (map_prod id f) xs) = map (map_prod id f) (insort_key fst x xs)"
  by (induction xs) auto

lemma sort_key_map_prod: "sort_key fst (map (map_prod id f) d) = map (map_prod id f) (sort_key fst d)"
  by (induction d) (simp_all only: list.map sort_key_simps insort_key_map_prod)

lemma order_items_map_prod:
  "order_items opts (map (map_prod id f) d) = map (map_prod id f) (order_items opts d)"
  by (simp add: order_items_def sort_key_map_prod)

lemma set_order_items [simp]: "set (order_items opts d) = set d"
  by (simp add: order_items_def)

lemma distinct_order_items: "distinct (map fst d) \<Longrightarrow> distinct (map fst (order_items opts d))"
  by (simp add: order_items_def distinct_map)

definition member_res :: "json_opts \<Rightarrow> (pyval \<Rightarrow> string res) \<Rightarrow> string \<times> pyval \<Rightarrow> string res" where
  "member_res opts f kx = bind_res (f (snd kx)) (\<lambda>t. Inr (member_text opts (fst kx, t)))"

lemma json_dumps_PDict:
  "json_dumps opts (PDict d) =
     bind_res (sequence (map (member_res opts (json_dumps opts)) (order_items opts d)))
       (\<lambda>ts. Inr (''{'' @ join (item_sep opts) ts @ ''}''))"
proof -
  have "(if sort_keys opts then sort_key fst (map (map_prod id (json_dumps opts)) d)
      else map (map_prod id (json_dumps opts)) d) =
      map (map_prod id (json_dumps opts)) (order_items opts d)"
    by (cases "sort_keys opts") (simp_all only: order_items_def sort_key_map_prod if_True if_False)
  moreover have "map (\<lambda>(k, r). bind_res r (\<lambda>t. Inr (json_str k @ key_sep opts @ t)))
      (map (map_prod id (json_dumps opts)) xs) = map (member_res opts (json_dumps opts)) xs" for xs
    by (auto simp: member_res_def member_text_def)
  ultimately show ?thesis by (simp only: json_dumps.simps Let_def)
qed

lemma json_ok_PDict:
  "json_ok (PDict d) \<longleftrightarrow> distinct (map fst d) \<and> (\<forall>kx \<in> set d. utf8_ok (fst kx) \<and> json_ok (snd kx))"
  by (auto simp: list_all_iff)

lemma reads_atom:
  assumes "good_start t" and "hd t \<notin> {dquote, CHR ''{'', CHR ''[''}"
    and "\<And>r. delim r \<Longrightarrow> scan_atom (t @ r) = Inr (v, r)"
  shows "reads t v"
  unfolding reads_def
proof (intro conjI allI impI)
  fix n r assume r: "delim r" and n: "2 * length t \<le> n"
  from assms(1) obtain c cs where t: "t = c # cs" by (cases t) (auto simp: good_start_def)
  with n obtain m where "n = Suc m" by (cases n) auto
  with t assms(2) assms(3) [OF r] show "parse_value n (t @ r) = Inr (v, r)" by simp
qed (rule assms(1))

lemma is_digit_chars:
  "is_digit c \<Longrightarrow> \<not> is_ws c \<and> c \<noteq> dquote \<and>
    c \<notin> {CHR ''['', CHR '']'', CHR ''{'', CHR ''}'', CHR ''-'', CHR ''n'', CHR ''t'', CHR ''f'', CHR ''N'', CHR ''I''}"
  by (auto simp: is_digit_def is_ws_def code_def dquote_def)

lemma scan_atom_number:
  assumes "scan_number t = Inr (v, [])"
  shows "t \<noteq> []" and "is_digit (hd t) \<or> hd t = CHR ''-'' \<and> tl t \<noteq> [] \<and> is_digit (hd (tl t))"
proof -
  show ne: "t \<noteq> []" using scan_number_shrinks [OF assms] by auto
  have "u \<noteq> [] \<and> is_digit (hd u)" if "scan_unsigned neg u = Inr x" for neg u x
    using that by (cases u) (auto simp: scan_unsigned_def Let_def split_digits_def jerr_def split: if_splits)
  with ne assms show "is_digit (hd t) \<or> hd t = CHR ''-'' \<and> tl t \<noteq> [] \<and> is_digit (hd (tl t))"
    by (auto simp: scan_number_def split: if_splits)
qed

lemma reads_number:
  assumes "scan_number t = Inr (v, [])"
  shows "reads t v"
proof (rule reads_atom)
  note t = scan_atom_number [OF assms]
  show "good_start t" "hd t \<notin> {dquote, CHR ''{'', CHR ''[''}"
    using t is_digit_chars [of "hd t"] by (auto simp: good_start_def is_ws_def code_def dquote_def)
  fix r assume r: "delim r"
  obtain c cs where tc: "t = c # cs" using t(1) by (cases t) auto
  consider "is_digit c" | "c = CHR ''-''" "cs \<noteq> []" "is_digit (hd cs)" using t(2) tc by auto
  then have "\<forall>p \<in> {''null'', ''true'', ''false'', ''NaN'', ''Infinity'', ''-Infinity''}. \<not> startswith (t @ r) p"
  proof cases
    case 1
    then show ?thesis using is_digit_chars [of c] by (auto simp: tc startswith_def)
  next
    case 2
    then show ?thesis using is_digit_chars [of "hd cs"] by (cases cs) (auto simp: tc startswith_def)
  qed
  then show "scan_atom (t @ r) = Inr (v, r)"
    using scan_number_append [OF r assms] by (simp add: scan_atom_def)
qed

lemma reads_literal:
  assumes "t \<in> {''null'', ''true'', ''false'', ''NaN'', ''Infinity'', ''-Infinity''}"
    and "scan_atom t = Inr (v, [])"
  shows "reads t v"
proof (rule reads_atom)
  show "good_start t" "hd t \<notin> {dquote, CHR ''{'', CHR ''[''}"
    using assms(1) by (auto simp: good_start_def is_ws_def code_def dquote_def)
  show "scan_atom (t @ r) = Inr (v, r)" for r
    using assms by (elim insertE) (simp_all add: scan_atom_def startswith_def)
qed

lemma scan_atom_literals:
  "scan_atom ''null'' = Inr (PNone, [])" "scan_atom ''true'' = Inr (PBool True, [])"
  "scan_atom ''false'' = Inr (PBool False, [])" "scan_atom ''NaN'' = Inr (PFloat ''nan'', [])"
  "scan_atom ''Infinity'' = Inr (PFloat ''inf'', [])"
  "scan_atom ''-Infinity'' = Inr (PFloat ''-inf'', [])"
  by (simp_all add: scan_atom_def startswith_def)

lemmas reads_literals = scan_atom_literals [THEN reads_literal [rotated], simplified]

lemma reads_float:
  assumes "float_ok t"
  shows "reads (float_text t) (PFloat t)"
proof (cases "t \<in> {''nan'', ''inf'', ''-inf''}")
  case True
  then show ?thesis by (elim insertE) (simp_all add: float_text_def reads_literals)
next
  case False
  with assms have "scan_number t = Inr (PFloat t, [])" by (simp add: float_ok_def)
  with False show ?thesis by (simp add: float_text_def reads_number)
qed

lemma reads_int: "length (show_int i) \<le> 4300 \<Longrightarrow> reads (show_int i) (PInt i)"
  by (intro reads_number scan_number_show_int)

lemma reads_str:
  assumes "utf8_ok s"
  shows "reads (json_str s) (PStr s)"
  unfolding reads_def
proof (intro conjI allI impI)
  show "good_start (json_str s)"
    by (simp add: json_str_def good_start_def is_ws_def, simp add: dquote_def)
  fix n r assume "2 * length (json_str s) \<le> n"
  then obtain m where n: "n = Suc m" by (cases n) (auto simp: json_str_def)
  have "json_str s @ r = dquote # (tl (json_str s) @ r)"
    using json_str_Cons [of s] by (metis append_Cons)
  then show "parse_value n (json_str s @ r) = Inr (PStr s, r)"
    by (simp only: n parse_value.simps list.case scan_json_str [OF assms] bind_res.simps prod.case if_True simp_thms)
qed

lemma reads_list:
  assumes "list_all2 reads ts vs" and "opts_ok opts"
  shows "reads (''['' @ join (item_sep opts) ts @ '']'') (PList vs)"
  unfolding reads_def
proof (intro conjI allI impI)
  show "good_start (''['' @ join (item_sep opts) ts @ '']'')"
    by (simp add: good_start_def is_ws_def code_def)
  from assms(2) obtain w where isep: "item_sep opts = CHR '','' # w" and w: "list_all is_ws w"
    by (rule opts_okE)
  fix n r assume "2 * length (''['' @ join (item_sep opts) ts @ '']'') \<le> n"
  then obtain m where n: "n = Suc m" and m: "2 * length (join (item_sep opts) ts) + 1 \<le> m"
    by (cases n) auto
  show "parse_value n ((''['' @ join (item_sep opts) ts @ '']'') @ r) = Inr (PList vs, r)"
  proof (cases ts)
    case Nil
    with assms(1) show ?thesis by (simp add: n skip_tokens dquote_def)
  next
    case (Cons t us)
    with assms(1) have t: "good_start t" by (auto simp: list_all2_Cons1 reads_def)
    then obtain c cs where c: "join (item_sep opts) ts @ CHR '']'' # r = c # cs" "c \<noteq> CHR '']''"
      and gs: "good_start (join (item_sep opts) ts)"
      using Cons by (cases us; cases t) (auto simp: good_start_def)
    have "parse_elems m [] (c # cs) = Inr (vs, r)"
      using parse_elems_join [OF assms(1) _ isep w m, of "[]" r] Cons c by simp
    moreover have "skip_ws (c # cs) = c # cs"
      using good_start_skip [OF gs, of "CHR '']'' # r"] c by simp
    ultimately show ?thesis using c by (simp add: n dquote_def)
  qed
qed

lemma reads_dict:
  assumes "list_all2 reads_member kts kvs" and "opts_ok opts" and "distinct (map fst kvs)"
  shows "reads (''{'' @ join (item_sep opts) (map (member_text opts) kts) @ ''}'') (PDict kvs)"
  unfolding reads_def
proof (intro conjI allI impI)
  let ?j = "join (item_sep opts) (map (member_text opts) kts)"
  show "good_start (''{'' @ ?j @ ''}'')" by (simp add: good_start_def is_ws_def code_def)
  fix n r assume "2 * length (''{'' @ ?j @ ''}'') \<le> n"
  then obtain m where n: "n = Suc m" and m: "2 * length ?j + 1 \<le> m" by (cases n) auto
  show "parse_value n ((''{'' @ ?j @ ''}'') @ r) = Inr (PDict kvs, r)"
  proof (cases kts)
    case Nil
    with assms(1) show ?thesis by (simp add: n skip_tokens dquote_def)
  next
    case (Cons kt us)
    have "good_start (member_text opts kt)" by (rule member_text_good_start)
    then obtain c cs where c: "?j @ CHR ''}'' # r = c # cs" "c \<noteq> CHR ''}''" and gs: "good_start ?j"
      using Cons by (cases us; cases "member_text opts kt") (auto simp: good_start_def)
    have "parse_members m [] (c # cs) = Inr (kvs, r)"
      using parse_members_join [OF assms(1) _ assms(2) _ m, of "[]" r] assms(3) Cons c by simp
    moreover have "skip_ws (c # cs) = c # cs"
      using good_start_skip [OF gs, of "CHR ''}'' # r"] c by simp
    ultimately show ?thesis using c by (simp add: n dquote_def)
  qed
qed

lemma sequence_map: "sequence (map f xs) = Inr ts \<Longrightarrow> list_all2 (\<lambda>x u. f x = Inr u) xs ts"
  by (induction xs arbitrary: ts) auto

lemma sequence_members:
  "sequence (map (member_res opts f) d) = Inr ts
    \<Longrightarrow> \<exists>kts. ts = map (member_text opts) kts \<and>
        list_all2 (\<lambda>kx ku. fst ku = fst kx \<and> f (snd kx) = Inr (snd ku)) d kts"
proof (induction d arbitrary: ts)
  case (Cons kx d)
  from Cons.prems obtain t us where t: "member_res opts f kx = Inr t" and ts: "ts = t # us"
    and us: "sequence (map (member_res opts f) d) = Inr us" by auto
  from t obtain u where u: "f (snd kx) = Inr u" and tu: "t = member_text opts (fst kx, u)"
    by (auto simp: member_res_def)
  from Cons.IH [OF us] obtain kts where "us = map (member_text opts) kts"
    "list_all2 (\<lambda>kx ku. fst ku = fst kx \<and> f (snd kx) = Inr (snd ku)) d kts" by blast
  with u ts tu show ?case by (intro exI [of _ "(fst kx, u) # kts"]) simp
qed simp

text \<open>Every printed value is read back as its normal form.\<close>

lemma json_dumps_reads:
  assumes "opts_ok opts"
  shows "json_ok v \<Longrightarrow> json_dumps opts v = Inr t \<Longrightarrow> reads t (norm opts v)"
proof (induction v arbitrary: t)
  case (PList xs)
  then obtain ts where ts: "list_all2 (\<lambda>x u. json_dumps opts x = Inr u) xs ts"
    and t: "t = ''['' @ join (item_sep opts) ts @ '']''"
    by (auto dest: sequence_map)
  have "list_all2 reads ts (map (norm opts) xs)"
    using ts PList.IH PList.prems(1) by (auto simp: list_all2_conv_all_nth list_all_iff)
  then show ?case using t reads_list [OF _ assms] by simp
next
  case (PDict d)
  let ?d = "order_items opts d"
  from PDict.prems(2) obtain ts where ts: "sequence (map (member_res opts (json_dumps opts)) ?d) = Inr ts"
    and t: "t = ''{'' @ join (item_sep opts) ts @ ''}''"
    unfolding json_dumps_PDict by auto
  from sequence_members [OF ts] obtain kts where kts: "ts = map (member_text opts) kts"
    and all: "list_all2 (\<lambda>kx ku. fst ku = fst kx \<and> json_dumps opts (snd kx) = Inr (snd ku)) ?d kts"
    by blast
  have ok: "utf8_ok (fst kx) \<and> json_ok (snd kx)" if "kx \<in> set d" for kx
    using that PDict.prems(1) unfolding json_ok_PDict by blast
  have IH: "reads u (norm opts (snd kx))" if "kx \<in> set d" "json_dumps opts (snd kx) = Inr u" for kx u
    using that ok [OF that(1)] by (intro PDict.IH [OF that(1)]) (auto simp: snds.simps)
  have "list_all2 reads_member kts (map (map_prod id (norm opts)) ?d)"
    unfolding list_all2_conv_all_nth
  proof (intro conjI allI impI)
    show len: "length kts = length (map (map_prod id (norm opts)) ?d)"
      using list_all2_lengthD [OF all] by simp
    fix i assume i: "i < length kts"
    with len have "?d ! i \<in> set d" using nth_mem [of i ?d] by simp
    moreover have "fst (kts ! i) = fst (?d ! i)" "json_dumps opts (snd (?d ! i)) = Inr (snd (kts ! i))"
      using list_all2_nthD2 [OF all i] by auto
    ultimately show "reads_member (kts ! i) (map (map_prod id (norm opts)) ?d ! i)"
      using ok IH i len by (simp add: reads_member_def)
  qed
  moreover have "distinct (map fst (map (map_prod id (norm opts)) ?d))"
    using PDict.prems(1) distinct_order_items [of d opts] by simp
  ultimately show ?case
    using t kts reads_dict [OF _ assms] by (simp add: order_items_map_prod)
qed (auto simp: reads_float reads_int reads_str reads_literals)

lemma json_loads_dumps:
  assumes "opts_ok opts" and "json_ok v" and "json_dumps opts v = Inr t"
  shows "json_loads (Some t) = Inr (norm opts v)"
proof -
  have r: "reads t (norm opts v)" by (rule json_dumps_reads [OF assms])
  then have "skip_ws t = t" using good_start_skip [of t "[]"] by (simp add: reads_def)
  moreover have "parse_value (2 * length t + 1) t = Inr (norm opts v, [])"
    using readsD [OF r, of "[]" "2 * length t + 1"] by (simp add: delim_def)
  ultimately show ?thesis by (simp add: json_loads_def skip_ws_def)
qed

text \<open>A value the encoder accepts: \<^const>\<open>json_ok\<close> values are always printed.\<close>

lemma json_dumps_ok: "json_ok v \<Longrightarrow> \<exists>t. json_dumps opts v = Inr t"
proof (induction v)
  case (PList xs)
  then have "\<forall>x \<in> set xs. \<exists>t. json_dumps opts x = Inr t" by (auto simp: list_all_iff)
  then have "\<exists>ts. sequence (map (json_dumps opts) xs) = Inr ts" by (induction xs) auto
  then show ?case by auto
next
  case (PDict d)
  then have "\<forall>kx \<in> set d. \<exists>t. json_dumps opts (snd kx) = Inr t"
    unfolding json_ok_PDict by (metis snds.intros)
  moreover have "\<forall>kx \<in> set xs. \<exists>t. json_dumps opts (snd kx) = Inr t \<Longrightarrow>
      \<exists>ts. sequence (map (member_res opts (json_dumps opts)) xs) = Inr ts" for xs
    by (induction xs) (auto simp: member_res_def)
  ultimately show ?case unfolding json_dumps_PDict by fastforce
qed auto

end
