(* ===== verification/Json_Canonical.thy ===== *)
theory Json_Canonical
  imports Json_Roundtrip "HOL-Library.Multiset"
begin

text \<open>
  Facts about \<open>json.dumps(..., sort_keys=True)\<close> as a canonical form: it does not
  depend on the order of the items of a dictionary, at any depth, and it is
  one line of text.
\<close>

section \<open>Reordering the items of dictionaries\<close>

inductive reordered :: "pyval \<Rightarrow> pyval \<Rightarrow> bool" where
  refl: "reordered v v"
| lists: "list_all2 reordered xs ys \<Longrightarrow> reordered (PList xs) (PList ys)"
| dicts: "list_all2 (\<lambda>a b. fst a = fst b \<and> reordered (snd a) (snd b)) d e \<Longrightarrow> mset e = mset e' \<Longrightarrow>
    distinct (map fst d) \<Longrightarrow> reordered (PDict d) (PDict e')"

inductive_cases reordered_PDictE: "reordered (PDict d) w"

lemma sort_key_fst_unique:
  assumes "mset xs = mset ys" and "distinct (map fst xs)"
  shows "sort_key fst xs = sort_key fst ys"
proof (rule properties_for_sort_key)
  show "mset (sort_key fst ys) = mset xs" using assms(1) by simp
  show "sorted (map fst (sort_key fst ys))" by simp
  have set: "set xs = set ys" using assms(1) by (rule mset_eq_setD)
  have dist: "distinct (map fst ys)" using assms by (metis mset_eq_imp_distinct_iff mset_map)
  show "filter (\<lambda>x. fst k = fst x) (sort_key fst ys) = filter (\<lambda>x. fst k = fst x) xs"
    if k: "k \<in> set (sort_key fst ys)" for k
  proof -
    have one: "filter (\<lambda>x. fst k = fst x) zs = [k]" if "k \<in> set zs" "distinct (map fst zs)" for zs
      using that
    proof (induction zs)
      case (Cons z zs)
      show ?case
      proof (cases "fst k = fst z")
        case True
        have "k \<notin> set zs"
        proof
          assume "k \<in> set zs"
          then have "fst k \<in> set (map fst zs)" by simp
          with True Cons.prems(2) show False by simp
        qed
        with Cons.prems(1) have "z = k" by simp
        moreover have "filter (\<lambda>x. fst k = fst x) zs = []"
        proof -
          from Cons.prems(2) True have "fst k \<notin> fst ` set zs" by simp
          then show ?thesis unfolding filter_empty_conv by blast
        qed
        ultimately show ?thesis by simp
      qed (use Cons in auto)
    qed simp
    have "distinct (map fst (sort_key fst ys))" using dist by (simp add: distinct_map)
    with one [of "sort_key fst ys"] one [of xs] k set assms(2) show ?thesis by simp
  qed
qed

lemma sort_key_fst_list_all2:
  assumes "list_all2 (\<lambda>a b. fst a = fst b \<and> P (snd a) (snd b)) d e"
  shows "list_all2 (\<lambda>a b. fst a = fst b \<and> P (snd a) (snd b)) (sort_key fst d) (sort_key fst e)"
proof -
  let ?R = "\<lambda>a b. fst a = fst b \<and> P (snd a) (snd b)"
  have ins: "list_all2 ?R (insort_key fst x xs) (insort_key fst y ys)"
    if "?R x y" "list_all2 ?R xs ys" for x y xs ys
    using that(2,1) by (induction rule: list_all2_induct) auto
  show ?thesis using assms
  proof (induction rule: list_all2_induct)
    case (Cons x xs y ys)
    then show ?case unfolding sort_key_simps by (intro ins) simp_all
  qed simp
qed

lemma sequence_map_cong:
  "list_all2 (\<lambda>a b. f a = g b) xs ys \<Longrightarrow> sequence (map f xs) = sequence (map g ys)"
  by (induction rule: list_all2_induct) auto

lemma json_dumps_reordered:
  assumes "sort_keys opts"
  shows "reordered v w \<Longrightarrow> json_dumps opts v = json_dumps opts w"
proof (induction rule: reordered.induct)
  case (lists xs ys)
  then have "list_all2 (\<lambda>a b. json_dumps opts a = json_dumps opts b) xs ys"
    by (rule list_all2_mono) simp
  from sequence_map_cong [OF this] show ?case by simp
next
  case (dicts d e e')
  have "map fst d = map fst e"
    using dicts(1) by (induction rule: list_all2_induct) auto
  with dicts(3) have "distinct (map fst e)" by simp
  from sort_key_fst_unique [OF dicts(2) this] have "sort_key fst e' = sort_key fst e" by simp
  moreover have "list_all2 (\<lambda>a b. fst a = fst b \<and> json_dumps opts (snd a) = json_dumps opts (snd b)) d e"
    using dicts(1) by (rule list_all2_mono) simp
  from sort_key_fst_list_all2 [OF this]
  have "list_all2 (\<lambda>a b. member_res opts (json_dumps opts) a = member_res opts (json_dumps opts) b)
      (sort_key fst d) (sort_key fst e)"
    by (rule list_all2_mono) (simp add: member_res_def)
  from sequence_map_cong [OF this]
  have "sequence (map (member_res opts (json_dumps opts)) (sort_key fst d)) =
      sequence (map (member_res opts (json_dumps opts)) (sort_key fst e))" .
  ultimately show ?case using assms unfolding json_dumps_PDict by (simp add: order_items_def)
qed simp

lemma reordered_norm: "json_ok v \<Longrightarrow> reordered v (norm opts v)"
proof (induction v)
  case (PList xs)
  then have "list_all2 reordered xs (map (norm opts) xs)"
    by (auto simp: list_all2_conv_all_nth list_all_iff)
  then show ?case by (simp add: reordered.lists)
next
  case (PDict d)
  have "reordered (snd kx) (norm opts (snd kx))" if "kx \<in> set d" for kx
    using that PDict unfolding json_ok_PDict by (metis snds.intros)
  then have "list_all2 (\<lambda>a b. fst a = fst b \<and> reordered (snd a) (snd b)) d (map (map_prod id (norm opts)) d)"
    by (auto simp: list_all2_conv_all_nth)
  then show ?case unfolding norm.simps
    by (rule reordered.dicts) (use PDict.prems in \<open>auto simp: order_items_def json_ok_PDict simp del: map_map\<close>)
qed (auto intro: reordered.refl)

text \<open>Printing, reading back and printing in canonical form is printing in canonical form.\<close>

lemma json_dumps_canonical:
  assumes "sort_keys opts" and "reordered v w" and "opts_ok o'" and "json_ok w"
    and "json_dumps o' w = Inr t"
  obtains u where "json_loads (Some t) = Inr u" and "json_dumps opts u = json_dumps opts v"
proof -
  have "json_loads (Some t) = Inr (norm o' w)" by (rule json_loads_dumps [OF assms(3-5)])
  moreover have "json_dumps opts (norm o' w) = json_dumps opts v"
    using json_dumps_reordered [OF assms(1) reordered_norm [OF assms(4)]]
      json_dumps_reordered [OF assms(1,2)] by simp
  ultimately show ?thesis by (rule that)
qed

section \<open>One line of text\<close>

abbreviation no_nl :: "string \<Rightarrow> bool" where
  "no_nl s \<equiv> CHR 0x0A \<notin> set s"

lemma no_nl_join: "no_nl sep \<Longrightarrow> \<forall>t \<in> set ts. no_nl t \<Longrightarrow> no_nl (join sep ts)"
  by (induction sep ts rule: join.induct) auto

lemma is_digit_no_nl: "is_digit c \<Longrightarrow> c \<noteq> CHR 0x0A"
  by (auto simp: is_digit_def code_def)

lemma show_int_no_nl: "no_nl (show_int i)"
  using show_nat_digits is_digit_no_nl by (auto simp: show_int_def)

lemma hex_digit_no_nl: "n < 16 \<Longrightarrow> hex_digit n \<noteq> CHR 0x0A"
proof
  assume n: "n < 16" and "hex_digit n = CHR 0x0A"
  then have "code (hex_digit n) = 10" by (simp add: code_def)
  with n show False by (simp add: hex_digit_def split: if_splits)
qed

lemma hex4_no_nl: "no_nl (hex4 n)"
  using hex_digit_no_nl by (auto simp: hex4_def dest: sym)

lemma escape_cp_no_nl: "no_nl (escape_cp n)"
proof -
  have "char_of n \<noteq> CHR 0x0A" if "32 \<le> n" "n \<le> 126"
  proof
    assume "char_of n = CHR 0x0A"
    then have "code (char_of n) = 10" by (simp add: code_def)
    with that show False by simp
  qed
  then show ?thesis
    using hex4_no_nl by (auto simp: escape_cp_def bslash_def dquote_def)
qed

lemma json_str_no_nl: "no_nl (json_str s)"
  using escape_cp_no_nl by (auto simp: json_str_def dquote_def)

lemma float_ok_no_nl:
  assumes "float_ok t"
  shows "no_nl (float_text t)"
proof -
  have digits: "no_nl (fst (split_digits s))" for s
    using is_digit_no_nl by (auto simp: split_digits_def dest: set_takeWhileD)
  have frac: "no_nl (fst (scan_frac s))" for s
    using digits by (auto simp: scan_frac_def split: list.splits)
  have exp: "no_nl (fst (scan_exp s))" for s
    using digits by (auto simp: scan_exp_def scan_sign_def split: list.splits)
  have unsigned: "no_nl u" if "scan_unsigned neg s = Inr (PFloat u, r)" for neg s u r
    using that digits [of s] frac exp
    by (auto simp: scan_unsigned_def Let_def number_of_parts_def jerr_def split: if_splits)
  then have "no_nl t" if "scan_number t = Inr (PFloat t, [])"
    using that by (auto simp: scan_number_def split: if_splits)
  then show ?thesis using assms by (auto simp: float_ok_def float_text_def)
qed

lemma json_dumps_no_nl:
  assumes "no_nl (item_sep opts)" and "no_nl (key_sep opts)"
  shows "json_ok v \<Longrightarrow> json_dumps opts v = Inr t \<Longrightarrow> no_nl t"
proof (induction v arbitrary: t)
  case (PList xs)
  then obtain ts where ts: "list_all2 (\<lambda>x u. json_dumps opts x = Inr u) xs ts"
    and t: "t = ''['' @ join (item_sep opts) ts @ '']''"
    by (auto dest: sequence_map)
  from ts PList.IH PList.prems(1) have "\<forall>u \<in> set ts. no_nl u"
    unfolding list_all2_conv_all_nth by (metis in_set_conv_nth json_ok.simps(6) list.pred_map list_all_iff id_comp)
  with t no_nl_join [OF assms(1)] show ?case by auto
next
  case (PDict d)
  from PDict.prems(2) obtain ts
    where ts: "sequence (map (member_res opts (json_dumps opts)) (order_items opts d)) = Inr ts"
      and t: "t = ''{'' @ join (item_sep opts) ts @ ''}''"
    unfolding json_dumps_PDict by auto
  have "no_nl u" if u: "u \<in> set ts" for u
  proof -
    from ts have "map (member_res opts (json_dumps opts)) (order_items opts d) = map Inr ts"
      by (simp add: sequence_Inr)
    from arg_cong [OF this, of set]
    have "member_res opts (json_dumps opts) ` set d = Inr ` set ts" by simp
    with u have "Inr u \<in> member_res opts (json_dumps opts) ` set d" by blast
    then obtain kx where kx: "kx \<in> set d" and m: "member_res opts (json_dumps opts) kx = Inr u"
      by (metis imageE)
    then obtain x where x: "json_dumps opts (snd kx) = Inr x" "u = member_text opts (fst kx, x)"
      by (auto simp: member_res_def)
    have "no_nl x" using PDict.IH [of kx "snd kx" x] kx x(1) PDict.prems(1)
      unfolding json_ok_PDict by (auto simp: snds.simps)
    with x(2) json_str_no_nl assms(2) show ?thesis by (auto simp: member_text_def)
  qed
  with t no_nl_join [OF assms(1)] show ?case by auto
qed (auto simp: show_int_no_nl json_str_no_nl float_ok_no_nl)

end
