(* ===== verification/Record_Integrity.thy ===== *)
theory Record_Integrity
  imports Audit_Models Audit_Config Json_Canonical
begin

text \<open>
  \<open>audit/record_integrity.py\<close>: the keyed hash over the columns of a stored row.
  A record is the dictionary the functions of the source receive.
\<close>

section \<open>The canonical message\<close>

definition record_domain_label :: string where
  "record_domain_label = ''omnibioai-audit-record-integrity''"

definition to_naive_utc :: "pyval \<Rightarrow> pyval res" where
  "to_naive_utc v = (case v of PDatetime d \<Rightarrow> bind_res (utc_naive d) (\<lambda>n. Inr (PDatetime n)) | _ \<Rightarrow> Inr v)"

definition integrity_key :: "string \<Rightarrow> string res" where
  "integrity_key secret =
     bind_res (encode (record_domain_label @ '':'' @ secret)) (\<lambda>b. Inr (sha256 b))"

definition canonical_opts :: json_opts where
  "canonical_opts = \<lparr>sort_keys = True, item_sep = '','', key_sep = '':'', default_str = True\<rparr>"

definition canonical_json :: "pyval \<Rightarrow> string res" where
  "canonical_json value =
     bind_res
       (case value of
          PStr s \<Rightarrow> (case json_loads (Some s) of
                      Inr v \<Rightarrow> Inr v
                    | Inl e \<Rightarrow> if kind e = TypeError \<or> is_value_error e then Inr value else Inl e)
        | _ \<Rightarrow> Inr value)
       (json_dumps canonical_opts)"

definition AUDIT_EVENT_FIELDS :: "string list" where
  "AUDIT_EVENT_FIELDS =
     [''event_id'', ''timestamp'', ''service'', ''event_type'', ''user_id'',
      ''organization_id'', ''tenant_scope'', ''action'', ''resource'', ''decision'',
      ''reason'', ''trace_id'', ''context'', ''integrity_status'']"

definition QUARANTINE_RECORD_FIELDS :: "string list" where
  "QUARANTINE_RECORD_FIELDS =
     [''stream_message_id'', ''raw_data'', ''raw_signature'', ''service'',
      ''failure_category'', ''failure_detail'', ''delivery_attempts'']"

text \<open>A naive value rounded half up to the second.\<close>

definition round_second :: "datetime \<Rightarrow> datetime res" where
  "round_second n =
     (let us = microsecond n; z = drop_microsecond n
      in if 500000 \<le> us then add_seconds z 1 else Inr z)"

definition canonical_timestamp :: "bool \<Rightarrow> datetime \<Rightarrow> string res" where
  "canonical_timestamp legacy d =
     bind_res (utc_naive d) (\<lambda>n.
     bind_res (round_second n) (\<lambda>z.
     Inr (isoformat ''T'' (if legacy then DateTime (wall z) (Some 0) else z))))"

text \<open>The text of one field: one round of the loop of \<open>_canonical_message\<close>.\<close>

definition field_value :: "bool \<Rightarrow> pydict \<Rightarrow> string \<Rightarrow> string res" where
  "field_value legacy rec field =
     (let value = dict_get rec field
      in if field = ''context''
         then canonical_json (if value \<noteq> PNone then value else PDict [])
         else if field = ''timestamp''
         then (case value of PDatetime d \<Rightarrow> canonical_timestamp legacy d | _ \<Rightarrow> Inr (py_str value))
         else Inr (py_str value))"

definition canonical_message ::
    "bool \<Rightarrow> pydict \<Rightarrow> string list \<Rightarrow> string option \<Rightarrow> string res" where
  "canonical_message legacy rec cols key_id =
     bind_res (map_res (\<lambda>f. bind_res (field_value legacy rec f) (\<lambda>v. Inr (f @ ''='' @ v))) cols) (\<lambda>parts.
     encode (join nl (parts @ (case key_id of None \<Rightarrow> [] | Some k \<Rightarrow> [''integrity_key_id='' @ k]))))"

section \<open>Computing and verifying\<close>

definition compute_audit_event_hash :: "pydict \<Rightarrow> string \<Rightarrow> string option \<Rightarrow> string res" where
  "compute_audit_event_hash rec secret key_id =
     bind_res (integrity_key secret) (\<lambda>k.
     bind_res (canonical_message False rec AUDIT_EVENT_FIELDS key_id) (\<lambda>m.
     Inr (hmac_hex k m)))"

definition compute_quarantine_record_hash :: "pydict \<Rightarrow> string \<Rightarrow> string option \<Rightarrow> string res" where
  "compute_quarantine_record_hash rec secret key_id =
     bind_res (integrity_key secret) (\<lambda>k.
     bind_res (canonical_message False rec QUARANTINE_RECORD_FIELDS key_id) (\<lambda>m.
     Inr (hmac_hex k m)))"

text \<open>\<open>hmac.compare_digest(stored, expected)\<close> for a stored value of any type.\<close>

definition compare_stored :: "pyval \<Rightarrow> string \<Rightarrow> bool res" where
  "compare_stored stored expected =
     (case stored of PStr s \<Rightarrow> compare_digest s expected
      | _ \<Rightarrow> raise TypeError ''unsupported operand types(s) or combination of types'')"

definition audit_event_hash_matches_legacy_utc_form :: "pydict \<Rightarrow> string \<Rightarrow> bool res" where
  "audit_event_hash_matches_legacy_utc_form rec secret =
     (let stored = dict_get rec ''record_integrity_hash''
      in if \<not> truthy stored then Inr False
         else case bind_res (integrity_key secret) (\<lambda>k.
                   bind_res (canonical_message True rec AUDIT_EVENT_FIELDS None) (\<lambda>m.
                   Inr (hmac_hex k m)))
              of Inl e \<Rightarrow> Inr False
               | Inr expected \<Rightarrow> compare_stored stored expected)"

definition verify_audit_event_hash :: "pydict \<Rightarrow> string \<Rightarrow> string option \<Rightarrow> bool res" where
  "verify_audit_event_hash rec secret key_id =
     (let stored = dict_get rec ''record_integrity_hash''
      in if \<not> truthy stored then Inr False
         else case compute_audit_event_hash rec secret key_id
              of Inl e \<Rightarrow> Inr False
               | Inr expected \<Rightarrow>
                   bind_res (compare_stored stored expected) (\<lambda>same.
                   if same then Inr True
                   else if key_id = None then audit_event_hash_matches_legacy_utc_form rec secret
                   else Inr False))"

definition verify_quarantine_record_hash :: "pydict \<Rightarrow> string \<Rightarrow> string option \<Rightarrow> bool res" where
  "verify_quarantine_record_hash rec secret key_id =
     (let stored = dict_get rec ''record_integrity_hash''
      in if \<not> truthy stored then Inr False
         else case compute_quarantine_record_hash rec secret key_id
              of Inl e \<Rightarrow> Inr False
               | Inr expected \<Rightarrow> compare_stored stored expected)"

section \<open>Lemmas\<close>

lemma compute_audit_event_hash_Inr:
  "compute_audit_event_hash rec secret key_id = Inr h \<longleftrightarrow>
     (\<exists>k m. integrity_key secret = Inr k \<and>
        canonical_message False rec AUDIT_EVENT_FIELDS key_id = Inr m \<and> h = hmac_hex k m)"
  by (auto simp: compute_audit_event_hash_def)

lemma compute_quarantine_record_hash_Inr:
  "compute_quarantine_record_hash rec secret key_id = Inr h \<longleftrightarrow>
     (\<exists>k m. integrity_key secret = Inr k \<and>
        canonical_message False rec QUARANTINE_RECORD_FIELDS key_id = Inr m \<and> h = hmac_hex k m)"
  by (auto simp: compute_quarantine_record_hash_def)

lemma compare_stored_True:
  "compare_stored v (hmac_hex k m) = Inr True \<longleftrightarrow> v = PStr (hmac_hex k m)"
  by (cases v) (auto simp: compare_stored_def compare_digest_hmac)

lemma compare_stored_same [simp]: "compare_stored (PStr (hmac_hex k m)) (hmac_hex k m) = Inr True"
  by (simp add: compare_stored_True)

lemma verify_computed:
  assumes "compute_audit_event_hash rec secret key_id = Inr h"
    and "dict_get rec ''record_integrity_hash'' = PStr h"
  shows "verify_audit_event_hash rec secret key_id = Inr True"
proof -
  from assms(1) obtain k m where h: "h = hmac_hex k m" by (auto simp: compute_audit_event_hash_Inr)
  show ?thesis
    unfolding verify_audit_event_hash_def assms Let_def h
    by (simp del: bind_res_Inr)
qed

lemma verify_keyed_iff:
  "verify_audit_event_hash rec secret (Some kid) = Inr True \<longleftrightarrow>
     (\<exists>h. dict_get rec ''record_integrity_hash'' = PStr h \<and>
        compute_audit_event_hash rec secret (Some kid) = Inr h)" (is "?l \<longleftrightarrow> ?r")
proof
  assume ?l
  then obtain h where h: "compute_audit_event_hash rec secret (Some kid) = Inr h"
    and c: "compare_stored (dict_get rec ''record_integrity_hash'') h = Inr True"
    by (auto simp: verify_audit_event_hash_def Let_def split: if_splits sum.splits)
  from h obtain k m where "h = hmac_hex k m" by (auto simp: compute_audit_event_hash_Inr)
  with h c show ?r by (simp add: compare_stored_True)
qed (use verify_computed in blast)

lemma map_res_append_Inr:
  "map_res (\<lambda>f. bind_res (g f) (\<lambda>v. Inr (h f v))) fs = Inr ps \<Longrightarrow>
     length ps = length fs \<and> (\<forall>i < length fs. \<exists>v. g (fs ! i) = Inr v \<and> ps ! i = h (fs ! i) v)"
proof (induction fs arbitrary: ps)
  case (Cons f fs)
  then obtain v qs where "g f = Inr v" "ps = h f v # qs"
    "map_res (\<lambda>f. bind_res (g f) (\<lambda>v. Inr (h f v))) fs = Inr qs" by auto
  with Cons.IH [of qs] show ?case by (auto simp: nth_Cons split: nat.splits)
qed simp

lemma map_res_local_cong: "(\<And>x. x \<in> set xs \<Longrightarrow> f x = g x) \<Longrightarrow> map_res f xs = map_res g xs"
  by (rule map_res_cong) auto

text \<open>No line feed in a field text or in the key ID: the parts can be read off the message.\<close>

definition one_line :: "bool \<Rightarrow> pydict \<Rightarrow> string list \<Rightarrow> string option \<Rightarrow> bool" where
  "one_line legacy rec cols key_id \<longleftrightarrow>
     (\<forall>f \<in> set cols. no_nl f \<and> (case field_value legacy rec f of Inl e \<Rightarrow> True | Inr t \<Rightarrow> no_nl t)) \<and>
     (case key_id of None \<Rightarrow> True | Some k \<Rightarrow> no_nl k)"

lemma canonical_message_parts:
  assumes "canonical_message legacy rec cols key_id = Inr m" and "one_line legacy rec cols key_id"
  obtains ps where "m = join nl (ps @ (case key_id of None \<Rightarrow> [] | Some k \<Rightarrow> [''integrity_key_id='' @ k]))"
    "length ps = length cols"
    "\<forall>i < length cols.
      no_nl (ps ! i) \<and> field_value legacy rec (cols ! i) = Inr (drop (length (cols ! i) + 1) (ps ! i))"
proof -
  from assms(1) obtain ps where ps:
    "map_res (\<lambda>f. bind_res (field_value legacy rec f) (\<lambda>v. Inr (f @ ''='' @ v))) cols = Inr ps"
    and m: "m = join nl (ps @ (case key_id of None \<Rightarrow> [] | Some k \<Rightarrow> [''integrity_key_id='' @ k]))"
    by (auto simp: canonical_message_def)
  note p = map_res_append_Inr [OF ps]
  have "no_nl (ps ! i) \<and> field_value legacy rec (cols ! i) = Inr (drop (length (cols ! i) + 1) (ps ! i))"
    if i: "i < length cols" for i
  proof -
    from p i obtain v where v: "field_value legacy rec (cols ! i) = Inr v" "ps ! i = cols ! i @ ''='' @ v"
      by blast
    from assms(2) nth_mem [OF i] v(1) have "no_nl (cols ! i)" "no_nl v"
      unfolding one_line_def by force+
    with v show ?thesis by auto
  qed
  with m p show ?thesis by (intro that [of ps]) simp_all
qed

lemma canonical_message_inject:
  assumes "canonical_message legacy rec cols (Some k) = Inr m"
    and "canonical_message legacy rec' cols (Some k') = Inr m"
    and "one_line legacy rec cols (Some k)" and "one_line legacy rec' cols (Some k')"
  shows "k = k' \<and> (\<forall>f \<in> set cols. field_value legacy rec f = field_value legacy rec' f)"
proof -
  obtain ps where
    "m = join nl (ps @ (case Some k of None \<Rightarrow> [] | Some k \<Rightarrow> [''integrity_key_id='' @ k]))" and l: "length ps = length cols"
    and v: "\<forall>i < length cols. no_nl (ps ! i) \<and>
      field_value legacy rec (cols ! i) = Inr (drop (length (cols ! i) + 1) (ps ! i))"
    by (rule canonical_message_parts [OF assms(1,3)])
  then have m: "m = join nl (ps @ [''integrity_key_id='' @ k])" by simp
  obtain qs where
    "m = join nl (qs @ (case Some k' of None \<Rightarrow> [] | Some k \<Rightarrow> [''integrity_key_id='' @ k]))" and l': "length qs = length cols"
    and v': "\<forall>i < length cols. no_nl (qs ! i) \<and>
      field_value legacy rec' (cols ! i) = Inr (drop (length (cols ! i) + 1) (qs ! i))"
    by (rule canonical_message_parts [OF assms(2,4)])
  then have m': "m = join nl (qs @ [''integrity_key_id='' @ k'])" by simp
  have "no_nl k" "no_nl k'" using assms(3,4) by (simp_all add: one_line_def)
  moreover have "\<forall>p \<in> set ps. no_nl p" "\<forall>p \<in> set qs. no_nl p"
    using v v' l l' by (metis in_set_conv_nth)+
  ultimately have "ps @ [''integrity_key_id='' @ k] = qs @ [''integrity_key_id='' @ k']"
    using m m' l l' by (intro join_inject [of "CHR 0x0A"]) auto
  then have "ps = qs" "k = k'" by auto
  then show ?thesis using v v' by (metis in_set_conv_nth)
qed

lemma canonical_message_cong:
  assumes "\<And>f. f \<in> set cols \<Longrightarrow> field_value legacy rec f = field_value legacy rec' f"
  shows "canonical_message legacy rec cols key_id = canonical_message legacy rec' cols key_id"
proof -
  have "map_res (\<lambda>f. bind_res (field_value legacy rec f) (\<lambda>v. Inr (f @ ''='' @ v))) cols =
      map_res (\<lambda>f. bind_res (field_value legacy rec' f) (\<lambda>v. Inr (f @ ''='' @ v))) cols"
    using assms by (intro map_res_local_cong) simp
  then show ?thesis by (simp add: canonical_message_def)
qed

text \<open>ASCII records are always hashed.\<close>

lemma is_ascii_simps [simp]: "is_ascii []" "is_ascii (c # s) \<longleftrightarrow> code c < 128 \<and> is_ascii s"
  "is_ascii (s @ t) \<longleftrightarrow> is_ascii s \<and> is_ascii t"
  by (simp_all add: is_ascii_def)

lemma is_ascii_join: "is_ascii sep \<Longrightarrow> list_all is_ascii ts \<Longrightarrow> is_ascii (join sep ts)"
  by (induction sep ts rule: join.induct) auto

lemma ascii_no_surrogate: "is_ascii s \<Longrightarrow> \<not> has_surrogate s"
  by (induction s rule: has_surrogate.induct) auto

lemma canonical_message_ok:
  assumes "list_all (\<lambda>f. \<exists>t. field_value legacy rec f = Inr t \<and> is_ascii f \<and> is_ascii t) cols"
    and "case key_id of None \<Rightarrow> True | Some k \<Rightarrow> is_ascii k"
  shows "\<exists>m. canonical_message legacy rec cols key_id = Inr m"
proof -
  have "\<exists>ps. map_res (\<lambda>f. bind_res (field_value legacy rec f) (\<lambda>v. Inr (f @ ''='' @ v))) cols = Inr ps \<and>
      list_all is_ascii ps"
    using assms(1) by (induction cols) (auto simp: code_def)
  then obtain ps where ps: "map_res (\<lambda>f. bind_res (field_value legacy rec f) (\<lambda>v. Inr (f @ ''='' @ v))) cols = Inr ps"
    "list_all is_ascii ps" by blast
  moreover have "list_all is_ascii (case key_id of None \<Rightarrow> [] | Some k \<Rightarrow> [''integrity_key_id='' @ k])"
    using assms(2) by (auto simp: code_def split: option.splits)
  ultimately have "is_ascii (join nl (ps @ (case key_id of None \<Rightarrow> [] | Some k \<Rightarrow> [''integrity_key_id='' @ k])))"
    by (intro is_ascii_join) (simp_all add: code_def)
  then show ?thesis using ps by (simp add: canonical_message_def ascii_no_surrogate)
qed

lemma show_fixed_ascii: "is_ascii (show_fixed w n)"
  by (induction w arbitrary: n) auto

lemma isoformat_ascii: "is_ascii (isoformat ''T'' (DateTime w None))"
  by (simp add: isoformat_def iso_date_def iso_time_def Let_def show_fixed_ascii code_def split: prod.splits)

section \<open>Timestamps and the \<open>DATETIME\<close> column\<close>

text \<open>
  MySQL stores a \<open>DATETIME\<close> without fractional digits: the documented
  rounding, half up, of the naive value it is sent.
\<close>

definition mysql_round :: "int \<Rightarrow> int" where
  "mysql_round w = (w + 500000) div usec * usec"

lemma mysql_round_cases:
  "mysql_round w = (if 500000 \<le> w mod usec then w - w mod usec + usec else w - w mod usec)"
proof -
  have m: "0 \<le> w mod usec" "w mod usec < usec" by (simp_all add: usec_def)
  have w: "w = w div usec * usec + w mod usec" by simp
  show ?thesis
  proof (cases "500000 \<le> w mod usec")
    case True
    have "(w + 500000) div usec = w div usec + 1"
      using m True by (intro int_div_pos_eq [of _ _ _ "w mod usec - 500000"])
        (use w in \<open>simp_all add: usec_def algebra_simps\<close>)
    with True show ?thesis by (simp add: mysql_round_def algebra_simps minus_mod_eq_mult_div)
  next
    case False
    have "(w + 500000) div usec = w div usec"
      using m False by (intro int_div_pos_eq [of _ _ _ "w mod usec + 500000"])
        (use w in \<open>simp_all add: usec_def algebra_simps\<close>)
    with False show ?thesis by (simp add: mysql_round_def algebra_simps minus_mod_eq_mult_div)
  qed
qed

lemma mysql_round_mod [simp]: "mysql_round w mod usec = 0"
  by (simp add: mysql_round_def)

lemma mysql_round_idem [simp]: "mysql_round (mysql_round w) = mysql_round w"
  by (subst mysql_round_cases) simp

lemma round_second_naive:
  assumes "in_range w"
  shows "round_second (DateTime w None) = mk_datetime (mysql_round w) None"
proof -
  have "0 \<le> w - w mod usec" "w - w mod usec \<le> w"
    using assms by (auto simp: in_range_def usec_def zmod_le_nonneg_dividend)
  with assms have "in_range (w - w mod usec)" by (simp add: in_range_def)
  then show ?thesis
    by (simp add: round_second_def microsecond_def drop_microsecond_def add_seconds_def mk_datetime_def
        mysql_round_cases Let_def)
qed

lemma canonical_timestamp_Inr:
  assumes "in_range (wall d)"
  shows "canonical_timestamp legacy d = Inr t \<longleftrightarrow>
    (\<exists>w. utc_naive d = Inr (DateTime w None) \<and> in_range w \<and> in_range (mysql_round w) \<and>
       t = isoformat ''T'' (DateTime (mysql_round w) (if legacy then Some 0 else None)))"
proof (cases "utc_naive d")
  case (Inr n)
  obtain w where n: "n = DateTime w None" and w: "in_range w"
  proof (cases "tz d")
    case None
    with Inr assms show ?thesis by (intro that [of "wall d"]) (auto simp: utc_naive_def datetime.expand)
  next
    case (Some off)
    with Inr show ?thesis
      by (intro that [of "wall d - off"]) (auto simp: utc_naive_def mk_datetime_def split: if_splits)
  qed
  with Inr show ?thesis
    by (auto simp: canonical_timestamp_def round_second_naive mk_datetime_def)
qed (simp add: canonical_timestamp_def)

text \<open>The value read back from the column has the same canonical text.\<close>

lemma canonical_timestamp_stored:
  assumes "in_range (wall d)" and "canonical_timestamp False d = Inr t"
    and "utc_naive d = Inr (DateTime w None)"
  shows "canonical_timestamp False (DateTime (mysql_round w) None) = Inr t"
proof -
  from assms have "in_range (mysql_round w)" "t = isoformat ''T'' (DateTime (mysql_round w) None)"
    by (auto simp: canonical_timestamp_Inr)
  then show ?thesis by (simp add: canonical_timestamp_Inr utc_naive_def)
qed

section \<open>Rows\<close>

lemma event_fields_get:
  "dict_get (event_fields r) ''event_id'' = PStr (event_id r)"
  "dict_get (event_fields r) ''timestamp'' = PDatetime (timestamp r)"
  "dict_get (event_fields r) ''service'' = PStr (service r)"
  "dict_get (event_fields r) ''event_type'' = PStr (event_type r)"
  "dict_get (event_fields r) ''user_id'' = of_opt (user_id r)"
  "dict_get (event_fields r) ''organization_id'' = of_opt (organization_id r)"
  "dict_get (event_fields r) ''tenant_scope'' = PStr (tenant_scope r)"
  "dict_get (event_fields r) ''action'' = PStr (action r)"
  "dict_get (event_fields r) ''resource'' = of_opt (resource r)"
  "dict_get (event_fields r) ''decision'' = of_opt (decision r)"
  "dict_get (event_fields r) ''reason'' = of_opt (reason r)"
  "dict_get (event_fields r) ''trace_id'' = of_opt (trace_id r)"
  "dict_get (event_fields r) ''context'' = event_context r"
  "dict_get (event_fields r) ''integrity_status'' = PStr (integrity_status r)"
  "dict_get (event_fields r) ''record_integrity_hash'' = of_opt (record_integrity_hash r)"
  "dict_get (event_fields r) ''integrity_key_id'' = of_opt (integrity_key_id r)"
  by (simp_all add: dict_get_def event_fields_def)

text \<open>\<open>str(x)\<close> of a nullable text column.\<close>

definition shown :: "string option \<Rightarrow> string" where
  "shown x = py_str (of_opt x)"

lemma shown_simps [simp]: "shown None = ''None''" "shown (Some s) = s"
  by (simp_all add: shown_def of_opt_def)

lemma event_field_values:
  "field_value l (event_fields r) ''event_id'' = Inr (event_id r)"
  "field_value l (event_fields r) ''timestamp'' = canonical_timestamp l (timestamp r)"
  "field_value l (event_fields r) ''service'' = Inr (service r)"
  "field_value l (event_fields r) ''event_type'' = Inr (event_type r)"
  "field_value l (event_fields r) ''user_id'' = Inr (shown (user_id r))"
  "field_value l (event_fields r) ''organization_id'' = Inr (shown (organization_id r))"
  "field_value l (event_fields r) ''tenant_scope'' = Inr (tenant_scope r)"
  "field_value l (event_fields r) ''action'' = Inr (action r)"
  "field_value l (event_fields r) ''resource'' = Inr (shown (resource r))"
  "field_value l (event_fields r) ''decision'' = Inr (shown (decision r))"
  "field_value l (event_fields r) ''reason'' = Inr (shown (reason r))"
  "field_value l (event_fields r) ''trace_id'' = Inr (shown (trace_id r))"
  "field_value l (event_fields r) ''context'' =
     canonical_json (if event_context r \<noteq> PNone then event_context r else PDict [])"
  "field_value l (event_fields r) ''integrity_status'' = Inr (integrity_status r)"
  by (simp_all add: field_value_def event_fields_get shown_def)

lemma ball_audit_fields:
  "(\<forall>f \<in> set AUDIT_EVENT_FIELDS. P f) \<longleftrightarrow>
     P ''event_id'' \<and> P ''timestamp'' \<and> P ''service'' \<and> P ''event_type'' \<and> P ''user_id'' \<and>
     P ''organization_id'' \<and> P ''tenant_scope'' \<and> P ''action'' \<and> P ''resource'' \<and> P ''decision'' \<and>
     P ''reason'' \<and> P ''trace_id'' \<and> P ''context'' \<and> P ''integrity_status''"
  by (simp only: AUDIT_EVENT_FIELDS_def list.set ball_simps simp_thms)

text \<open>The hash of a row depends on the texts of its columns only.\<close>

lemma compute_event_hash_cong:
  assumes "\<forall>f \<in> set AUDIT_EVENT_FIELDS.
      field_value False (event_fields r) f = field_value False (event_fields r') f"
  shows "compute_audit_event_hash (event_fields r) secret kid =
    compute_audit_event_hash (event_fields r') secret kid"
  using canonical_message_cong [of AUDIT_EVENT_FIELDS False "event_fields r" "event_fields r'" kid] assms
  by (simp add: compute_audit_event_hash_def)

text \<open>A row of ASCII texts can be hashed.\<close>

definition ascii_texts :: "audit_row \<Rightarrow> bool" where
  "ascii_texts r \<longleftrightarrow> list_all is_ascii
     [event_id r, service r, event_type r, shown (user_id r), shown (organization_id r), tenant_scope r,
      action r, shown (resource r), shown (decision r), shown (reason r), shown (trace_id r),
      integrity_status r]"

lemma compute_event_hash_ok:
  assumes "integrity_key secret = Inr k" and "ascii_texts r" and "is_ascii kid"
    and "in_range (wall (timestamp r))" and "canonical_timestamp False (timestamp r) = Inr t"
    and "event_context r \<noteq> PNone" and "canonical_json (event_context r) = Inr c" and "is_ascii c"
  shows "\<exists>h. compute_audit_event_hash (event_fields r) secret (Some kid) = Inr h"
proof -
  have "is_ascii t" using assms(4,5) by (auto simp: canonical_timestamp_Inr isoformat_ascii)
  then have "list_all (\<lambda>f. \<exists>t. field_value False (event_fields r) f = Inr t \<and> is_ascii f \<and> is_ascii t)
      AUDIT_EVENT_FIELDS"
    using assms(2,5-8) unfolding list_all_iff ball_audit_fields event_field_values ascii_texts_def
    by (simp add: code_def)
  with assms(1,3) canonical_message_ok [of False "event_fields r" AUDIT_EVENT_FIELDS "Some kid"]
  show ?thesis by (auto simp: compute_audit_event_hash_Inr)
qed

text \<open>What a reader of the table may get for a context \<open>v\<close>: a value, or JSON text, with items in any order.\<close>

definition context_read_as :: "pyval \<Rightarrow> pyval \<Rightarrow> bool" where
  "context_read_as v ctx \<longleftrightarrow>
     (\<exists>d. reordered v (PDict d) \<and>
       (ctx = PDict d \<or>
        (\<exists>opts t. opts_ok opts \<and> json_ok (PDict d) \<and> json_dumps opts (PDict d) = Inr t \<and> ctx = PStr t)))"

lemma canonical_json_read_back:
  assumes "context_read_as (PDict e) ctx"
  shows "canonical_json ctx = canonical_json (PDict e)"
proof -
  have s: "sort_keys canonical_opts" by (simp add: canonical_opts_def)
  from assms obtain d where r: "reordered (PDict e) (PDict d)"
    and ctx: "ctx = PDict d \<or> (\<exists>opts t. opts_ok opts \<and> json_ok (PDict d) \<and>
      json_dumps opts (PDict d) = Inr t \<and> ctx = PStr t)"
    unfolding context_read_as_def by blast
  from ctx show ?thesis
  proof
    assume "ctx = PDict d"
    then show ?thesis using json_dumps_reordered [OF s r] by (simp add: canonical_json_def)
  next
    assume "\<exists>opts t. opts_ok opts \<and> json_ok (PDict d) \<and> json_dumps opts (PDict d) = Inr t \<and> ctx = PStr t"
    then obtain opts t where o: "opts_ok opts" "json_ok (PDict d)" "json_dumps opts (PDict d) = Inr t"
      and ctx: "ctx = PStr t" by blast
    obtain u where "json_loads (Some t) = Inr u"
      "json_dumps canonical_opts u = json_dumps canonical_opts (PDict e)"
      by (rule json_dumps_canonical [OF s r o])
    with ctx show ?thesis by (simp add: canonical_json_def)
  qed
qed

lemma read_back_verifies:
  assumes "compute_audit_event_hash (event_fields r) secret kid = Inr h"
    and "in_range (wall (timestamp r))" and "utc_naive (timestamp r) = Inr (DateTime w None)"
    and "event_context r = PDict e" and "context_read_as (PDict e) ctx"
  shows "verify_audit_event_hash
    (event_fields (r\<lparr>timestamp := DateTime (mysql_round w) None, event_context := ctx,
       record_integrity_hash := Some h, integrity_key_id := kid', created_at := c\<rparr>)) secret kid = Inr True"
    (is "verify_audit_event_hash (event_fields ?r) _ _ = _")
proof (rule verify_computed)
  from assms(1) obtain m where m: "canonical_message False (event_fields r) AUDIT_EVENT_FIELDS kid = Inr m"
    by (auto simp: compute_audit_event_hash_Inr)
  then obtain t where t: "canonical_timestamp False (timestamp r) = Inr t"
    by (auto simp: canonical_message_def AUDIT_EVENT_FIELDS_def event_field_values)
  have "ctx \<noteq> PNone" using assms(5) by (auto simp: context_read_as_def)
  then have "\<forall>f \<in> set AUDIT_EVENT_FIELDS.
      field_value False (event_fields r) f = field_value False (event_fields ?r) f"
    using t canonical_timestamp_stored [OF assms(2) t assms(3)]
      canonical_json_read_back [OF assms(5)] assms(4)
    unfolding ball_audit_fields by (simp add: event_field_values)
  from compute_event_hash_cong [OF this] assms(1)
  show "compute_audit_event_hash (event_fields ?r) secret kid = Inr h" by simp
qed (simp add: event_fields_get of_opt_def)

section \<open>Properties\<close>

text \<open>
  A row hashed when it is written verifies when it is read back from the
  table: for every event row with a dictionary context, every timestamp zone,
  and every way the context may be read (parsed or raw JSON text, with its
  items in any order), the row with the rounded \<open>DATETIME\<close> the column holds,
  the stored hash and the server's own columns is accepted under the same
  key and key ID.
\<close>

lemma stored_row_verifies:
  assumes "compute_audit_event_hash (event_fields r) secret kid = Inr h"
    and "in_range (wall (timestamp r))" and "utc_naive (timestamp r) = Inr (DateTime w None)"
    and "event_context r = PDict e" and "context_read_as (PDict e) ctx"
  shows "verify_audit_event_hash
    (event_fields (r\<lparr>timestamp := DateTime (mysql_round w) None, event_context := ctx,
       record_integrity_hash := Some h, integrity_key_id := kid', created_at := c\<rparr>)) secret kid = Inr True"
  using assms by (rule read_back_verifies)

definition example_row :: audit_row where
  "example_row =
     \<lparr>event_id = ''e1'', timestamp = DateTime 63870000000600000 (Some 3600000000), service = ''tes'',
      event_type = ''submit'', user_id = Some ''u1'', organization_id = Some ''589'',
      tenant_scope = ''organization'', action = ''run'', resource = None, decision = Some ''allow'',
      reason = None, trace_id = None, event_context = PDict [(''b'', PInt 2), (''a'', PInt 1)],
      integrity_status = ''verified'', record_integrity_hash = None, integrity_key_id = None,
      created_at = None\<rparr>"

lemma example_key: "\<exists>k. integrity_key ''0123456789abcdef0123456789abcdef'' = Inr k"
  by (simp add: integrity_key_def encode_def record_domain_label_def code_def)

lemma example_context: "\<exists>t. canonical_json (event_context example_row) = Inr t \<and> is_ascii t"
  by (simp add: canonical_json_def example_row_def canonical_opts_def json_str_def utf8_dec_ascii
      escape_cp_def dquote_def bslash_def show_int_def show_nat.simps code_def)

lemma example_row_hash:
  "\<exists>h. compute_audit_event_hash (event_fields example_row) ''0123456789abcdef0123456789abcdef''
     (Some ''key-1'') = Inr h"
proof -
  have "in_range (wall (timestamp example_row))"
    "\<exists>t. canonical_timestamp False (timestamp example_row) = Inr t"
    by (auto simp: canonical_timestamp_Inr example_row_def utc_naive_def mk_datetime_def in_range_def
        max_wall_def usec_day_def mysql_round_def usec_def)
  moreover have "ascii_texts example_row" "event_context example_row \<noteq> PNone"
    by (simp_all add: ascii_texts_def example_row_def code_def)
  moreover have "is_ascii ''key-1''" by (simp add: code_def)
  ultimately show ?thesis using example_key example_context by (metis compute_event_hash_ok)
qed

text \<open>The columns of two rows say the same: text columns, second of the timestamp, canonical context.\<close>

definition same_columns :: "audit_row \<Rightarrow> audit_row \<Rightarrow> bool" where
  "same_columns r r' \<longleftrightarrow>
     event_id r = event_id r' \<and> service r = service r' \<and> event_type r = event_type r' \<and>
     shown (user_id r) = shown (user_id r') \<and>
     shown (organization_id r) = shown (organization_id r') \<and>
     tenant_scope r = tenant_scope r' \<and> action r = action r' \<and>
     shown (resource r) = shown (resource r') \<and> shown (decision r) = shown (decision r') \<and>
     shown (reason r) = shown (reason r') \<and> shown (trace_id r) = shown (trace_id r') \<and>
     integrity_status r = integrity_status r' \<and>
     canonical_json (event_context r) = canonical_json (event_context r') \<and>
     (\<exists>w w'. utc_naive (timestamp r) = Inr (DateTime w None) \<and>
        utc_naive (timestamp r') = Inr (DateTime w' None) \<and> mysql_round w = mysql_round w')"

text \<open>No text column of the row holds a line feed; the context is a JSON dictionary.\<close>

definition line_free :: "audit_row \<Rightarrow> bool" where
  "line_free r \<longleftrightarrow>
     no_nl (event_id r) \<and> no_nl (service r) \<and> no_nl (event_type r) \<and> no_nl (shown (user_id r)) \<and>
     no_nl (shown (organization_id r)) \<and> no_nl (tenant_scope r) \<and> no_nl (action r) \<and>
     no_nl (shown (resource r)) \<and> no_nl (shown (decision r)) \<and> no_nl (shown (reason r)) \<and>
     no_nl (shown (trace_id r)) \<and> no_nl (integrity_status r) \<and>
     (\<exists>d. event_context r = PDict d \<and> json_ok (PDict d)) \<and> in_range (wall (timestamp r))"

lemma show_fixed_no_nl: "no_nl (show_fixed w n)"
proof (induction w arbitrary: n)
  case (Suc w)
  have "char_of (48 + n mod 10) \<noteq> (CHR 0x0A :: char)"
  proof
    assume "char_of (48 + n mod 10) = (CHR 0x0A :: char)"
    then have "code (char_of (48 + n mod 10)) = 10" by (simp add: code_def)
    then show False by simp
  qed
  with Suc show ?case by (auto dest: sym)
qed simp

lemma isoformat_no_nl: "no_nl (isoformat ''T'' (DateTime w None))"
  using show_fixed_no_nl
  by (auto simp: isoformat_def iso_date_def iso_time_def Let_def split: prod.splits)

lemma line_free_one_line:
  assumes "line_free r" and "no_nl k"
  shows "one_line False (event_fields r) AUDIT_EVENT_FIELDS (Some k)"
proof -
  have "\<forall>f \<in> set AUDIT_EVENT_FIELDS.
    case field_value False (event_fields r) f of Inl e \<Rightarrow> True | Inr t \<Rightarrow> no_nl t"
  proof -
    have "no_nl t" if "canonical_timestamp False (timestamp r) = Inr t" for t
      using that assms(1) isoformat_no_nl by (auto simp: line_free_def canonical_timestamp_Inr)
    moreover have "no_nl t" if "canonical_json (event_context r) = Inr t" for t
      using that assms(1) json_dumps_no_nl [of canonical_opts]
      by (auto simp: line_free_def canonical_json_def canonical_opts_def simp del: json_dumps.simps json_ok.simps)
    moreover have "event_context r \<noteq> PNone" using assms(1) by (auto simp: line_free_def)
    ultimately show ?thesis
      using assms(1) unfolding line_free_def ball_audit_fields event_field_values
      by (simp split: sum.split)
  qed
  moreover have "\<forall>f \<in> set AUDIT_EVENT_FIELDS. no_nl f" by (simp add: AUDIT_EVENT_FIELDS_def)
  ultimately show ?thesis using assms(2) by (simp add: one_line_def)
qed

lemma same_columnsI:
  assumes "\<forall>f \<in> set AUDIT_EVENT_FIELDS.
      field_value False (event_fields r) f = field_value False (event_fields r') f"
    and "line_free r" and "line_free r'" and "canonical_timestamp False (timestamp r) = Inr t"
  shows "same_columns r r'"
proof -
  from assms(2,3) have c: "event_context r \<noteq> PNone" "event_context r' \<noteq> PNone"
    and i: "in_range (wall (timestamp r))" "in_range (wall (timestamp r'))"
    by (auto simp: line_free_def)
  note v = assms(1) [unfolded ball_audit_fields event_field_values]
  from v assms(4) have "canonical_timestamp False (timestamp r') = Inr t" by simp
  with assms(4) i obtain w w' where
    "utc_naive (timestamp r) = Inr (DateTime w None)" "utc_naive (timestamp r') = Inr (DateTime w' None)"
    "isoformat ''T'' (DateTime (mysql_round w) None) = isoformat ''T'' (DateTime (mysql_round w') None)"
    "in_range (mysql_round w)" "in_range (mysql_round w')"
    by (auto simp: canonical_timestamp_Inr)
  moreover from this(3-5) have "mysql_round w = mysql_round w'"
    by (rule isoformat_inject) simp_all
  ultimately have "\<exists>w w'. utc_naive (timestamp r) = Inr (DateTime w None) \<and>
        utc_naive (timestamp r') = Inr (DateTime w' None) \<and> mysql_round w = mysql_round w'" by blast
  with v c show ?thesis unfolding same_columns_def by simp
qed



text \<open>
  The limit of tamper evidence.  The canonical message does not determine the columns:
  an absent user and the user named \<open>None\<close> hash alike, and so do two rows
  between which a line feed and a field name move from \<open>trace_id\<close> into
  \<open>reason\<close>, for every row, secret and key ID.
\<close>

theorem canonical_message_ambiguous:
  "compute_audit_event_hash (event_fields (r\<lparr>user_id := None\<rparr>)) secret kid =
     compute_audit_event_hash (event_fields (r\<lparr>user_id := Some ''None''\<rparr>)) secret kid \<and>
   compute_audit_event_hash (event_fields
     (r\<lparr>reason := Some a, trace_id := Some (b @ nl @ ''trace_id='' @ c)\<rparr>)) secret kid =
   compute_audit_event_hash (event_fields
     (r\<lparr>reason := Some (a @ nl @ ''trace_id='' @ b), trace_id := Some c\<rparr>)) secret kid"
proof
  show "compute_audit_event_hash (event_fields (r\<lparr>user_id := None\<rparr>)) secret kid =
     compute_audit_event_hash (event_fields (r\<lparr>user_id := Some ''None''\<rparr>)) secret kid"
    by (rule compute_event_hash_cong) (simp add: ball_audit_fields event_field_values)
  show "compute_audit_event_hash (event_fields
     (r\<lparr>reason := Some a, trace_id := Some (b @ nl @ ''trace_id='' @ c)\<rparr>)) secret kid =
   compute_audit_event_hash (event_fields
     (r\<lparr>reason := Some (a @ nl @ ''trace_id='' @ b), trace_id := Some c\<rparr>)) secret kid"
    by (cases "canonical_timestamp False (timestamp r)";
        cases "event_context r = PNone"; cases "canonical_json (PDict [])";
        cases "canonical_json (event_context r)")
      (simp_all add: compute_audit_event_hash_def canonical_message_def AUDIT_EVENT_FIELDS_def
        event_field_values join_Cons del: join.simps)
qed

text \<open>
  When the verification of a row raises.  It raises, with \<open>TypeError\<close>, exactly
  when the row can be hashed and its stored hash has a character outside
  ASCII; every other malformed row is answered.
\<close>

theorem verify_audit_event_hash_raises_iff:
  "verify_audit_event_hash (event_fields r) secret kid = Inl e \<longleftrightarrow>
     e = Exn TypeError ''comparing strings with non-ASCII characters is not supported'' \<and>
     (\<exists>s h. record_integrity_hash r = Some s \<and> \<not> is_ascii s \<and>
       compute_audit_event_hash (event_fields r) secret kid = Inr h)"
proof (cases "record_integrity_hash r")
  case None
  then show ?thesis by (simp add: verify_audit_event_hash_def event_fields_get of_opt_def)
next
  case (Some s)
  have legacy: "is_ascii s \<Longrightarrow> \<exists>b. audit_event_hash_matches_legacy_utc_form (event_fields r) secret = Inr b"
    using Some by (auto simp: audit_event_hash_matches_legacy_utc_form_def event_fields_get of_opt_def
        compare_stored_def compare_digest_hmac Let_def split: sum.splits)
  show ?thesis
  proof (cases "compute_audit_event_hash (event_fields r) secret kid")
    case (Inl e')
    then show ?thesis by (simp add: verify_audit_event_hash_def Let_def)
  next
    case (Inr h)
    then obtain k m where "h = hmac_hex k m" by (auto simp: compute_audit_event_hash_Inr)
    with Some Inr legacy show ?thesis
      by (auto simp: verify_audit_event_hash_def event_fields_get of_opt_def compare_stored_def
          compare_digest_hmac Let_def split: if_splits)
  qed
qed

end
