(* ===== verification/Stateful.thy ===== *)
theory Stateful
  imports Audit_Prelude
begin

text \<open>
  Computations that change a state and may raise, with the combinators the
  components are written in, and the relations between the states before and
  after that the combinators keep.
\<close>

section \<open>Computations\<close>

type_synonym ('s, 'a) st = "'s \<Rightarrow> 'a res \<times> 's"

definition io_return :: "'a \<Rightarrow> ('s, 'a) st" where
  "io_return x w = (Inr x, w)"

definition io_lift :: "'a res \<Rightarrow> ('s, 'a) st" where
  "io_lift r w = (r, w)"

definition io_bind :: "('s, 'a) st \<Rightarrow> ('a \<Rightarrow> ('s, 'b) st) \<Rightarrow> ('s, 'b) st" where
  "io_bind m f w = (case m w of (Inl e, w') \<Rightarrow> (Inl e, w') | (Inr x, w') \<Rightarrow> f x w')"

text \<open>\<open>try: m; except Exception as e: h(e)\<close>.\<close>

definition io_try :: "('s, 'a) st \<Rightarrow> (exn \<Rightarrow> ('s, 'a) st) \<Rightarrow> ('s, 'a) st" where
  "io_try m h w = (case m w of (Inl e, w') \<Rightarrow> h e w' | (Inr x, w') \<Rightarrow> (Inr x, w'))"

text \<open>\<open>try: m; finally: c\<close>.\<close>

definition io_finally :: "('s, 'a) st \<Rightarrow> ('s, unit) st \<Rightarrow> ('s, 'a) st" where
  "io_finally m c s = (case m s of (r, s') \<Rightarrow> (case c s' of (Inl e, s'') \<Rightarrow> (Inl e, s'') | (Inr _, s'') \<Rightarrow> (r, s'')))"

fun io_each :: "('a \<Rightarrow> ('s, 'b) st) \<Rightarrow> 'a list \<Rightarrow> ('s, unit) st" where
  "io_each f [] = io_return ()"
| "io_each f (x # xs) = io_bind (f x) (\<lambda>_. io_each f xs)"

fun io_map :: "('a \<Rightarrow> ('s, 'b) st) \<Rightarrow> 'a list \<Rightarrow> ('s, 'b list) st" where
  "io_map f [] = io_return []"
| "io_map f (x # xs) = io_bind (f x) (\<lambda>y. io_bind (io_map f xs) (\<lambda>ys. io_return (y # ys)))"

lemma io_bind_Inr:
  "io_bind m f w = (Inr y, w') \<longleftrightarrow> (\<exists>x w1. m w = (Inr x, w1) \<and> f x w1 = (Inr y, w'))"
  by (auto simp: io_bind_def split: prod.splits sum.splits)

lemma io_bind_Inl:
  "io_bind m f w = (Inl e, w') \<longleftrightarrow>
     m w = (Inl e, w') \<or> (\<exists>x w1. m w = (Inr x, w1) \<and> f x w1 = (Inl e, w'))"
  by (auto simp: io_bind_def split: prod.splits sum.splits)

lemma io_try_eq:
  "io_try m h w = (r, w') \<longleftrightarrow>
     (\<exists>x. r = Inr x \<and> m w = (Inr x, w')) \<or> (\<exists>e w1. m w = (Inl e, w1) \<and> h e w1 = (r, w'))"
  by (auto simp: io_try_def split: prod.splits sum.splits)

lemma io_finally_Inr: "io_finally m c s = (Inr x, s') \<Longrightarrow> \<exists>s1. m s = (Inr x, s1) \<and> c s1 = (Inr (), s')"
  by (auto simp: io_finally_def split: prod.splits sum.splits)

lemma io_basic [simp]:
  "io_return x w = (Inr x, w)" "io_lift r w = (r, w)"
  by (simp_all add: io_return_def io_lift_def)

lemma io_bind_simps [simp]:
  "io_bind (io_return x) f = f x" "io_bind (io_lift (Inr x)) f = f x"
  "io_bind (io_lift (Inl e)) f = io_lift (Inl e)"
  by (simp_all add: io_bind_def fun_eq_iff)

lemma io_bind_step: "m w = (Inr x, w') \<Longrightarrow> io_bind m f w = f x w'"
  "m w = (Inl e, w') \<Longrightarrow> io_bind m f w = (Inl e, w')"
  by (simp_all add: io_bind_def)

lemma io_bind_assoc: "io_bind (io_bind m f) g = io_bind m (\<lambda>x. io_bind (f x) g)"
  by (auto simp: io_bind_def fun_eq_iff split: prod.split sum.split)

section \<open>Relations every computation keeps\<close>

text \<open>Whatever the outcome, the state before and the state after are related.\<close>

definition keeps :: "('s \<Rightarrow> 's \<Rightarrow> bool) \<Rightarrow> ('s, 'a) st \<Rightarrow> bool" where
  "keeps R m \<longleftrightarrow> (\<forall>w. R w (snd (m w)))"

lemma keepsD: "keeps R m \<Longrightarrow> m w = (r, w') \<Longrightarrow> R w w'"
  by (metis keeps_def snd_conv)

text \<open>Reflexive and transitive relations lift through the combinators.\<close>

locale step_relation =
  fixes R :: "'s \<Rightarrow> 's \<Rightarrow> bool"
  assumes R_refl: "R w w"
    and R_trans: "R u v \<Longrightarrow> R v w \<Longrightarrow> R u w"
begin

lemma keeps_return: "keeps R (io_return x)"
  by (simp add: keeps_def R_refl)

lemma keeps_lift: "keeps R (io_lift r)"
  by (simp add: keeps_def R_refl)

lemma keeps_bind:
  assumes "keeps R m" and "\<And>x. keeps R (f x)"
  shows "keeps R (io_bind m f)"
  unfolding keeps_def
proof
  fix w
  obtain r w' where m: "m w = (r, w')" by fastforce
  with assms(1) have "R w w'" by (rule keepsD)
  moreover have "R w' (snd (f x w'))" for x using assms(2) by (simp add: keeps_def)
  ultimately show "R w (snd (io_bind m f w))"
    using m R_trans by (auto simp: io_bind_def split: sum.split)
qed

lemma keeps_try:
  assumes "keeps R m" and "\<And>e. keeps R (h e)"
  shows "keeps R (io_try m h)"
  unfolding keeps_def
proof
  fix w
  obtain r w' where m: "m w = (r, w')" by fastforce
  with assms(1) have "R w w'" by (rule keepsD)
  moreover have "R w' (snd (h e w'))" for e using assms(2) by (simp add: keeps_def)
  ultimately show "R w (snd (io_try m h w))"
    using m R_trans by (auto simp: io_try_def split: sum.split)
qed

lemma keeps_each:
  assumes "\<And>x. keeps R (f x)"
  shows "keeps R (io_each f xs)"
  by (induction xs) (simp_all only: io_each.simps keeps_return keeps_bind assms)

lemma keeps_map:
  assumes "\<And>x. keeps R (f x)"
  shows "keeps R (io_map f xs)"
  by (induction xs) (simp_all only: io_map.simps keeps_return keeps_bind assms)

lemma keeps_if:
  "(b \<Longrightarrow> keeps R m) \<Longrightarrow> (\<not> b \<Longrightarrow> keeps R n) \<Longrightarrow> keeps R (if b then m else n)"
  by simp

lemma keeps_each_in:
  assumes "\<And>x. x \<in> set xs \<Longrightarrow> keeps R (f x)"
  shows "keeps R (io_each f xs)"
  using assms by (induction xs) (simp_all add: keeps_return keeps_bind)

lemma keeps_finally:
  assumes "keeps R m" and "keeps R c"
  shows "keeps R (io_finally m c)"
  unfolding keeps_def
proof
  fix w
  obtain r w1 where m: "m w = (r, w1)" by (rule prod.exhaust)
  obtain r' w2 where c: "c w1 = (r', w2)" by (rule prod.exhaust)
  have "R w w2" using keepsD [OF assms(1) m] keepsD [OF assms(2) c] by (rule R_trans)
  then show "R w (snd (io_finally m c w))" using m c by (simp add: io_finally_def split: sum.split)
qed

text \<open>The continuation is only run on what the first computation returned.\<close>

lemma keeps_bind_result:
  assumes "keeps R m" and "\<And>w x w'. m w = (Inr x, w') \<Longrightarrow> R w' (snd (f x w'))"
  shows "keeps R (io_bind m f)"
  unfolding keeps_def
proof
  fix w
  obtain r w' where m: "m w = (r, w')" by (rule prod.exhaust)
  have "R w w'" using keepsD [OF assms(1) m] .
  then show "R w (snd (io_bind m f w))" using m assms(2) R_trans by (cases r) (auto simp: io_bind_def)
qed

lemmas keeps_rules = keeps_return keeps_lift keeps_bind keeps_try keeps_each
  keeps_map keeps_if

end

end
