(* ===== verification/Audit_World.thy ===== *)
theory Audit_World
  imports Audit_Models Audit_Config Stateful
begin

text \<open>
  The world the worker acts on.  Redis, the database, the clock, the UUID
  generator, standard output and the file system are one environment of an
  arbitrary type, changed by the operations of the record \<open>ops\<close>; these
  operations are parameters of every definition that uses them, and each may
  raise any exception.  (\<open>KeyboardInterrupt\<close> and \<open>SystemExit\<close>, which end the
  process, are not outcomes of the operations.)  \<open>op_now\<close> is the UTC wall clock
  as a naive value.  A world pairs the environment
  with the two module-level variables of the sources, \<open>_LAST_SENT\<close> and
  \<open>_last_nogroup_recreate_attempt\<close>, and with the history of the effects.
\<close>

section \<open>Environment operations\<close>

type_synonym stream_fields = "(string \<times> string) list"
type_synonym stream_entry = "string \<times> stream_fields"

record security_alert =
  alert_condition :: string
  alert_severity :: string
  alert_component :: string
  alert_message :: string
  alert_metadata :: pydict
  alert_timestamp :: string

record 'e ops =
  op_xgroup_create :: "string \<Rightarrow> string \<Rightarrow> 'e \<Rightarrow> unit res \<times> 'e"
  op_xreadgroup :: "string \<Rightarrow> string \<Rightarrow> string \<Rightarrow> int \<Rightarrow> int \<Rightarrow> 'e \<Rightarrow> (string \<times> stream_entry list) list res \<times> 'e"
  op_xack :: "string \<Rightarrow> string \<Rightarrow> string \<Rightarrow> 'e \<Rightarrow> unit res \<times> 'e"
  op_xpending_range :: "string \<Rightarrow> string \<Rightarrow> int \<Rightarrow> int \<Rightarrow> 'e \<Rightarrow> (string \<times> int) list res \<times> 'e"
  op_xrange :: "string \<Rightarrow> string \<Rightarrow> string \<Rightarrow> 'e \<Rightarrow> stream_entry list res \<times> 'e"
  op_xclaim :: "string \<Rightarrow> string \<Rightarrow> string \<Rightarrow> int \<Rightarrow> string list \<Rightarrow> 'e \<Rightarrow> stream_entry list res \<times> 'e"
  op_open_session :: "'e \<Rightarrow> unit res \<times> 'e"
  op_commit_event :: "audit_row \<Rightarrow> 'e \<Rightarrow> unit res \<times> 'e"
  op_commit_quarantine :: "quarantine_row \<Rightarrow> 'e \<Rightarrow> unit res \<times> 'e"
  op_rollback :: "'e \<Rightarrow> unit res \<times> 'e"
  op_close_session :: "'e \<Rightarrow> unit res \<times> 'e"
  op_monotonic :: "'e \<Rightarrow> rat res \<times> 'e"
  op_now :: "'e \<Rightarrow> datetime res \<times> 'e"
  op_uuid4 :: "'e \<Rightarrow> string res \<times> 'e"
  op_stdout :: "string \<Rightarrow> 'e \<Rightarrow> unit res \<times> 'e"
  op_append_file :: "string \<Rightarrow> string \<Rightarrow> 'e \<Rightarrow> unit res \<times> 'e"
  op_sleep :: "rat \<Rightarrow> 'e \<Rightarrow> unit res \<times> 'e"

text \<open>
  The history.  A commit is recorded when it returned, or when it met a taken
  key and was rolled back (the flag tells which); an acknowledgement where
  \<open>XACK\<close> is sent, a group creation where \<open>XGROUP CREATE\<close> is sent, an alert
  where it is handed to the sink, an automatic recreation where it begins.  The
  last two carry the clock reading the code took before, to be compared with
  the deduplication window and with the backoff.
\<close>

datatype effect =
    Handling string stream_fields
  | EventCommit audit_row bool
  | QuarantineCommit quarantine_row bool
  | Ack string
  | Alert security_alert rat
  | GroupCreate
  | RecreateAttempt rat
  | Sleep rat

record 'e world =
  env :: 'e
  last_sent :: "string \<rightharpoonup> rat"
  last_nogroup_recreate_attempt :: "rat option"
  history :: "effect list"

section \<open>Computations on the world\<close>

type_synonym ('e, 'a) io = "('e world, 'a) st"

definition io_call :: "('e \<Rightarrow> 'a res \<times> 'e) \<Rightarrow> ('e, 'a) io" where
  "io_call f w = (let (r, e) = f (env w) in (r, w\<lparr>env := e\<rparr>))"

definition io_log :: "effect \<Rightarrow> ('e, unit) io" where
  "io_log a w = (Inr (), w\<lparr>history := history w @ [a]\<rparr>)"

lemma io_log_simp [simp]: "io_log a w = (Inr (), w\<lparr>history := history w @ [a]\<rparr>)"
  by (simp add: io_log_def)

lemma io_try_log: "io_try (io_bind (io_log a) (\<lambda>_. m)) h = io_bind (io_log a) (\<lambda>_. io_try m h)"
  by (simp add: io_try_def io_bind_def fun_eq_iff)

text \<open>Such relations between worlds.\<close>

locale world_relation = step_relation R for R :: "'e world \<Rightarrow> 'e world \<Rightarrow> bool"

text \<open>The relation that looks at the history only: a suffix of an accepted form was added.\<close>

definition grows :: "(effect list \<Rightarrow> bool) \<Rightarrow> 'e world \<Rightarrow> 'e world \<Rightarrow> bool" where
  "grows S w w' \<longleftrightarrow> (\<exists>t. history w' = history w @ t \<and> S t)"

text \<open>Sets of histories that contain the empty one and are closed under concatenation.\<close>

locale history_spec =
  fixes S :: "effect list \<Rightarrow> bool"
  assumes S_Nil: "S []"
    and S_append: "S a \<Longrightarrow> S b \<Longrightarrow> S (a @ b)"

sublocale history_spec \<subseteq> grown: world_relation "grows S"
proof
  fix u v w :: "'b world"
  show "grows S w w" using S_Nil by (simp add: grows_def)
  show "grows S u v \<Longrightarrow> grows S v w \<Longrightarrow> grows S u w"
    using S_append by (force simp: grows_def)
qed

end
