(* ===== verification/Security_Alerts.thy ===== *)
theory Security_Alerts
  imports Audit_World Py_Json
begin

text \<open>
  \<open>audit/security_alerts.py\<close>: the alert, the two sinks, and
  \<open>emit_security_alert\<close> with its deduplication table.
\<close>

section \<open>Sinks\<close>

definition VALID_SEVERITIES :: "string list" where
  "VALID_SEVERITIES = [''info'', ''warning'', ''critical'']"

definition alert_dict :: "security_alert \<Rightarrow> pyval" where
  "alert_dict a = PDict
     [(''condition'', PStr (alert_condition a)), (''severity'', PStr (alert_severity a)),
      (''component'', PStr (alert_component a)), (''message'', PStr (alert_message a)),
      (''metadata'', PDict (alert_metadata a)), (''timestamp'', PStr (alert_timestamp a))]"

definition alert_opts :: json_opts where
  "alert_opts = \<lparr>sort_keys = True, item_sep = '', '', key_sep = '': '', default_str = False\<rparr>"

definition stdout_send :: "'e ops \<Rightarrow> security_alert \<Rightarrow> ('e, unit) io" where
  "stdout_send X a =
     io_bind (io_lift (json_dumps alert_opts (alert_dict a))) (\<lambda>t.
     io_call (op_stdout X (''[SECURITY-ALERT] '' @ t @ nl)))"

definition file_send :: "'e ops \<Rightarrow> string \<Rightarrow> security_alert \<Rightarrow> ('e, unit) io" where
  "file_send X path a =
     io_bind (io_lift (json_dumps alert_opts (alert_dict a))) (\<lambda>t.
     io_call (op_append_file X path (t @ nl)))"

text \<open>The default sink, from the variable \<open>AUDIT_ALERT_LOG_FILE\<close>.\<close>

definition default_send :: "'e ops \<Rightarrow> environ \<Rightarrow> security_alert \<Rightarrow> ('e, unit) io" where
  "default_send X osenv a =
     (case osenv ''AUDIT_ALERT_LOG_FILE'' of
        None \<Rightarrow> stdout_send X a
      | Some f \<Rightarrow> (if f = [] then stdout_send X a else file_send X f a))"

section \<open>Emission\<close>

definition alert_key :: "string \<Rightarrow> string \<Rightarrow> string" where
  "alert_key component condition = component @ '':'' @ condition"

definition is_recovery :: "string \<Rightarrow> bool" where
  "is_recovery condition \<longleftrightarrow> endswith condition ''_recovered''"

text \<open>The section under \<open>_DEDUP_LOCK\<close>: true when the alert is to be sent.\<close>

definition dedup_pass :: "security_alert \<Rightarrow> rat \<Rightarrow> rat \<Rightarrow> ('e, bool) io" where
  "dedup_pass a window now w =
     (let key = alert_key (alert_component a) (alert_condition a);
          suppressed = (case last_sent w key of
             None \<Rightarrow> False
           | Some prev \<Rightarrow> \<not> is_recovery (alert_condition a) \<and> now - prev < window)
      in if suppressed then (Inr False, w)
         else (Inr True, w\<lparr>last_sent := (last_sent w)(key \<mapsto> now)\<rparr>))"

text \<open>
  \<open>send\<close> is the sink (the default one unless the caller passes its own), \<open>now\<close>
  the optional clock reading of the caller.
\<close>

definition emit_security_alert ::
    "'e ops \<Rightarrow> (security_alert \<Rightarrow> ('e, unit) io) \<Rightarrow> rat \<Rightarrow> rat option \<Rightarrow>
     string \<Rightarrow> string \<Rightarrow> string \<Rightarrow> string \<Rightarrow> pydict \<Rightarrow> ('e, security_alert option) io" where
  "emit_security_alert X send window now condition severity component msg metadata =
     io_bind (io_call (op_now X)) (\<lambda>ts.
     io_bind (io_lift (Inr \<lparr>alert_condition = condition,
        alert_severity = (if severity \<in> set VALID_SEVERITIES then severity else ''warning''),
        alert_component = component, alert_message = msg, alert_metadata = metadata,
        alert_timestamp = isoformat ''T'' (DateTime (wall ts) (Some 0))\<rparr>)) (\<lambda>a.
     io_bind (case now of Some t \<Rightarrow> io_return t | None \<Rightarrow> io_call (op_monotonic X)) (\<lambda>t.
     io_bind (dedup_pass a window t) (\<lambda>pass.
     if \<not> pass then io_return None
     else io_bind (io_try (io_bind (io_log (Alert a t)) (\<lambda>_. send a)) (\<lambda>_. io_return ()))
       (\<lambda>_. io_return (Some a))))))"

text \<open>The call every component makes: default sink, 300 seconds, the monotonic clock.\<close>

definition emit_alert ::
    "'e ops \<Rightarrow> environ \<Rightarrow> string \<Rightarrow> string \<Rightarrow> string \<Rightarrow> string \<Rightarrow> pydict \<Rightarrow> ('e, security_alert option) io" where
  "emit_alert X osenv = emit_security_alert X (default_send X osenv) 300 None"

section \<open>Lemmas\<close>

text \<open>The deduplication and the record of the send, as one step.\<close>

definition alert_gate :: "security_alert \<Rightarrow> rat \<Rightarrow> rat \<Rightarrow> ('e, bool) io" where
  "alert_gate a window now =
     io_bind (dedup_pass a window now) (\<lambda>pass.
     if pass then io_bind (io_log (Alert a now)) (\<lambda>_. io_return True) else io_return False)"

lemma alert_gate_eq:
  "alert_gate a window now w =
     (if \<not> is_recovery (alert_condition a) \<and>
         (\<exists>s. last_sent w (alert_key (alert_component a) (alert_condition a)) = Some s \<and> now - s < window)
      then (Inr False, w)
      else (Inr True, w\<lparr>last_sent := (last_sent w)(alert_key (alert_component a) (alert_condition a) \<mapsto> now),
                        history := history w @ [Alert a now]\<rparr>))"
  by (simp add: alert_gate_def dedup_pass_def io_bind_def Let_def split: option.split)

lemma emit_security_alert_eq:
  "emit_security_alert X send window now condition severity component msg metadata =
     io_bind (io_call (op_now X)) (\<lambda>ts.
     io_bind (io_lift (Inr \<lparr>alert_condition = condition,
        alert_severity = (if severity \<in> set VALID_SEVERITIES then severity else ''warning''),
        alert_component = component, alert_message = msg, alert_metadata = metadata,
        alert_timestamp = isoformat ''T'' (DateTime (wall ts) (Some 0))\<rparr>)) (\<lambda>a.
     io_bind (case now of Some t \<Rightarrow> io_return t | None \<Rightarrow> io_call (op_monotonic X)) (\<lambda>t.
     io_bind (alert_gate a window t) (\<lambda>pass.
     if \<not> pass then io_return None
     else io_bind (io_try (send a) (\<lambda>_. io_return ())) (\<lambda>_. io_return (Some a))))))"
proof -
  have "io_bind (dedup_pass a window t) (\<lambda>pass. if \<not> pass then io_return None
      else io_bind (io_try (io_bind (io_log (Alert a t)) (\<lambda>_. send a)) (\<lambda>_. io_return ())) (\<lambda>_. io_return (Some a))) =
    io_bind (alert_gate a window t) (\<lambda>pass. if \<not> pass then io_return None
      else io_bind (io_try (send a) (\<lambda>_. io_return ())) (\<lambda>_. io_return (Some a)))" for a t
    unfolding alert_gate_def io_bind_assoc io_try_log
    by (intro arg_cong [of _ _ "io_bind (dedup_pass a window t)"] ext)
      (simp add: io_bind_assoc del: io_log_simp split: if_split)
  then show ?thesis by (simp only: emit_security_alert_def)
qed

text \<open>Reading the clocks does not fail.\<close>

definition clocks_ok :: "'e ops \<Rightarrow> bool" where
  "clocks_ok X \<longleftrightarrow> (\<forall>e. is_ok (fst (op_now X e)) \<and> is_ok (fst (op_monotonic X e)))"

context world_relation
begin

lemma keeps_default_send:
  assumes "\<And>t. keeps R (io_call (op_stdout X t))" and "\<And>p t. keeps R (io_call (op_append_file X p t))"
  shows "keeps R (default_send X osenv a)"
  by (auto simp: default_send_def stdout_send_def file_send_def assms intro!: keeps_rules split: option.split)

lemma keeps_emit_security_alert:
  assumes "keeps R (io_call (op_now X))" and "keeps R (io_call (op_monotonic X))"
    and "\<And>a t. keeps R (alert_gate a window t)" and "\<And>a. keeps R (send a)"
  shows "keeps R (emit_security_alert X send window now condition severity component msg metadata)"
  unfolding emit_security_alert_eq
  by (intro keeps_rules assms) (auto intro: keeps_rules assms split: option.split)

end

text \<open>The alert a call of \<open>emit_security_alert\<close> builds, at clock time \<open>ts\<close>.\<close>

definition built_alert ::
    "string \<Rightarrow> string \<Rightarrow> string \<Rightarrow> string \<Rightarrow> pydict \<Rightarrow> datetime \<Rightarrow> security_alert" where
  "built_alert condition severity component msg metadata ts =
     \<lparr>alert_condition = condition,
      alert_severity = (if severity \<in> set VALID_SEVERITIES then severity else ''warning''),
      alert_component = component, alert_message = msg, alert_metadata = metadata,
      alert_timestamp = isoformat ''T'' (DateTime (wall ts) (Some 0))\<rparr>"

lemma emit_security_alert_run:
  assumes "clocks_ok X"
  obtains ts t w1 where
    "last_sent w1 = last_sent w" "history w1 = history w"
    "emit_security_alert X send window now condition severity component msg metadata w =
      (let a = built_alert condition severity component msg metadata ts;
           (r, w2) = alert_gate a window t w1
       in if r = Inr True then (Inr (Some a), snd (io_try (send a) (\<lambda>_. io_return ()) w2))
          else (Inr None, w2))"
    "case now of Some t' \<Rightarrow> t = t' | None \<Rightarrow> \<exists>e. fst (op_monotonic X e) = Inr t"
proof -
  obtain ts e1 where e1: "op_now X (env w) = (Inr ts, e1)"
    using assms by (metis clocks_ok_def is_ok_iff prod.collapse)
  then have e1': "io_call (op_now X) w = (Inr ts, w\<lparr>env := e1\<rparr>)" by (simp add: io_call_def)
  obtain t e2 where e2: "(case now of Some t \<Rightarrow> io_return t | None \<Rightarrow> io_call (op_monotonic X)) (w\<lparr>env := e1\<rparr>)
      = (Inr t, w\<lparr>env := e2\<rparr>)"
    and t: "case now of Some t' \<Rightarrow> t = t' | None \<Rightarrow> \<exists>e. fst (op_monotonic X e) = Inr t"
  proof (cases now)
    case None
    obtain t e2 where "op_monotonic X e1 = (Inr t, e2)"
      using assms by (metis clocks_ok_def is_ok_iff prod.collapse)
    moreover from this have "\<exists>e. fst (op_monotonic X e) = Inr t" by (metis fst_conv)
    ultimately show ?thesis using None that [of t e2] by (simp add: io_call_def)
  qed (use that in auto)
  let ?a = "built_alert condition severity component msg metadata ts"
  obtain d w2 where d: "alert_gate ?a window t (w\<lparr>env := e2\<rparr>) = (Inr d, w2)"
  proof -
    have "is_ok (fst (alert_gate a window t v))" for a and v :: "'a world"
      by (simp add: alert_gate_eq)
    then have "\<exists>d. fst (alert_gate a window t v) = Inr d" for a and v :: "'a world"
      unfolding is_ok_iff .
    then show ?thesis using that by (metis prod.collapse)
  qed
  obtain w3 where caught: "io_try (send ?a) (\<lambda>_. io_return ()) w2 = (Inr (), w3)"
    by (cases "send ?a w2"; cases "fst (send ?a w2)") (auto simp: io_try_def)
  have run: "emit_security_alert X send window now condition severity component msg metadata w =
      (if d then (Inr (Some ?a), snd (io_try (send ?a) (\<lambda>_. io_return ()) w2)) else (Inr None, w2))"
    unfolding emit_security_alert_eq built_alert_def [symmetric]
    by (simp add: io_bind_step(1) e1' e2 d caught)
  show ?thesis
  proof (rule that [of "w\<lparr>env := e2\<rparr>" ts t])
    show "emit_security_alert X send window now condition severity component msg metadata w =
      (let a = ?a; (r, w2) = alert_gate a window t (w\<lparr>env := e2\<rparr>)
       in if r = Inr True then (Inr (Some a), snd (io_try (send a) (\<lambda>_. io_return ()) w2))
          else (Inr None, w2))"
      using run d by (simp add: Let_def)
  qed (use t in auto)
qed

lemma emit_total:
  assumes "clocks_ok X"
  shows "\<exists>r w'. emit_security_alert X send window now condition severity component msg metadata w = (Inr r, w')"
  by (rule emit_security_alert_run [OF assms, of w send window now condition severity component msg metadata])
    (simp add: Let_def split: prod.split)

section \<open>Spacing of alerts\<close>

definition entry_key :: "security_alert \<Rightarrow> string" where
  "entry_key a = alert_key (alert_component a) (alert_condition a)"

text \<open>When the last alert of a key was sent.\<close>

fun last_alert :: "string \<Rightarrow> effect list \<Rightarrow> rat option \<Rightarrow> rat option" where
  "last_alert key [] acc = acc"
| "last_alert key (Alert a t # h) acc = last_alert key h (if entry_key a = key then Some t else acc)"
| "last_alert key (_ # h) acc = last_alert key h acc"

lemma last_alert_append: "last_alert key (g @ h) acc = last_alert key h (last_alert key g acc)"
  by (induction key g acc rule: last_alert.induct) auto

text \<open>
  Between two alerts of one component and condition, the second not a recovery,
  at least \<open>window\<close> seconds passed on the clock the code reads.
\<close>

definition spaced :: "rat \<Rightarrow> effect list \<Rightarrow> bool" where
  "spaced window h \<longleftrightarrow>
     (\<forall>p a t q s. h = p @ Alert a t # q \<and> \<not> is_recovery (alert_condition a) \<and>
        last_alert (entry_key a) p None = Some s \<longrightarrow> window \<le> t - s)"

lemma spaced_Nil: "spaced window []"
  by (simp add: spaced_def)

lemma spaced_snoc:
  "spaced window (h @ [x]) \<longleftrightarrow> spaced window h \<and>
     (\<forall>a t s. x = Alert a t \<and> \<not> is_recovery (alert_condition a) \<and>
        last_alert (entry_key a) h None = Some s \<longrightarrow> window \<le> t - s)" (is "?l \<longleftrightarrow> ?r")
proof
  assume l: ?l
  have "window \<le> t - s" if "h = p @ Alert a t # q" "\<not> is_recovery (alert_condition a)"
    "last_alert (entry_key a) p None = Some s" for p a t q s
  proof -
    have "h @ [x] = p @ Alert a t # (q @ [x])" using that(1) by simp
    with l that(2,3) show ?thesis unfolding spaced_def by blast
  qed
  with l show ?r unfolding spaced_def by blast
next
  assume r: ?r
  show ?l unfolding spaced_def
  proof (intro allI impI, elim conjE)
    fix p a t q s
    assume h: "h @ [x] = p @ Alert a t # q" and a: "\<not> is_recovery (alert_condition a)"
      "last_alert (entry_key a) p None = Some s"
    show "window \<le> t - s"
    proof (cases q rule: rev_cases)
      case Nil
      with h a r show ?thesis by auto
    next
      case (snoc q' y)
      with h have "h = p @ Alert a t # q'" by (metis append.assoc append_Cons butlast_snoc)
      with a r show ?thesis unfolding spaced_def by blast
    qed
  qed
qed

text \<open>The invariant of the deduplication table.\<close>

definition dedup_inv :: "rat \<Rightarrow> 'e world \<Rightarrow> bool" where
  "dedup_inv window w \<longleftrightarrow>
     spaced window (history w) \<and> (\<forall>key. last_sent w key = last_alert key (history w) None)"

definition dedup_kept :: "rat \<Rightarrow> 'e world \<Rightarrow> 'e world \<Rightarrow> bool" where
  "dedup_kept window w w' \<longleftrightarrow> (dedup_inv window w \<longrightarrow> dedup_inv window w')"

interpretation dk: world_relation "dedup_kept window"
  by unfold_locales (auto simp: dedup_kept_def)

fun is_alert :: "effect \<Rightarrow> bool" where
  "is_alert (Alert a t) = True"
| "is_alert _ = False"

lemma keeps_call_dedup: "keeps (dedup_kept window) (io_call f)"
  by (auto simp: keeps_def dedup_kept_def dedup_inv_def io_call_def split: prod.split)

lemma keeps_log_dedup: "\<not> is_alert x \<Longrightarrow> keeps (dedup_kept window) (io_log x)"
  by (cases x) (auto simp: keeps_def dedup_kept_def dedup_inv_def spaced_snoc last_alert_append)

lemma keeps_alert_gate: "keeps (dedup_kept window) (alert_gate a window t)"
proof -
  have "dedup_inv window (w\<lparr>last_sent := (last_sent w)(entry_key a \<mapsto> t), history := history w @ [Alert a t]\<rparr>)"
    if "dedup_inv window w"
      "\<forall>s. last_sent w (entry_key a) = Some s \<longrightarrow> is_recovery (alert_condition a) \<or> window \<le> t - s"
    for w :: "'a world"
    using that by (auto simp: dedup_inv_def spaced_snoc last_alert_append)
  then show ?thesis
    by (auto simp: keeps_def dedup_kept_def alert_gate_eq not_less simp flip: entry_key_def)
qed

lemmas keeps_emit_dedup =
  dk.keeps_emit_security_alert [OF keeps_call_dedup keeps_call_dedup keeps_alert_gate
    dk.keeps_default_send [OF keeps_call_dedup keeps_call_dedup]]

lemma keeps_emit_alert_dedup: "keeps (dedup_kept 300) (emit_alert X osenv c s p m md)"
  unfolding emit_alert_def by (rule keeps_emit_dedup)

lemma clocks_ok_exists: "\<exists>X :: unit ops. clocks_ok X"
proof -
  have "clocks_ok (X\<lparr>op_now := \<lambda>e. (Inr (DateTime 0 None), e), op_monotonic := \<lambda>e. (Inr 0, e)\<rparr>)"
    for X :: "unit ops" by (simp add: clocks_ok_def)
  then show ?thesis by blast
qed

text \<open>The sinks touch neither the table nor the history.\<close>

definition same_vars :: "'e world \<Rightarrow> 'e world \<Rightarrow> bool" where
  "same_vars u v \<longleftrightarrow> last_sent v = last_sent u \<and> history v = history u \<and>
     last_nogroup_recreate_attempt v = last_nogroup_recreate_attempt u"

interpretation sv: world_relation same_vars
  by unfold_locales (auto simp: same_vars_def)

lemma keeps_call_same_vars: "keeps same_vars (io_call f)"
  by (auto simp: keeps_def same_vars_def io_call_def split: prod.split)

lemma quiet_default_send:
  "last_sent (snd (io_try (default_send X osenv a) (\<lambda>_. io_return ()) v)) = last_sent v"
  "history (snd (io_try (default_send X osenv a) (\<lambda>_. io_return ()) v)) = history v"
proof -
  have "keeps same_vars (io_try (default_send X osenv a) (\<lambda>_. io_return ()))"
    by (intro sv.keeps_rules sv.keeps_default_send keeps_call_same_vars)
  then have "same_vars v (snd (io_try (default_send X osenv a) (\<lambda>_. io_return ()) v))"
    by (simp add: keeps_def)
  then show "last_sent (snd (io_try (default_send X osenv a) (\<lambda>_. io_return ()) v)) = last_sent v"
    "history (snd (io_try (default_send X osenv a) (\<lambda>_. io_return ()) v)) = history v"
    by (simp_all add: same_vars_def)
qed

section \<open>Properties\<close>

text \<open>
  Emitting an alert never raises, whatever the sink does: as long as the
  clocks can be read, the call returns the alert or \<open>None\<close>.
\<close>

theorem emit_security_alert_returns:
  assumes "clocks_ok X"
  shows "\<exists>r w'. emit_security_alert X send window now condition severity component msg metadata w = (Inr r, w')"
  using assms by (rule emit_total)

theorem emit_security_alert_returns_witness:
  "\<exists>X :: unit ops. clocks_ok X \<and>
     (\<exists>r w'. emit_security_alert X (\<lambda>_. io_lift (raise (OtherError ''OSError'') ''disk full'')) 300 None
        ''integrity_verification_failed'' ''critical'' ''audit-worker'' ''m'' []
        \<lparr>env = (), last_sent = Map.empty, last_nogroup_recreate_attempt = None, history = []\<rparr> = (Inr r, w'))"
proof -
  obtain X :: "unit ops" where c: "clocks_ok X" using clocks_ok_exists by blast
  show ?thesis
    by (rule exI [of _ X]) (intro conjI c emit_security_alert_returns [OF c])
qed

text \<open>
  Recovery alerts are never suppressed, and any other alert is suppressed
  exactly when one of the same component and condition was sent less than the
  window before: the call returns \<open>None\<close> and leaves table and history alone,
  or it records the clock reading and the alert.
\<close>

theorem emit_security_alert_dedup:
  assumes "clocks_ok X"
    and "emit_security_alert X (default_send X osenv) window (Some t) condition severity component msg metadata w = (r, w')"
  shows "if \<not> is_recovery condition \<and>
        (\<exists>s. last_sent w (alert_key component condition) = Some s \<and> t - s < window)
    then r = Inr None \<and> last_sent w' = last_sent w \<and> history w' = history w
    else \<exists>ts. r = Inr (Some (built_alert condition severity component msg metadata ts)) \<and>
      last_sent w' = (last_sent w)(alert_key component condition \<mapsto> t) \<and>
      history w' = history w @ [Alert (built_alert condition severity component msg metadata ts) t]"
proof (rule emit_security_alert_run [OF assms(1), of w "default_send X osenv" window "Some t"
      condition severity component msg metadata])
  fix ts t' w1
  let ?a = "built_alert condition severity component msg metadata ts"
  assume w1: "last_sent w1 = last_sent w" "history w1 = history w"
    and run: "emit_security_alert X (default_send X osenv) window (Some t) condition severity component msg metadata w =
      (let a = ?a; (r, w2) = alert_gate a window t' w1
       in if r = Inr True then (Inr (Some a), snd (io_try (default_send X osenv a) (\<lambda>_. io_return ()) w2))
          else (Inr None, w2))"
    and t: "case Some t of Some t'' \<Rightarrow> t' = t'' | None \<Rightarrow> \<exists>e. fst (op_monotonic X e) = Inr t'"
  have key: "alert_component ?a = component" "alert_condition ?a = condition"
    by (simp_all add: built_alert_def)
  note sent = quiet_default_send [of X osenv]
  show ?thesis
  proof (cases "\<not> is_recovery condition \<and>
      (\<exists>s. last_sent w (alert_key component condition) = Some s \<and> t - s < window)")
    case True
    then have "alert_gate ?a window t w1 = (Inr False, w1)"
      using w1 by (auto simp: alert_gate_eq key)
    then show ?thesis using run t assms(2) True w1 by (simp add: Let_def)
  next
    case False
    then have "alert_gate ?a window t w1 = (Inr True, w1\<lparr>last_sent := (last_sent w)(alert_key component condition \<mapsto> t),
        history := history w @ [Alert ?a t]\<rparr>)"
      using w1 by (auto simp: alert_gate_eq key)
    then show ?thesis using run t assms(2) False sent [of ?a] by (auto simp: Let_def)
  qed
qed

theorem emit_security_alert_dedup_witness:
  "\<exists>(X :: unit ops) r w'. clocks_ok X \<and>
     emit_security_alert X (default_send X Map.empty) 300 (Some 120) ''c'' ''info'' ''p'' ''m'' []
        \<lparr>env = (), last_sent = [alert_key ''p'' ''c'' \<mapsto> 100], last_nogroup_recreate_attempt = None,
         history = []\<rparr> = (r, w') \<and> r = Inr None \<and> history w' = []"
proof -
  obtain X :: "unit ops" where c: "clocks_ok X" using clocks_ok_exists by blast
  let ?w = "\<lparr>env = (), last_sent = [alert_key ''p'' ''c'' \<mapsto> 100], last_nogroup_recreate_attempt = None,
         history = []\<rparr>"
  obtain r w' where run: "emit_security_alert X (default_send X Map.empty) 300 (Some 120) ''c'' ''info'' ''p'' ''m'' [] ?w
      = (r, w')" by fastforce
  have "\<not> is_recovery ''c''" by (simp add: is_recovery_def endswith_def)
  with emit_security_alert_dedup [OF c run] have "r = Inr None \<and> history w' = []" by simp
  with c run show ?thesis by blast
qed

end
