(* ===== verification/Sinks.thy ===== *)
theory Sinks
  imports Signing Record_Integrity Security_Alerts
begin

text \<open>
  \<open>consumers/processor.py\<close>, \<open>consumers/sink.py\<close> and \<open>consumers/quarantine.py\<close>:
  decoding and classifying one stream entry, and the two idempotent writers.
\<close>

section \<open>Processor\<close>

definition payload_get :: "pyval \<Rightarrow> string \<Rightarrow> pyval res" where
  "payload_get v k =
     (case v of PDict d \<Rightarrow> Inr (dict_get d k)
      | _ \<Rightarrow> raise (OtherError ''AttributeError'') ''object has no attribute get'')"

definition process_event :: "string option \<Rightarrow> pydict res" where
  "process_event raw_event =
     bind_res (json_loads raw_event) (\<lambda>event.
     bind_res (payload_get event ''user_id'') (\<lambda>u.
     bind_res (payload_get event ''event_type'') (\<lambda>t.
     bind_res (payload_get event ''decision'') (\<lambda>d.
     Inr [(''user'', u), (''event'', t), (''decision'', d)]))))"

definition parse_audit_event ::
    "pydantic \<Rightarrow> string \<Rightarrow> datetime \<Rightarrow> string option \<Rightarrow> audit_event res" where
  "parse_audit_event P uuid now raw_event =
     bind_res (json_loads raw_event) (\<lambda>payload.
     case payload of PDict d \<Rightarrow> audit_event_init P uuid now d
     | _ \<Rightarrow> raise TypeError ''argument after ** must be a mapping'')"

definition classify_event_integrity ::
    "string \<Rightarrow> string option \<Rightarrow> string option \<Rightarrow> string \<Rightarrow> string" where
  "classify_event_integrity sv signature data secret =
     (if signature = None \<or> signature = Some [] then ''unsigned''
      else if verify_audit_event (PStr sv) data (of_opt signature) secret then ''valid''
      else ''invalid'')"

section \<open>Sink\<close>

text \<open>
  The row \<open>Sink.write\<close> builds from the dumped event and the classification the
  worker adds to it (so every key the source reads is present).
\<close>

definition sink_row :: "config \<Rightarrow> audit_event \<Rightarrow> string \<Rightarrow> audit_row res" where
  "sink_row cfg ev status =
     bind_res (require_record_integrity_key cfg) (\<lambda>(key, key_id).
     bind_res (utc_naive (timestamp ev)) (\<lambda>ts.
     let row = \<lparr>event_id = event_id ev, timestamp = ts, service = service ev,
           event_type = event_type ev, user_id = user_id ev, organization_id = organization_id ev,
           tenant_scope = tenant_scope ev, action = action ev, resource = resource ev,
           decision = decision ev, reason = reason ev, trace_id = trace_id ev,
           event_context = event_context ev, integrity_status = status,
           record_integrity_hash = None, integrity_key_id = None, created_at = None\<rparr>
     in bind_res (compute_audit_event_hash (event_fields row) key (Some key_id)) (\<lambda>h.
        Inr (row\<lparr>record_integrity_hash := Some h, integrity_key_id := Some key_id\<rparr>))))"

definition sink_write :: "'e ops \<Rightarrow> config \<Rightarrow> audit_event \<Rightarrow> string \<Rightarrow> ('e, bool) io" where
  "sink_write X cfg ev status =
     io_bind (io_lift (sink_row cfg ev status)) (\<lambda>row.
     io_try
       (io_bind (io_call (op_commit_event X row)) (\<lambda>_.
        io_bind (io_log (EventCommit row False)) (\<lambda>_. io_return True)))
       (\<lambda>e. if kind e = IntegrityError
             then io_bind (io_call (op_rollback X)) (\<lambda>_.
                  io_bind (io_log (EventCommit row True)) (\<lambda>_. io_return True))
             else io_lift (Inl e)))"

section \<open>Quarantine\<close>

definition classify_poison_reason :: "string option \<Rightarrow> string \<times> string option \<times> string option" where
  "classify_poison_reason raw =
     (case raw of None \<Rightarrow> (''malformed'', None, Some ''MissingDataField'')
      | Some _ \<Rightarrow>
          (case json_loads raw of
             Inl e \<Rightarrow> (''malformed'', None, Some (type_name (kind e)))
           | Inr (PDict d) \<Rightarrow>
               (''persistence_exhausted'',
                (case dict_get d ''service'' of PStr s \<Rightarrow> Some s | _ \<Rightarrow> None), None)
           | Inr _ \<Rightarrow> (''malformed'', None, Some ''NotAJsonObject'')))"

definition quarantine_sink_row ::
    "config \<Rightarrow> string \<Rightarrow> stream_fields \<Rightarrow> int \<Rightarrow> quarantine_row res" where
  "quarantine_sink_row cfg message_id fs delivery =
     bind_res (require_record_integrity_key cfg) (\<lambda>(key, key_id).
     let raw = map_of fs ''data'';
         sig = map_of fs ''sig'';
         (category, sv, detail) = classify_poison_reason raw;
         row = \<lparr>stream_message_id = message_id, raw_data = raw, raw_signature = sig, q_service = sv,
           failure_category = category, failure_detail = detail, delivery_attempts = delivery,
           q_record_integrity_hash = None, q_integrity_key_id = None, quarantined_at = None\<rparr>
     in bind_res (compute_quarantine_record_hash (quarantine_fields row) key (Some key_id)) (\<lambda>h.
        Inr (row\<lparr>q_record_integrity_hash := Some h, q_integrity_key_id := Some key_id\<rparr>)))"

definition quarantine_write ::
    "'e ops \<Rightarrow> environ \<Rightarrow> config \<Rightarrow> string \<Rightarrow> stream_fields \<Rightarrow> int \<Rightarrow> ('e, bool) io" where
  "quarantine_write X osenv cfg message_id fs delivery =
     io_bind (io_lift (quarantine_sink_row cfg message_id fs delivery)) (\<lambda>row.
     io_bind (io_try
       (io_bind (io_call (op_commit_quarantine X row)) (\<lambda>_. io_log (QuarantineCommit row False)))
       (\<lambda>e. if kind e = IntegrityError
             then io_bind (io_call (op_rollback X)) (\<lambda>_. io_log (QuarantineCommit row True))
             else io_lift (Inl e))) (\<lambda>_.
     io_bind (emit_alert X osenv ''poison_event_quarantined'' ''warning'' ''audit-worker''
        ''A stream event was quarantined instead of persisted as canonical audit evidence''
        [(''failure_category'', PStr (failure_category row)), (''service'', of_opt (q_service row)),
         (''delivery_attempts'', PInt (delivery_attempts row))]) (\<lambda>_.
     io_return True)))"

section \<open>What the database promises\<close>

text \<open>The rows of the two tables in an environment, by primary key.\<close>

record 'e store_view =
  event_of :: "'e \<Rightarrow> string \<rightharpoonup> audit_row"
  quarantine_of :: "'e \<Rightarrow> string \<rightharpoonup> quarantine_row"

definition store_le :: "'e store_view \<Rightarrow> 'e \<Rightarrow> 'e \<Rightarrow> bool" where
  "store_le V e e' \<longleftrightarrow> event_of V e \<subseteq>\<^sub>m event_of V e' \<and> quarantine_of V e \<subseteq>\<^sub>m quarantine_of V e'"

text \<open>No operation of the worker's environment changes or removes a stored row.\<close>

definition append_only :: "'e ops \<Rightarrow> 'e store_view \<Rightarrow> bool" where
  "append_only X V \<longleftrightarrow>
     (\<forall>a b e. store_le V e (snd (op_xgroup_create X a b e))) \<and>
     (\<forall>a b c m n e. store_le V e (snd (op_xreadgroup X a b c m n e))) \<and>
     (\<forall>a b c e. store_le V e (snd (op_xack X a b c e))) \<and>
     (\<forall>a b m n e. store_le V e (snd (op_xpending_range X a b m n e))) \<and>
     (\<forall>a b c e. store_le V e (snd (op_xrange X a b c e))) \<and>
     (\<forall>a b c m ids e. store_le V e (snd (op_xclaim X a b c m ids e))) \<and>
     (\<forall>r e. store_le V e (snd (op_commit_event X r e))) \<and>
     (\<forall>r e. store_le V e (snd (op_commit_quarantine X r e))) \<and>
     (\<forall>e. store_le V e (snd (op_open_session X e))) \<and>
     (\<forall>e. store_le V e (snd (op_rollback X e))) \<and>
     (\<forall>e. store_le V e (snd (op_close_session X e))) \<and>
     (\<forall>e. store_le V e (snd (op_monotonic X e))) \<and>
     (\<forall>e. store_le V e (snd (op_now X e))) \<and>
     (\<forall>e. store_le V e (snd (op_uuid4 X e))) \<and>
     (\<forall>t e. store_le V e (snd (op_stdout X t e))) \<and>
     (\<forall>p t e. store_le V e (snd (op_append_file X p t e))) \<and>
     (\<forall>t e. store_le V e (snd (op_sleep X t e)))"

text \<open>
  How the inserted row is found in the table: the timestamp rounded to the
  second, the context with its items in any order, \<open>created_at\<close> filled in.
\<close>

definition stored_as :: "audit_row \<Rightarrow> audit_row \<Rightarrow> bool" where
  "stored_as row r \<longleftrightarrow>
     (\<exists>c ctx. (\<forall>d. event_context row = PDict d \<longrightarrow> context_read_as (PDict d) ctx) \<and>
        r = row\<lparr>timestamp := DateTime (mysql_round (wall (timestamp row))) None,
              event_context := ctx, created_at := Some c\<rparr>)"

definition quarantine_stored_as :: "quarantine_row \<Rightarrow> quarantine_row \<Rightarrow> bool" where
  "quarantine_stored_as row r \<longleftrightarrow> (\<exists>c. r = row\<lparr>quarantined_at := Some c\<rparr>)"

text \<open>
  A commit that returns has stored the row; \<open>IntegrityError\<close> means that the
  primary key is taken.
\<close>

definition commits_ok :: "'e ops \<Rightarrow> 'e store_view \<Rightarrow> bool" where
  "commits_ok X V \<longleftrightarrow>
     (\<forall>row e e'. op_commit_event X row e = (Inr (), e') \<longrightarrow>
        (\<exists>r. event_of V e' (event_id row) = Some r \<and> stored_as row r)) \<and>
     (\<forall>row e e' x. op_commit_event X row e = (Inl x, e') \<and> kind x = IntegrityError \<longrightarrow>
        event_of V e (event_id row) \<noteq> None) \<and>
     (\<forall>row e e'. op_commit_quarantine X row e = (Inr (), e') \<longrightarrow>
        (\<exists>r. quarantine_of V e' (stream_message_id row) = Some r \<and> quarantine_stored_as row r)) \<and>
     (\<forall>row e e' x. op_commit_quarantine X row e = (Inl x, e') \<and> kind x = IntegrityError \<longrightarrow>
        quarantine_of V e (stream_message_id row) \<noteq> None)"

definition store_ok :: "'e ops \<Rightarrow> 'e store_view \<Rightarrow> bool" where
  "store_ok X V \<longleftrightarrow> append_only X V \<and> commits_ok X V"

definition rows_kept :: "'e store_view \<Rightarrow> 'e world \<Rightarrow> 'e world \<Rightarrow> bool" where
  "rows_kept V w w' \<longleftrightarrow> store_le V (env w) (env w')"

interpretation rk: world_relation "rows_kept V"
  by unfold_locales (auto simp: rows_kept_def store_le_def intro: map_le_trans)

lemma keeps_call_rows: "(\<And>e. store_le V e (snd (f e))) \<Longrightarrow> keeps (rows_kept V) (io_call f)"
  by (auto simp: keeps_def rows_kept_def io_call_def split: prod.split) (metis snd_conv)

lemma keeps_log_rows: "keeps (rows_kept V) (io_log x)"
  by (simp add: keeps_def rows_kept_def store_le_def)

lemma keeps_alert_gate_rows: "keeps (rows_kept V) (alert_gate a window t)"
  by (simp add: keeps_def rows_kept_def store_le_def alert_gate_eq)

lemma append_only_keeps:
  assumes "append_only X V"
  shows "keeps (rows_kept V) (io_call (op_xgroup_create X a b))"
    "keeps (rows_kept V) (io_call (op_xreadgroup X a b c m n))"
    "keeps (rows_kept V) (io_call (op_xack X a b c))"
    "keeps (rows_kept V) (io_call (op_xpending_range X a b m n))"
    "keeps (rows_kept V) (io_call (op_xrange X a b c))"
    "keeps (rows_kept V) (io_call (op_xclaim X a b c m ids))"
    "keeps (rows_kept V) (io_call (op_commit_event X r))"
    "keeps (rows_kept V) (io_call (op_commit_quarantine X q))"
    "keeps (rows_kept V) (io_call (op_open_session X))"
    "keeps (rows_kept V) (io_call (op_rollback X))"
    "keeps (rows_kept V) (io_call (op_close_session X))"
    "keeps (rows_kept V) (io_call (op_monotonic X))"
    "keeps (rows_kept V) (io_call (op_now X))"
    "keeps (rows_kept V) (io_call (op_uuid4 X))"
    "keeps (rows_kept V) (io_call (op_stdout X t))"
    "keeps (rows_kept V) (io_call (op_append_file X p t))"
    "keeps (rows_kept V) (io_call (op_sleep X s))"
  using assms by (auto simp: append_only_def intro!: keeps_call_rows)

section \<open>A database and a stream in memory\<close>

text \<open>
  A concrete environment: one stream with its consumer group, the two tables
  as association lists, a clock that stands still.  It meets the promises
  above, and the examples of the development run on it.
\<close>

record mem =
  mem_events :: "(string \<times> audit_row) list"
  mem_quarantined :: "(string \<times> quarantine_row) list"
  mem_entries :: "stream_entry list"
  mem_new :: "stream_entry list"
  mem_pending :: "(string \<times> int) list"
  mem_group :: bool
  mem_out :: "string list"

definition mem_view :: "mem store_view" where
  "mem_view = \<lparr>event_of = (\<lambda>e. map_of (mem_events e)), quarantine_of = (\<lambda>e. map_of (mem_quarantined e))\<rparr>"

definition mem_nogroup :: "'a res" where
  "mem_nogroup = raise ResponseError ''NOGROUP No such key or consumer group''"

definition mem_ops :: "mem ops" where
  "mem_ops =
     \<lparr>op_xgroup_create = (\<lambda>s g e. if mem_group e then (raise ResponseError ''BUSYGROUP'', e)
        else (Inr (), e\<lparr>mem_group := True, mem_new := mem_entries e\<rparr>)),
      op_xreadgroup = (\<lambda>g c s n b e. if \<not> mem_group e then (mem_nogroup, e)
        else let ms = take (nat n) (mem_new e)
             in (Inr (if ms = [] then [] else [(s, ms)]),
                 e\<lparr>mem_new := drop (nat n) (mem_new e),
                   mem_pending := mem_pending e @ map (\<lambda>m. (fst m, 1)) ms\<rparr>)),
      op_xack = (\<lambda>s g i e. (Inr (), e\<lparr>mem_pending := filter (\<lambda>p. fst p \<noteq> i) (mem_pending e)\<rparr>)),
      op_xpending_range = (\<lambda>s g n t e. if \<not> mem_group e then (mem_nogroup, e)
        else (Inr (take (nat n) (mem_pending e)), e)),
      op_xrange = (\<lambda>s lo hi e. (Inr (filter (\<lambda>m. fst m = lo) (mem_entries e)), e)),
      op_xclaim = (\<lambda>s g c t ids e.
        (Inr (filter (\<lambda>m. fst m \<in> set ids) (mem_entries e)),
         e\<lparr>mem_pending := map (\<lambda>p. if fst p \<in> set ids then (fst p, snd p + 1) else p) (mem_pending e)\<rparr>)),
      op_open_session = (\<lambda>e. (Inr (), e)),
      op_commit_event = (\<lambda>r e. if map_of (mem_events e) (event_id r) \<noteq> None
        then (raise IntegrityError ''Duplicate entry'', e)
        else (Inr (), e\<lparr>mem_events := (event_id r,
          r\<lparr>timestamp := DateTime (mysql_round (wall (timestamp r))) None,
            created_at := Some (DateTime 0 None)\<rparr>) # mem_events e\<rparr>)),
      op_commit_quarantine = (\<lambda>r e. if map_of (mem_quarantined e) (stream_message_id r) \<noteq> None
        then (raise IntegrityError ''Duplicate entry'', e)
        else (Inr (), e\<lparr>mem_quarantined := (stream_message_id r,
          r\<lparr>quarantined_at := Some (DateTime 0 None)\<rparr>) # mem_quarantined e\<rparr>)),
      op_rollback = (\<lambda>e. (Inr (), e)),
      op_close_session = (\<lambda>e. (Inr (), e)),
      op_monotonic = (\<lambda>e. (Inr 1000, e)),
      op_now = (\<lambda>e. (Inr (DateTime 63870000000000000 None), e)),
      op_uuid4 = (\<lambda>e. (Inr ''00000000-0000-4000-8000-000000000000'', e)),
      op_stdout = (\<lambda>t e. (Inr (), e\<lparr>mem_out := mem_out e @ [t]\<rparr>)),
      op_append_file = (\<lambda>p t e. (Inr (), e\<lparr>mem_out := mem_out e @ [t]\<rparr>)),
      op_sleep = (\<lambda>t e. (Inr (), e))\<rparr>"

definition mem_init :: "stream_entry list \<Rightarrow> mem" where
  "mem_init ms = \<lparr>mem_events = [], mem_quarantined = [], mem_entries = ms, mem_new = ms,
     mem_pending = [], mem_group = False, mem_out = []\<rparr>"

definition world_init :: "'e \<Rightarrow> 'e world" where
  "world_init e = \<lparr>env = e, last_sent = Map.empty, last_nogroup_recreate_attempt = None, history = []\<rparr>"

lemma mem_append_only: "append_only mem_ops mem_view"
  unfolding append_only_def store_le_def
  by (intro conjI allI) (auto simp: mem_ops_def mem_view_def mem_nogroup_def map_le_def Let_def)

lemma mem_commits_ok: "commits_ok mem_ops mem_view"
proof -
  have "\<exists>r. event_of mem_view e' (event_id row) = Some r \<and> stored_as row r"
    if "op_commit_event mem_ops row e = (Inr (), e')" for row e e'
  proof -
    have "context_read_as (PDict d) (PDict d)" for d
      by (auto simp: context_read_as_def intro: reordered.refl)
    then have "stored_as row (row\<lparr>timestamp := DateTime (mysql_round (wall (timestamp row))) None,
        created_at := Some (DateTime 0 None)\<rparr>)"
      unfolding stored_as_def
      by (intro exI [of _ "DateTime 0 None"] exI [of _ "event_context row"]) auto
    with that show ?thesis by (auto simp: mem_ops_def mem_view_def split: if_splits)
  qed
  moreover have "event_of mem_view e (event_id row) \<noteq> None"
    if "op_commit_event mem_ops row e = (Inl x, e')" for row e e' x
    using that by (auto simp: mem_ops_def mem_view_def split: if_splits)
  moreover have "\<exists>r. quarantine_of mem_view e' (stream_message_id row) = Some r \<and> quarantine_stored_as row r"
    if "op_commit_quarantine mem_ops row e = (Inr (), e')" for row e e'
    using that by (auto simp: mem_ops_def mem_view_def quarantine_stored_as_def split: if_splits)
  moreover have "quarantine_of mem_view e (stream_message_id row) \<noteq> None"
    if "op_commit_quarantine mem_ops row e = (Inl x, e')" for row e e' x
    using that by (auto simp: mem_ops_def mem_view_def split: if_splits)
  ultimately show ?thesis unfolding commits_ok_def by blast
qed

lemma mem_store_ok: "store_ok mem_ops mem_view"
  by (simp add: store_ok_def mem_append_only mem_commits_ok)

section \<open>The contract both writers keep\<close>

text \<open>
  A writer prepares a row and commits it.  When it returns at all, it returns
  true and a row with the prepared key is in the table; rows stay in the table.
\<close>

locale durable_writer =
  fixes good :: bool
    and prepare :: "'i \<Rightarrow> 'row res"
    and store_row :: "'i \<Rightarrow> ('e, bool) io"
    and present :: "'e \<Rightarrow> 'row \<Rightarrow> bool"
  assumes write_stores: "good \<Longrightarrow> store_row i w = (Inr b, w') \<Longrightarrow> b \<and> (\<exists>r. prepare i = Inr r \<and> present (env w') r)"
    and write_keeps: "good \<Longrightarrow> present (env w) r \<Longrightarrow> store_row i w = (x, w') \<Longrightarrow> present (env w') r"
begin

lemma each_keeps:
  assumes good and "present (env w) r" and "io_each store_row is w = (x, w')"
  shows "present (env w') r"
  using assms(2,3)
proof (induction "is" arbitrary: w)
  case (Cons i js)
  obtain y w1 where w1: "store_row i w = (y, w1)" by fastforce
  from write_keeps [OF assms(1) Cons.prems(1) this] have "present (env w1) r" .
  with Cons.IH [of w1] Cons.prems(2) w1 show ?case by (cases y) (auto simp: io_bind_step)
qed simp

lemma each_stores:
  assumes good and "io_each store_row is w = (Inr (), w')" and "i \<in> set is"
  shows "\<exists>r. prepare i = Inr r \<and> present (env w') r"
  using assms(2,3)
proof (induction "is" arbitrary: w)
  case (Cons j js)
  from Cons.prems(1) obtain b w1 where w1: "store_row j w = (Inr b, w1)" "io_each store_row js w1 = (Inr (), w')"
    by (auto simp: io_bind_Inr)
  from write_stores [OF assms(1) w1(1)] obtain r where r: "prepare j = Inr r" "present (env w1) r" by blast
  from each_keeps [OF assms(1) r(2) w1(2)] r(1) Cons.IH [OF w1(2)] Cons.prems(2)
  show ?case by auto
qed simp

end

lemma sink_write_cases:
  assumes "sink_write X cfg ev status w = (r, w')"
  obtains (bad_row) e where "sink_row cfg ev status = Inl e" "r = Inl e" "w' = w"
  | (inserted) row e' where "sink_row cfg ev status = Inr row"
      "op_commit_event X row (env w) = (Inr (), e')" "r = Inr True"
      "w' = w\<lparr>env := e', history := history w @ [EventCommit row False]\<rparr>"
  | (duplicate) row x e1 e' where "sink_row cfg ev status = Inr row"
      "op_commit_event X row (env w) = (Inl x, e1)" "kind x = IntegrityError" "op_rollback X e1 = (Inr (), e')"
      "r = Inr True" "w' = w\<lparr>env := e', history := history w @ [EventCommit row True]\<rparr>"
  | (unrolled) row x e1 y e' where "sink_row cfg ev status = Inr row"
      "op_commit_event X row (env w) = (Inl x, e1)" "kind x = IntegrityError" "op_rollback X e1 = (Inl y, e')"
      "r = Inl y" "w' = w\<lparr>env := e'\<rparr>"
  | (failed) row x e' where "sink_row cfg ev status = Inr row"
      "op_commit_event X row (env w) = (Inl x, e')" "kind x \<noteq> IntegrityError" "r = Inl x"
      "w' = w\<lparr>env := e'\<rparr>"
proof (cases "sink_row cfg ev status")
  case (Inl e)
  then show ?thesis using assms bad_row by (simp add: sink_write_def)
next
  case (Inr row)
  obtain x e' where c: "op_commit_event X row (env w) = (x, e')" by fastforce
  show ?thesis
  proof (cases x)
    case (Inl y)
    obtain z e2 where rb: "op_rollback X e' = (z, e2)" by fastforce
    show ?thesis
    proof (cases "kind y = IntegrityError")
      case True
      with assms Inr c Inl rb show ?thesis
        using duplicate [of row y e' e2] unrolled [of row y e' _ e2]
        by (cases z) (simp_all add: sink_write_def io_try_def io_bind_def io_call_def)
    next
      case False
      with assms Inr c Inl show ?thesis
        using failed [of row y e'] by (simp add: sink_write_def io_try_def io_bind_def io_call_def)
    qed
  next
    case (Inr u)
    with assms \<open>sink_row cfg ev status = Inr row\<close> c show ?thesis
      using inserted [of row e'] by (simp add: sink_write_def io_try_def io_bind_def io_call_def)
  qed
qed

text \<open>The quarantine writer up to its alert.\<close>

definition quarantine_commit :: "'e ops \<Rightarrow> quarantine_row \<Rightarrow> ('e, unit) io" where
  "quarantine_commit X row =
     io_try (io_bind (io_call (op_commit_quarantine X row)) (\<lambda>_. io_log (QuarantineCommit row False)))
       (\<lambda>e. if kind e = IntegrityError
             then io_bind (io_call (op_rollback X)) (\<lambda>_. io_log (QuarantineCommit row True))
             else io_lift (Inl e))"

lemma quarantine_commit_cases:
  assumes "quarantine_commit X row w = (r, w')"
  obtains (inserted) e' where "op_commit_quarantine X row (env w) = (Inr (), e')" "r = Inr ()"
      "w' = w\<lparr>env := e', history := history w @ [QuarantineCommit row False]\<rparr>"
  | (duplicate) x e1 e' where "op_commit_quarantine X row (env w) = (Inl x, e1)" "kind x = IntegrityError"
      "op_rollback X e1 = (Inr (), e')" "r = Inr ()"
      "w' = w\<lparr>env := e', history := history w @ [QuarantineCommit row True]\<rparr>"
  | (unrolled) x e1 y e' where "op_commit_quarantine X row (env w) = (Inl x, e1)" "kind x = IntegrityError"
      "op_rollback X e1 = (Inl y, e')" "r = Inl y" "w' = w\<lparr>env := e'\<rparr>"
  | (failed) x e' where "op_commit_quarantine X row (env w) = (Inl x, e')" "kind x \<noteq> IntegrityError"
      "r = Inl x" "w' = w\<lparr>env := e'\<rparr>"
proof -
  obtain x e' where c: "op_commit_quarantine X row (env w) = (x, e')" by fastforce
  show ?thesis
  proof (cases x)
    case (Inl y)
    obtain z e2 where rb: "op_rollback X e' = (z, e2)" by fastforce
    show ?thesis
    proof (cases "kind y = IntegrityError")
      case True
      with c Inl rb have "quarantine_commit X row w = (case z of Inl f \<Rightarrow> (Inl f, w\<lparr>env := e2\<rparr>)
          | Inr _ \<Rightarrow> (Inr (), w\<lparr>env := e2, history := history w @ [QuarantineCommit row True]\<rparr>))"
        by (cases z) (simp_all add: quarantine_commit_def io_try_def io_bind_def io_call_def)
      note run = this [unfolded assms]
      show ?thesis
      proof (cases z)
        case (Inl f)
        with run rb c \<open>x = Inl y\<close> True show ?thesis by (intro unrolled [of y e' f e2]) simp_all
      next
        case (Inr u)
        with run rb c Inl True show ?thesis by (intro duplicate [of y e' e2]) simp_all
      qed
    next
      case False
      with assms c Inl show ?thesis
        by (intro failed [of y e']) (auto simp: quarantine_commit_def io_try_def io_bind_def io_call_def)
    qed
  next
    case (Inr u)
    with assms c show ?thesis
      by (intro inserted [of e']) (auto simp: quarantine_commit_def io_try_def io_bind_def io_call_def)
  qed
qed

definition quarantine_alert :: "'e ops \<Rightarrow> environ \<Rightarrow> quarantine_row \<Rightarrow> ('e, security_alert option) io" where
  "quarantine_alert X osenv row =
     emit_alert X osenv ''poison_event_quarantined'' ''warning'' ''audit-worker''
        ''A stream event was quarantined instead of persisted as canonical audit evidence''
        [(''failure_category'', PStr (failure_category row)), (''service'', of_opt (q_service row)),
         (''delivery_attempts'', PInt (delivery_attempts row))]"

lemma quarantine_write_eq:
  "quarantine_write X osenv cfg message_id fs delivery =
     io_bind (io_lift (quarantine_sink_row cfg message_id fs delivery)) (\<lambda>row.
     io_bind (quarantine_commit X row) (\<lambda>_.
     io_bind (quarantine_alert X osenv row) (\<lambda>_. io_return True)))"
  by (simp add: quarantine_write_def quarantine_commit_def quarantine_alert_def)

lemma keeps_emit_alert_rows:
  assumes "append_only X V"
  shows "keeps (rows_kept V) (emit_alert X osenv c s p m md)"
  unfolding emit_alert_def
  by (intro rk.keeps_emit_security_alert rk.keeps_default_send append_only_keeps assms keeps_alert_gate_rows)

lemma keeps_sink_write_rows:
  assumes "append_only X V"
  shows "keeps (rows_kept V) (sink_write X cfg ev status)"
  unfolding sink_write_def by (intro rk.keeps_rules append_only_keeps assms keeps_log_rows)

lemma keeps_quarantine_commit_rows:
  assumes "append_only X V"
  shows "keeps (rows_kept V) (quarantine_commit X row)"
  unfolding quarantine_commit_def by (intro rk.keeps_rules append_only_keeps assms keeps_log_rows)

lemma keeps_quarantine_write_rows:
  assumes "append_only X V"
  shows "keeps (rows_kept V) (quarantine_write X osenv cfg message_id fs delivery)"
  unfolding quarantine_write_eq quarantine_alert_def
  by (intro rk.keeps_rules keeps_quarantine_commit_rows keeps_emit_alert_rows assms)

lemma rows_kept_events: "rows_kept V w w' \<Longrightarrow> event_of V (env w) k = Some r \<Longrightarrow> event_of V (env w') k = Some r"
  by (metis domI map_le_def rows_kept_def store_le_def)

lemma rows_kept_quarantine:
  "rows_kept V w w' \<Longrightarrow> quarantine_of V (env w) k = Some r \<Longrightarrow> quarantine_of V (env w') k = Some r"
  by (metis domI map_le_def rows_kept_def store_le_def)

definition event_present :: "'e store_view \<Rightarrow> 'e \<Rightarrow> audit_row \<Rightarrow> bool" where
  "event_present V e row \<longleftrightarrow> event_of V e (event_id row) \<noteq> None"

definition quarantine_present :: "'e store_view \<Rightarrow> 'e \<Rightarrow> quarantine_row \<Rightarrow> bool" where
  "quarantine_present V e row \<longleftrightarrow> quarantine_of V e (stream_message_id row) \<noteq> None"

lemma sink_write_present:
  assumes "store_ok X V" and "sink_write X cfg ev status w = (Inr b, w')"
  shows "b \<and> (\<exists>r. sink_row cfg ev status = Inr r \<and> event_present V (env w') r)"
proof -
  have a: "append_only X V" and c: "commits_ok X V" using assms(1) by (auto simp: store_ok_def)
  note kept = keepsD [OF keeps_sink_write_rows [OF a] assms(2)]
  show ?thesis using assms(2)
  proof (cases rule: sink_write_cases)
    case (inserted row e')
    then show ?thesis using c by (fastforce simp: commits_ok_def event_present_def)
  next
    case (duplicate row x e1 e')
    from c duplicate(2,3) obtain r where "event_of V (env w) (event_id row) = Some r"
      unfolding commits_ok_def by blast
    from rows_kept_events [OF kept this] duplicate show ?thesis by (auto simp: event_present_def)
  qed auto
qed

lemma quarantine_commit_present:
  assumes "store_ok X V" and "quarantine_commit X row w = (Inr u, w')"
  shows "quarantine_present V (env w') row"
proof -
  have a: "append_only X V" and c: "commits_ok X V" using assms(1) by (auto simp: store_ok_def)
  note kept = keepsD [OF keeps_quarantine_commit_rows [OF a] assms(2)]
  show ?thesis using assms(2)
  proof (cases rule: quarantine_commit_cases)
    case (inserted e')
    then show ?thesis using c by (fastforce simp: commits_ok_def quarantine_present_def)
  next
    case (duplicate x e1 e')
    from c duplicate(1,2) obtain r where "quarantine_of V (env w) (stream_message_id row) = Some r"
      unfolding commits_ok_def by blast
    from rows_kept_quarantine [OF kept this] show ?thesis by (simp add: quarantine_present_def)
  qed auto
qed

lemma quarantine_write_present:
  assumes "store_ok X V" and "quarantine_write X osenv cfg message_id fs delivery w = (Inr b, w')"
  shows "b \<and> (\<exists>r. quarantine_sink_row cfg message_id fs delivery = Inr r \<and> quarantine_present V (env w') r)"
proof -
  have a: "append_only X V" using assms(1) by (simp add: store_ok_def)
  from assms(2) obtain row w1 al where row: "quarantine_sink_row cfg message_id fs delivery = Inr row"
    and c: "quarantine_commit X row w = (Inr (), w1)" and al: "quarantine_alert X osenv row w1 = (Inr al, w')"
    and b: "b = True"
    unfolding quarantine_write_eq by (auto simp: io_bind_Inr)
  have "rows_kept V w1 w'"
    using keepsD [OF keeps_emit_alert_rows [OF a] al [unfolded quarantine_alert_def]] .
  with quarantine_commit_present [OF assms(1) c] rows_kept_quarantine have "quarantine_present V (env w') row"
    by (fastforce simp: quarantine_present_def)
  with row b show ?thesis by blast
qed

lemma present_kept:
  assumes "rows_kept V w w'"
  shows "event_present V (env w) r \<Longrightarrow> event_present V (env w') r"
    and "quarantine_present V (env w) q \<Longrightarrow> quarantine_present V (env w') q"
  using rows_kept_events [OF assms] rows_kept_quarantine [OF assms]
  by (fastforce simp: event_present_def quarantine_present_def)+

interpretation ew: durable_writer "store_ok X V" "\<lambda>(ev, status). sink_row cfg ev status"
  "\<lambda>(ev, status). sink_write X cfg ev status" "event_present V"
proof
  fix i w b w' assume "store_ok X V" "(case i of (ev, status) \<Rightarrow> sink_write X cfg ev status) w = (Inr b, w')"
  then show "b \<and> (\<exists>r. (case i of (ev, status) \<Rightarrow> sink_row cfg ev status) = Inr r \<and> event_present V (env w') r)"
    using sink_write_present by (cases i) fastforce
next
  fix w r i x w'
  assume s: "store_ok X V" and "event_present V (env w) r"
    "(case i of (ev, status) \<Rightarrow> sink_write X cfg ev status) w = (x, w')"
  then show "event_present V (env w') r"
    using present_kept(1) [of V w w' r] keepsD [OF keeps_sink_write_rows, of X V]
    by (cases i) (auto simp: store_ok_def)
qed

interpretation qw: durable_writer "store_ok X V"
  "\<lambda>(message_id, fs, delivery). quarantine_sink_row cfg message_id fs delivery"
  "\<lambda>(message_id, fs, delivery). quarantine_write X osenv cfg message_id fs delivery" "quarantine_present V"
proof
  fix i w b w'
  assume "store_ok X V"
    "(case i of (message_id, fs, delivery) \<Rightarrow> quarantine_write X osenv cfg message_id fs delivery) w = (Inr b, w')"
  then show "b \<and> (\<exists>r. (case i of (message_id, fs, delivery) \<Rightarrow> quarantine_sink_row cfg message_id fs delivery) = Inr r
      \<and> quarantine_present V (env w') r)"
    using quarantine_write_present by (cases i) fastforce
next
  fix w r i x w'
  assume "store_ok X V" and "quarantine_present V (env w) r"
    "(case i of (message_id, fs, delivery) \<Rightarrow> quarantine_write X osenv cfg message_id fs delivery) w = (x, w')"
  then show "quarantine_present V (env w') r"
    using present_kept(2) [of V w w' r] keepsD [OF keeps_quarantine_write_rows, of X V]
    by (cases i) (auto simp: store_ok_def)
qed

section \<open>Prepared rows\<close>

lemma utc_naive_range:
  assumes "utc_naive d = Inr n" and "in_range (wall d)"
  obtains w where "n = DateTime w None" "in_range w"
  using assms by (cases d) (auto simp: utc_naive_def mk_datetime_def split: option.splits if_splits)

lemma sink_row_Inr:
  assumes "sink_row cfg ev status = Inr row"
  obtains key kid ts h where "require_record_integrity_key cfg = Inr (key, kid)"
    "utc_naive (timestamp ev) = Inr ts"
    "compute_audit_event_hash (event_fields (row\<lparr>record_integrity_hash := None, integrity_key_id := None\<rparr>))
      key (Some kid) = Inr h"
    "audit_event.truncate row = ev\<lparr>timestamp := ts\<rparr>" "integrity_status row = status"
    "record_integrity_hash row = Some h" "integrity_key_id row = Some kid" "created_at row = None"
proof -
  from assms obtain key kid ts h where k: "require_record_integrity_key cfg = Inr (key, kid)"
    and ts: "utc_naive (timestamp ev) = Inr ts"
    and h: "compute_audit_event_hash (event_fields (row\<lparr>record_integrity_hash := None, integrity_key_id := None\<rparr>))
      key (Some kid) = Inr h"
    and row: "row = \<lparr>event_id = event_id ev, timestamp = ts, service = service ev,
       event_type = event_type ev, user_id = user_id ev, organization_id = organization_id ev,
       tenant_scope = tenant_scope ev, action = action ev, resource = resource ev,
       decision = decision ev, reason = reason ev, trace_id = trace_id ev,
       event_context = event_context ev, integrity_status = status,
       record_integrity_hash = Some h, integrity_key_id = Some kid, created_at = None\<rparr>"
    unfolding sink_row_def Let_def by auto
  show ?thesis
    by (rule that [OF k ts h]) (simp_all add: row audit_event.defs)
qed

lemma truncate_fields:
  "audit_event.truncate row = ev \<Longrightarrow> event_id row = event_id ev \<and> timestamp row = timestamp ev \<and>
     event_context row = event_context ev"
  by (auto simp: audit_event.defs)

lemma sink_row_verifies:
  assumes "sink_row cfg ev status = Inr row" and "require_record_integrity_key cfg = Inr (key, kid)"
    and "in_range (wall (timestamp ev))" and "event_context ev = PDict d" and "stored_as row r"
  shows "verify_audit_event_hash (event_fields r) key (Some kid) = Inr True"
proof -
  from assms(1) obtain key' kid' ts h where k: "require_record_integrity_key cfg = Inr (key', kid')"
    and ts: "utc_naive (timestamp ev) = Inr ts"
    and h: "compute_audit_event_hash (event_fields (row\<lparr>record_integrity_hash := None, integrity_key_id := None\<rparr>))
      key' (Some kid') = Inr h"
    and t: "audit_event.truncate row = ev\<lparr>timestamp := ts\<rparr>" and row': "record_integrity_hash row = Some h"
      "integrity_key_id row = Some kid'"
    by (rule sink_row_Inr)
  from k assms(2) have eq: "key' = key" "kid' = kid" by simp_all
  note h = h [unfolded eq] and row = row' [unfolded eq]
  from truncate_fields [OF t] assms(4) have row2: "timestamp row = ts" "event_context row = PDict d" by simp_all
  from ts assms(3) obtain w where w: "ts = DateTime w None" "in_range w" by (rule utc_naive_range)
  let ?r = "row\<lparr>record_integrity_hash := None, integrity_key_id := None\<rparr>"
  from assms(5) obtain c ctx where ctx: "context_read_as (PDict d) ctx"
    and r: "r = row\<lparr>timestamp := DateTime (mysql_round w) None, event_context := ctx, created_at := Some c\<rparr>"
    using row2 w by (auto simp: stored_as_def)
  have "r = ?r\<lparr>timestamp := DateTime (mysql_round w) None, event_context := ctx,
      record_integrity_hash := Some h, integrity_key_id := Some kid, created_at := Some c\<rparr>"
    using r row by simp
  then show ?thesis
    using read_back_verifies [OF h _ _ _ ctx, where w = w and kid' = "Some kid" and c = "Some c"] row2 w
    by (simp add: utc_naive_def)
qed

lemma quarantine_fields_get [simp]:
  "dict_get (quarantine_fields q) ''record_integrity_hash'' = of_opt (q_record_integrity_hash q)"
  by (simp add: dict_get_def quarantine_fields_def)

lemma quarantine_field_values:
  "\<forall>f \<in> set QUARANTINE_RECORD_FIELDS. field_value l (quarantine_fields q) f =
     field_value l (quarantine_fields (q\<lparr>q_record_integrity_hash := h, q_integrity_key_id := k,
       quarantined_at := c\<rparr>)) f"
  by (simp add: QUARANTINE_RECORD_FIELDS_def field_value_def dict_get_def quarantine_fields_def)

lemma quarantine_hash_same:
  "compute_quarantine_record_hash (quarantine_fields (q\<lparr>q_record_integrity_hash := h,
      q_integrity_key_id := k, quarantined_at := c\<rparr>)) secret kid =
   compute_quarantine_record_hash (quarantine_fields q) secret kid"
proof -
  have "canonical_message False (quarantine_fields (q\<lparr>q_record_integrity_hash := h,
      q_integrity_key_id := k, quarantined_at := c\<rparr>)) QUARANTINE_RECORD_FIELDS kid =
    canonical_message False (quarantine_fields q) QUARANTINE_RECORD_FIELDS kid"
    by (rule canonical_message_cong) (metis quarantine_field_values)
  then show ?thesis by (simp only: compute_quarantine_record_hash_def)
qed

lemma quarantine_sink_row_Inr:
  assumes "quarantine_sink_row cfg message_id fs n = Inr row"
  obtains key kid h row0 where "require_record_integrity_key cfg = Inr (key, kid)"
    "compute_quarantine_record_hash (quarantine_fields row0) key (Some kid) = Inr h"
    "row = row0\<lparr>q_record_integrity_hash := Some h, q_integrity_key_id := Some kid\<rparr>"
    "stream_message_id row = message_id" "raw_data row = map_of fs ''data''"
    "raw_signature row = map_of fs ''sig''" "delivery_attempts row = n"
    "classify_poison_reason (map_of fs ''data'') = (failure_category row, q_service row, failure_detail row)"
proof -
  obtain category sv detail where c: "classify_poison_reason (map_of fs ''data'') = (category, sv, detail)"
    by (metis prod_cases3)
  define row0 where "row0 = \<lparr>stream_message_id = message_id, raw_data = map_of fs ''data'',
    raw_signature = map_of fs ''sig'', q_service = sv, failure_category = category, failure_detail = detail,
    delivery_attempts = n, q_record_integrity_hash = None, q_integrity_key_id = None, quarantined_at = None\<rparr>"
  from assms obtain key kid h where "require_record_integrity_key cfg = Inr (key, kid)"
    "compute_quarantine_record_hash (quarantine_fields row0) key (Some kid) = Inr h"
    "row = row0\<lparr>q_record_integrity_hash := Some h, q_integrity_key_id := Some kid\<rparr>"
    unfolding quarantine_sink_row_def Let_def c prod.case row0_def [symmetric] by (auto split: prod.splits)
  then show ?thesis by (rule that) (simp_all add: c row0_def \<open>row = _\<close>)
qed

lemma quarantine_row_verifies:
  assumes "quarantine_sink_row cfg message_id fs n = Inr row"
    and "require_record_integrity_key cfg = Inr (key, kid)" and "quarantine_stored_as row r"
  shows "verify_quarantine_record_hash (quarantine_fields r) key (Some kid) = Inr True"
proof -
  from assms(1,2) obtain row0 h where
    h: "compute_quarantine_record_hash (quarantine_fields row0) key (Some kid) = Inr h"
    and row: "row = row0\<lparr>q_record_integrity_hash := Some h, q_integrity_key_id := Some kid\<rparr>"
    by (metis Pair_inject quarantine_sink_row_Inr sum.inject(2))
  from assms(3) row obtain c where
    r: "r = row0\<lparr>q_record_integrity_hash := Some h, q_integrity_key_id := Some kid, quarantined_at := Some c\<rparr>"
    by (auto simp: quarantine_stored_as_def)
  have "compute_quarantine_record_hash (quarantine_fields r) key (Some kid) = Inr h"
    unfolding r quarantine_hash_same by (rule h)
  moreover obtain k m where "h = hmac_hex k m" using h by (auto simp: compute_quarantine_record_hash_Inr)
  moreover have "q_record_integrity_hash r = Some h" by (simp add: r)
  ultimately show ?thesis
    by (simp add: verify_quarantine_record_hash_def of_opt_def Let_def)
qed

section \<open>Properties\<close>

text \<open>
  An event the sink inserted is found in the table and verifies.  If
  \<open>Sink.write\<close> returns and the commit was not a duplicate, the table holds a
  row for the event, and the integrity verification of that row, read back with
  its rounded timestamp and its context in whatever item order, accepts it
  under the configured key and key ID.
\<close>

lemma inserted_event_verifies:
  assumes "store_ok X V" and "sink_write X cfg ev status w = (Inr b, w')"
    and "history w' = history w @ [EventCommit row False]"
    and "require_record_integrity_key cfg = Inr (key, kid)"
    and "in_range (wall (timestamp ev))" and "event_context ev = PDict d"
  shows "\<exists>r. event_of V (env w') (event_id ev) = Some r \<and> integrity_status r = status \<and>
    verify_audit_event_hash (event_fields r) key (Some kid) = Inr True"
  using assms(2)
proof (cases rule: sink_write_cases)
  case (inserted row' e')
  from assms(1) have "commits_ok X V" by (simp add: store_ok_def)
  with inserted(2) obtain r where r: "event_of V e' (event_id row') = Some r" "stored_as row' r"
    unfolding commits_ok_def by blast
  have id: "event_id row' = event_id ev" "integrity_status row' = status"
    by (rule sink_row_Inr [OF inserted(1)], use truncate_fields in fastforce)+
  moreover from r(2) have "integrity_status r = integrity_status row'" by (auto simp: stored_as_def)
  ultimately show ?thesis
    using r inserted(4) sink_row_verifies [OF inserted(1) assms(4-6) r(2)] by simp
qed (use assms(3) in auto)

text \<open>An event the writer accepts.\<close>

definition example_event :: audit_event where
  "example_event =
     \<lparr>event_id = ''e1'', timestamp = DateTime 63870000000600000 (Some 3600000000), service = ''tes'',
      event_type = ''submit'', user_id = Some ''u1'', organization_id = Some ''589'',
      tenant_scope = ''organization'', action = ''run'', resource = None, decision = Some ''allow'',
      reason = None, trace_id = None, event_context = PDict [(''b'', PInt 2), (''a'', PInt 1)]\<rparr>"

lemma example_sink_row_action:
  assumes "is_ascii a"
  shows "\<exists>row. sink_row example_config (example_event\<lparr>action := a\<rparr>) ''unsigned'' = Inr row"
proof -
  let ?ev = "example_event\<lparr>action := a\<rparr>"
  let ?ts = "DateTime 63869996400600000 None"
  have u: "utc_naive (timestamp ?ev) = Inr ?ts"
    by (simp add: example_event_def utc_naive_def mk_datetime_def in_range_def max_wall_def usec_day_def usec_def)
  let ?r = "\<lparr>event_id = event_id ?ev, timestamp = ?ts, service = service ?ev,
       event_type = event_type ?ev, user_id = user_id ?ev,
       organization_id = organization_id ?ev, tenant_scope = tenant_scope ?ev,
       action = action ?ev, resource = resource ?ev,
       decision = decision ?ev, reason = reason ?ev, trace_id = trace_id ?ev,
       event_context = event_context ?ev, integrity_status = ''unsigned'',
       record_integrity_hash = None, integrity_key_id = None, created_at = None\<rparr>"
  have c: "event_context ?ev = event_context example_row"
    by (simp add: example_event_def example_row_def)
  have "in_range (wall ?ts)" "\<exists>t. canonical_timestamp False ?ts = Inr t"
    by (auto simp: canonical_timestamp_Inr utc_naive_def in_range_def max_wall_def usec_day_def
        mysql_round_def usec_def)
  moreover have "ascii_texts ?r" "event_context ?r \<noteq> PNone"
    using assms by (simp_all add: ascii_texts_def example_event_def code_def)
  moreover have "is_ascii ''key-1''" by (simp add: code_def)
  moreover have "timestamp ?r = ?ts" "event_context ?r = event_context example_row" by (simp_all add: c)
  ultimately have "\<exists>h. compute_audit_event_hash (event_fields ?r) ''0123456789abcdef0123456789abcdef'' (Some ''key-1'') = Inr h"
    using example_key example_context by (metis compute_event_hash_ok)
  then show ?thesis by (auto simp: sink_row_def example_config_key u [simplified] Let_def)
qed

lemma example_sink_row: "\<exists>row. sink_row example_config example_event ''unsigned'' = Inr row"
proof -
  have "example_event\<lparr>action := ''run''\<rparr> = example_event" by (simp add: example_event_def)
  then show ?thesis using example_sink_row_action [of "''run''"] by (simp add: code_def)
qed

lemma example_sink_write:
  "\<exists>row w'. sink_write mem_ops example_config example_event ''unsigned'' (world_init (mem_init [])) = (Inr True, w')
     \<and> history w' = [EventCommit row False] \<and> event_id row = ''e1''"
proof -
  obtain row where row: "sink_row example_config example_event ''unsigned'' = Inr row"
    using example_sink_row by blast
  obtain x w' where s: "sink_write mem_ops example_config example_event ''unsigned'' (world_init (mem_init [])) = (x, w')"
    by fastforce
  have c: "\<exists>e'. op_commit_event mem_ops row (mem_init []) = (Inr (), e')"
    by (simp add: mem_ops_def mem_init_def)
  have e: "env (world_init (mem_init [])) = mem_init []" by (simp add: world_init_def)
  have "event_id row = event_id example_event" using row truncate_fields by (metis sink_row_Inr audit_event.select_convs(1) audit_event.surjective audit_event.update_convs(2))
  from s show ?thesis
  proof (cases rule: sink_write_cases)
    case (inserted row' e')
    with s row \<open>event_id row = _\<close> show ?thesis
      by (intro exI [of _ row] exI [of _ w']) (simp add: world_init_def example_event_def)
  qed (use row c e in auto)
qed

text \<open>
  Both writers are durable and idempotent.  A batch of events, and a batch
  of poison entries, written one after the other without an exception is in
  the tables afterwards, each under its own key, whether the rows were new or
  already present.
\<close>

theorem writes_are_durable:
  assumes "store_ok X V"
    and "io_each (\<lambda>(ev, status). sink_write X cfg ev status) evs w = (Inr (), w1)"
    and "io_each (\<lambda>(message_id, fs, n). quarantine_write X osenv cfg message_id fs n) qs w1 = (Inr (), w2)"
  shows "(\<forall>(ev, status) \<in> set evs. event_of V (env w1) (event_id ev) \<noteq> None) \<and>
    (\<forall>(message_id, fs, n) \<in> set qs. quarantine_of V (env w2) message_id \<noteq> None)"
proof (intro conjI ballI)
  fix x assume "x \<in> set evs"
  with ew.each_stores [OF assms(1,2)] obtain r where
    "(case x of (ev, status) \<Rightarrow> sink_row cfg ev status) = Inr r" "event_present V (env w1) r" by blast
  then show "case x of (ev, status) \<Rightarrow> event_of V (env w1) (event_id ev) \<noteq> None"
    by (cases x) (auto simp: event_present_def dest!: truncate_fields elim!: sink_row_Inr)
next
  fix x assume "x \<in> set qs"
  with qw.each_stores [OF assms(1,3)] obtain r where
    "(case x of (message_id, fs, n) \<Rightarrow> quarantine_sink_row cfg message_id fs n) = Inr r"
    "quarantine_present V (env w2) r" by blast
  moreover have "stream_message_id r = m" if "quarantine_sink_row cfg m fs n = Inr r" for m fs n
    using that by (rule quarantine_sink_row_Inr)
  ultimately show "case x of (message_id, fs, n) \<Rightarrow> quarantine_of V (env w2) message_id \<noteq> None"
    by (cases x) (auto simp: quarantine_present_def)
qed

theorem writes_are_durable_witness:
  "\<exists>w1. io_each (\<lambda>(ev, status). sink_write mem_ops example_config ev status) [(example_event, ''unsigned'')]
        (world_init (mem_init [])) = (Inr (), w1) \<and>
     event_of mem_view (env w1) ''e1'' \<noteq> None"
proof -
  obtain w1 where s: "sink_write mem_ops example_config example_event ''unsigned'' (world_init (mem_init []))
      = (Inr True, w1)" using example_sink_write by blast
  then have e: "io_each (\<lambda>(ev, status). sink_write mem_ops example_config ev status)
      [(example_event, ''unsigned'')] (world_init (mem_init [])) = (Inr (), w1)"
    by (simp add: io_bind_step(1))
  have q: "io_each (\<lambda>(message_id, fs, n). quarantine_write mem_ops Map.empty example_config message_id fs n) [] w1
      = (Inr (), w1)" by simp
  have "event_id example_event = ''e1''" by (simp add: example_event_def)
  with writes_are_durable [OF mem_store_ok e q] e show ?thesis by auto
qed

text \<open>
  An event whose ID is taken is reported as written although it is not:
  the sink returns true and the row of the earlier event stays as it is,
  whatever the new event says.
\<close>

theorem duplicate_event_dropped:
  assumes "append_only X V" and "sink_row cfg ev status = Inr row"
    and "op_commit_event X row (env w) = (raise IntegrityError m, e1)" and "op_rollback X e1 = (Inr (), e')"
    and "event_of V (env w) (event_id ev) = Some old"
  shows "\<exists>w'. sink_write X cfg ev status w = (Inr True, w') \<and> event_of V (env w') (event_id ev) = Some old"
proof -
  obtain x w' where s: "sink_write X cfg ev status w = (x, w')" by fastforce
  then have "x = Inr True" using assms(2-4) by (cases rule: sink_write_cases) auto
  moreover have "event_of V (env w') (event_id ev) = Some old"
    using rows_kept_events [OF keepsD [OF keeps_sink_write_rows [OF assms(1)] s] assms(5)] .
  ultimately show ?thesis using s by blast
qed

theorem duplicate_event_dropped_witness:
  "\<exists>row old w'. sink_row example_config example_event ''unsigned'' = Inr row \<and>
     sink_write mem_ops example_config example_event ''unsigned''
       (world_init (mem_init []\<lparr>mem_events := [(''e1'', old)]\<rparr>)) = (Inr True, w') \<and>
     event_of mem_view (env w') ''e1'' = Some old \<and> service old = ''other''"
proof -
  obtain row where row: "sink_row example_config example_event ''unsigned'' = Inr row"
    using example_sink_row by blast
  let ?old = "example_row\<lparr>service := ''other''\<rparr>"
  let ?w = "world_init (mem_init []\<lparr>mem_events := [(''e1'', ?old)]\<rparr>)"
  have id: "event_id row = ''e1''" "event_id example_event = ''e1''"
    by (rule sink_row_Inr [OF row]) (use truncate_fields in \<open>fastforce simp: example_event_def\<close>)+
  have c: "op_commit_event mem_ops row (env ?w) = (raise IntegrityError ''Duplicate entry'', env ?w)"
    by (simp add: mem_ops_def mem_init_def world_init_def id)
  have rb: "op_rollback mem_ops e = (Inr (), e)" for e by (simp add: mem_ops_def)
  have o: "event_of mem_view (env ?w) (event_id example_event) = Some ?old"
    by (simp add: mem_view_def mem_init_def world_init_def id)
  have sv: "service ?old = ''other''" by simp
  show ?thesis
    using duplicate_event_dropped [OF mem_append_only row c rb o] row sv unfolding id by blast
qed

text \<open>
  A poison entry is classified \<open>persistence_exhausted\<close> exactly when its
  data is the text of a JSON object, whether or not that object is a valid
  event; otherwise it is \<open>malformed\<close>, no service is reported and the detail
  is the name of an exception class or one of two fixed words.
\<close>

theorem classify_poison_reason_cases:
  "(if \<exists>s d. raw = Some s \<and> json_loads raw = Inr (PDict d)
    then \<exists>sv. classify_poison_reason raw = (''persistence_exhausted'', sv, None)
    else \<exists>w. classify_poison_reason raw = (''malformed'', None, Some w) \<and>
      (w \<in> {''MissingDataField'', ''NotAJsonObject''} \<or>
       (\<exists>e. json_loads raw = Inl e \<and> w = type_name (kind e))))"
  by (auto simp: classify_poison_reason_def split: option.splits sum.splits pyval.splits)

text \<open>
  A producer that signs its data is classified as trusted: with the
  signature \<open>sign_audit_event\<close> makes, the entry is \<open>valid\<close>; without one it is
  \<open>unsigned\<close>; and an entry is \<open>valid\<close> only if its signature is the one made
  with the worker's secret for its own service and data.
\<close>

theorem classify_event_integrity_sound:
  "(classify_event_integrity sv (Some sg) (Some data) secret = ''valid'' \<longleftrightarrow>
      sign_audit_event sv (Some data) secret = Inr sg) \<and>
   classify_event_integrity sv None (Some data) secret = ''unsigned''"
proof -
  have "verify_audit_event (PStr sv) (Some data) (PStr sg) secret \<longleftrightarrow>
      sign_audit_event sv (Some data) secret = Inr sg"
    by (auto simp: verify_audit_event_iff sign_audit_event_def)
  moreover have "sg \<noteq> []" if "sign_audit_event sv (Some data) secret = Inr sg"
    using that by (auto simp: sign_audit_event_def SUPPORTED_VERSION_def split: if_splits)
  ultimately show ?thesis by (auto simp: classify_event_integrity_def of_opt_def)
qed

end
