(* ===== verification/Stream_Reader.thy ===== *)
theory Stream_Reader
  imports Sinks
begin

text \<open>\<open>consumers/stream_reader.py\<close>: the consumer-group calls of the worker.\<close>

text \<open>\<open>read\<close>: the offset-less read, with \<open>XREAD\<close> as its argument; \<open>last_id\<close> is \<open>0-0\<close> when it is not given.\<close>

definition read_stream ::
    "((string \<times> string) list \<Rightarrow> int \<Rightarrow> 'e \<Rightarrow> (string \<times> stream_entry list) list res \<times> 'e) \<Rightarrow> config \<Rightarrow> string option
      \<Rightarrow> ('e, (string \<times> stream_entry list) list) io" where
  "read_stream xread cfg last_id =
     io_call (xread [(STREAM_NAME cfg, case last_id of None \<Rightarrow> ''0-0'' | Some i \<Rightarrow> i)] 5000)"

definition ensure_group :: "'e ops \<Rightarrow> config \<Rightarrow> ('e, unit) io" where
  "ensure_group X cfg =
     io_bind (io_log GroupCreate) (\<lambda>_.
     io_try (io_call (op_xgroup_create X (STREAM_NAME cfg) (CONSUMER_GROUP cfg)))
       (\<lambda>e. if kind e = ResponseError \<and> contains ''BUSYGROUP'' (message e)
             then io_return () else io_lift (Inl e)))"

definition read_group ::
    "'e ops \<Rightarrow> config \<Rightarrow> string \<Rightarrow> ('e, (string \<times> stream_entry list) list) io" where
  "read_group X cfg consumer =
     io_call (op_xreadgroup X (CONSUMER_GROUP cfg) consumer (STREAM_NAME cfg) 10 5000)"

definition ack :: "'e ops \<Rightarrow> config \<Rightarrow> string \<Rightarrow> ('e, unit) io" where
  "ack X cfg message_id =
     io_bind (io_log (Ack message_id)) (\<lambda>_.
     io_call (op_xack X (STREAM_NAME cfg) (CONSUMER_GROUP cfg) message_id))"

text \<open>The split of the stale entries by delivery count.\<close>

definition poison_ids :: "int \<Rightarrow> (string \<times> int) list \<Rightarrow> string list" where
  "poison_ids max_deliveries stale = map fst (filter (\<lambda>e. snd e \<ge> max_deliveries) stale)"

definition reclaimable_ids :: "int \<Rightarrow> (string \<times> int) list \<Rightarrow> string list" where
  "reclaimable_ids max_deliveries stale = map fst (filter (\<lambda>e. snd e < max_deliveries) stale)"

definition fetch_poison ::
    "'e ops \<Rightarrow> config \<Rightarrow> (string \<times> int) list \<Rightarrow> string \<Rightarrow> ('e, string \<times> stream_fields \<times> int) io" where
  "fetch_poison X cfg stale message_id =
     io_bind (io_call (op_xrange X (STREAM_NAME cfg) message_id message_id)) (\<lambda>entry_range.
     let fs = (if entry_range \<noteq> [] then snd (hd entry_range) else []);
         deliveries_by_id = map_of (rev stale)
     in io_return (message_id, fs, the (deliveries_by_id message_id)))"

definition claim_stale ::
    "'e ops \<Rightarrow> config \<Rightarrow> string \<Rightarrow> ('e, stream_entry list \<times> (string \<times> stream_fields \<times> int) list) io" where
  "claim_stale X cfg consumer =
     io_bind (io_call (op_xpending_range X (STREAM_NAME cfg) (CONSUMER_GROUP cfg)
        (PEL_SWEEP_BATCH cfg) (PEL_MIN_IDLE_MS cfg))) (\<lambda>stale.
     if stale = [] then io_return ([], [])
     else
       io_bind (io_map (fetch_poison X cfg stale) (poison_ids (PEL_MAX_DELIVERIES cfg) stale)) (\<lambda>poison_entries.
       let ids = reclaimable_ids (PEL_MAX_DELIVERIES cfg) stale
       in io_bind (if ids \<noteq> []
            then io_call (op_xclaim X (STREAM_NAME cfg) (CONSUMER_GROUP cfg) consumer (PEL_MIN_IDLE_MS cfg) ids)
            else io_return []) (\<lambda>claimed.
          io_return (claimed, poison_entries))))"

section \<open>Lemmas\<close>

context world_relation
begin

lemma keeps_claim_stale:
  assumes "\<And>a b m n. keeps R (io_call (op_xpending_range X a b m n))"
    and "\<And>a b c. keeps R (io_call (op_xrange X a b c))"
    and "\<And>a b c m ids. keeps R (io_call (op_xclaim X a b c m ids))"
  shows "keeps R (claim_stale X cfg consumer)"
  unfolding claim_stale_def fetch_poison_def Let_def by (intro keeps_rules assms)

lemma keeps_ensure_group:
  assumes "keeps R (io_log GroupCreate)" and "\<And>a b. keeps R (io_call (op_xgroup_create X a b))"
  shows "keeps R (ensure_group X cfg)"
  unfolding ensure_group_def by (intro keeps_rules assms)

end

lemma io_map_Inr_set:
  "io_map f xs w = (Inr ys, w') \<Longrightarrow> y \<in> set ys \<Longrightarrow> \<exists>x u v. x \<in> set xs \<and> f x u = (Inr y, v)"
proof (induction xs arbitrary: w ys)
  case (Cons x xs)
  then show ?case by (fastforce simp: io_bind_Inr)
qed simp

lemma io_map_Inr_length: "io_map f xs w = (Inr ys, w') \<Longrightarrow> length ys = length xs"
  by (induction xs arbitrary: w ys) (auto simp: io_bind_Inr)

lemma fetch_poison_Inr:
  assumes "fetch_poison X cfg stale i w = (Inr (j, fs, n), w')"
  shows "j = i" and "n = the (map_of (rev stale) i)"
    and "\<exists>es u v. op_xrange X (STREAM_NAME cfg) i i u = (Inr es, v) \<and> fs = (if es = [] then [] else snd (hd es))"
proof -
  from assms obtain es v where es: "op_xrange X (STREAM_NAME cfg) i i (env w) = (Inr es, v)"
    and y: "j = i" "n = the (map_of (rev stale) i)" "fs = (if es \<noteq> [] then snd (hd es) else [])"
    by (auto simp: fetch_poison_def io_bind_Inr io_call_def Let_def split: prod.splits)
  then show "j = i" "n = the (map_of (rev stale) i)"
    "\<exists>es u v. op_xrange X (STREAM_NAME cfg) i i u = (Inr es, v) \<and> fs = (if es = [] then [] else snd (hd es))"
    by auto
qed

lemma map_of_rev_distinct: "distinct (map fst xs) \<Longrightarrow> map_of (rev xs) = map_of xs"
  by (rule map_of_eqI) (auto simp: image_iff simp flip: rev_map intro!: map_of_is_SomeI dest: map_of_SomeD)

section \<open>Properties\<close>

text \<open>What \<open>claim_stale\<close> did when it returned: the pending list, the poison entries, one claim at the end.\<close>

lemma claim_stale_Inr:
  assumes "op_xpending_range X (STREAM_NAME cfg) (CONSUMER_GROUP cfg) (PEL_SWEEP_BATCH cfg)
      (PEL_MIN_IDLE_MS cfg) (env w) = (Inr stale, e)"
    and "claim_stale X cfg consumer w = (Inr (claimed, poison), w')"
  obtains u v where "io_map (fetch_poison X cfg stale) (poison_ids (PEL_MAX_DELIVERIES cfg) stale) u = (Inr poison, v)"
    "if reclaimable_ids (PEL_MAX_DELIVERIES cfg) stale = [] then claimed = []
     else op_xclaim X (STREAM_NAME cfg) (CONSUMER_GROUP cfg) consumer (PEL_MIN_IDLE_MS cfg)
       (reclaimable_ids (PEL_MAX_DELIVERIES cfg) stale) (env v) = (Inr claimed, env w')"
proof -
  have pend: "io_call (op_xpending_range X (STREAM_NAME cfg) (CONSUMER_GROUP cfg) (PEL_SWEEP_BATCH cfg)
      (PEL_MIN_IDLE_MS cfg)) w = (Inr stale, w\<lparr>env := e\<rparr>)" using assms(1) by (simp add: io_call_def)
  show thesis
  proof (cases "stale = []")
    case True
    with assms(2) have "poison = []" "claimed = []" by (auto simp: claim_stale_def io_bind_step(1) pend)
    with True show thesis by (intro that [of w w]) (simp_all add: poison_ids_def reclaimable_ids_def)
  next
    case False
    with assms(2) obtain v where m: "io_map (fetch_poison X cfg stale) (poison_ids (PEL_MAX_DELIVERIES cfg) stale)
        (w\<lparr>env := e\<rparr>) = (Inr poison, v)"
      and c: "(if reclaimable_ids (PEL_MAX_DELIVERIES cfg) stale \<noteq> []
        then io_call (op_xclaim X (STREAM_NAME cfg) (CONSUMER_GROUP cfg) consumer (PEL_MIN_IDLE_MS cfg)
          (reclaimable_ids (PEL_MAX_DELIVERIES cfg) stale))
        else io_return []) v = (Inr claimed, w')"
      by (auto simp: claim_stale_def io_bind_step(1) pend io_bind_Inr Let_def)
    from m show thesis
      by (rule that) (use c in \<open>auto simp: io_call_def split: prod.splits if_splits\<close>)
  qed
qed

lemma poison_fetched:
  assumes "io_map (fetch_poison X cfg stale) is u = (Inr ys, v)"
  shows "map (\<lambda>(i, fs, n). (i, n)) ys = map (\<lambda>i. (i, the (map_of (rev stale) i))) is"
  using assms
proof (induction "is" arbitrary: u ys)
  case (Cons i js)
  then obtain j fs n zs u1 where f: "fetch_poison X cfg stale i u = (Inr (j, fs, n), u1)" and "ys = (j, fs, n) # zs"
    "io_map (fetch_poison X cfg stale) js u1 = (Inr zs, v)"
    by (auto simp: io_bind_Inr)
  with Cons.IH [of u1 zs] fetch_poison_Inr(1,2) [OF f] show ?case by simp
qed simp

text \<open>
  C14: stale entries are routed by their delivery count, none twice and none
  lost.  When the pending list has no entry twice, what \<open>claim_stale\<close> hands to
  quarantine is, in order, exactly the entries delivered at least
  \<open>PEL_MAX_DELIVERIES\<close> times, each with its own count and with the fields that
  \<open>XRANGE\<close> returned for its ID.  The other IDs, and no poison one, are claimed by a
  last \<open>XCLAIM\<close>, made only if there are any, and its answer is what is handed on
  for reprocessing.  The two sets of IDs are disjoint and together they are the
  pending entries.
\<close>

theorem claim_stale_routes:
  assumes "op_xpending_range X (STREAM_NAME cfg) (CONSUMER_GROUP cfg) (PEL_SWEEP_BATCH cfg)
      (PEL_MIN_IDLE_MS cfg) (env w) = (Inr stale, e)"
    and "claim_stale X cfg consumer w = (Inr (claimed, poison), w')"
    and "distinct (map fst stale)"
  shows "map (\<lambda>(i, fs, n). (i, n)) poison = filter (\<lambda>p. PEL_MAX_DELIVERIES cfg \<le> snd p) stale \<and>
    (\<forall>(i, fs, n) \<in> set poison. \<exists>es u v. op_xrange X (STREAM_NAME cfg) i i u = (Inr es, v) \<and>
       fs = (if es = [] then [] else snd (hd es))) \<and>
    (\<exists>ids. ids = map fst (filter (\<lambda>p. snd p < PEL_MAX_DELIVERIES cfg) stale) \<and>
       (if ids = [] then claimed = []
        else \<exists>u. op_xclaim X (STREAM_NAME cfg) (CONSUMER_GROUP cfg) consumer (PEL_MIN_IDLE_MS cfg) ids u
               = (Inr claimed, env w')) \<and>
       set (map fst poison) \<inter> set ids = {} \<and> set (map fst poison) \<union> set ids = fst ` set stale)"
proof -
  let ?P = "filter (\<lambda>p. PEL_MAX_DELIVERIES cfg \<le> snd p) stale"
  let ?Q = "filter (\<lambda>p. snd p < PEL_MAX_DELIVERIES cfg) stale"
  obtain u v where m: "io_map (fetch_poison X cfg stale) (map fst ?P) u = (Inr poison, v)"
    and c: "if map fst ?Q = [] then claimed = []
     else op_xclaim X (STREAM_NAME cfg) (CONSUMER_GROUP cfg) consumer (PEL_MIN_IDLE_MS cfg) (map fst ?Q) (env v)
       = (Inr claimed, env w')"
    using claim_stale_Inr [OF assms(1,2)] unfolding poison_ids_def reclaimable_ids_def by blast
  have "map (\<lambda>(i, fs, n). (i, n)) poison = map (\<lambda>p. (fst p, the (map_of stale (fst p)))) ?P"
    by (simp add: poison_fetched [OF m] map_of_rev_distinct [OF assms(3)] comp_def)
  also have "\<dots> = ?P" using assms(3) by (intro map_idI) (auto simp: map_of_is_SomeI)
  finally have poison: "map (\<lambda>(i, fs, n). (i, n)) poison = ?P" .
  have ids: "map fst poison = map fst ?P"
    unfolding poison [symmetric] by (simp add: comp_def case_prod_beta)
  have "\<exists>es u v. op_xrange X (STREAM_NAME cfg) i i u = (Inr es, v) \<and> fs = (if es = [] then [] else snd (hd es))"
    if y: "(i, fs, n) \<in> set poison" for i fs n
  proof -
    from io_map_Inr_set [OF m y] obtain j u' v' where "fetch_poison X cfg stale j u' = (Inr (i, fs, n), v')" by blast
    from fetch_poison_Inr [OF this] show ?thesis by auto
  qed
  moreover have "fst ` set ?P \<inter> fst ` set ?Q = {}"
    using eq_key_imp_eq_value [OF assms(3)] by fastforce
  moreover have "fst ` set ?P \<union> fst ` set ?Q = fst ` set stale" by force
  moreover have "set (map fst poison) = fst ` set ?P" "set (map fst ?Q) = fst ` set ?Q" by (simp_all only: ids set_map)
  moreover have "if map fst ?Q = [] then claimed = []
        else \<exists>u. op_xclaim X (STREAM_NAME cfg) (CONSUMER_GROUP cfg) consumer (PEL_MIN_IDLE_MS cfg) (map fst ?Q) u
               = (Inr claimed, env w')"
    using c by (auto split: if_splits)
  ultimately show ?thesis
    using poison by (intro conjI exI [of _ "map fst ?Q"]) (simp_all only:, blast+)
qed

definition example_pending :: mem where
  "example_pending = mem_init [(''1-0'', [(''data'', ''x'')]), (''2-0'', [(''data'', ''y'')])]
     \<lparr>mem_group := True, mem_new := [], mem_pending := [(''1-0'', 7), (''2-0'', 1)]\<rparr>"

theorem claim_stale_routes_witness:
  "\<exists>claimed poison w'. claim_stale mem_ops example_config ''worker-1'' (world_init example_pending)
       = (Inr (claimed, poison), w') \<and>
     map (\<lambda>(i, fs, n). (i, n)) poison = [(''1-0'', 7)] \<and>
     (\<exists>u. op_xclaim mem_ops ''audit:events'' ''audit-workers'' ''worker-1'' 30000 [''2-0''] u = (Inr claimed, env w'))"
proof -
  have p: "op_xpending_range mem_ops (STREAM_NAME example_config) (CONSUMER_GROUP example_config)
      (PEL_SWEEP_BATCH example_config) (PEL_MIN_IDLE_MS example_config) (env (world_init example_pending))
      = (Inr [(''1-0'', 7), (''2-0'', 1)], example_pending)"
    by (simp add: mem_ops_def world_init_def example_pending_def mem_init_def example_config_def)
  have "is_ok (fst (claim_stale mem_ops example_config ''worker-1'' (world_init example_pending)))"
    by code_simp
  then have "\<exists>claimed poison w'. claim_stale mem_ops example_config ''worker-1'' (world_init example_pending)
       = (Inr (claimed, poison), w')"
    by (metis is_ok_iff prod.collapse)
  then obtain claimed poison w' where c: "claim_stale mem_ops example_config ''worker-1'' (world_init example_pending)
       = (Inr (claimed, poison), w')" by blast
  have "distinct (map fst [(''1-0'', 7 :: int), (''2-0'', 1)])" by simp
  from claim_stale_routes [OF p c this] have "map (\<lambda>(i, fs, n). (i, n)) poison = [(''1-0'', 7)] \<and>
     (\<exists>u. op_xclaim mem_ops ''audit:events'' ''audit-workers'' ''worker-1'' 30000 [''2-0''] u = (Inr claimed, env w'))"
    by (simp add: example_config_def)
  with c show ?thesis by (intro exI [of _ claimed] exI [of _ poison] exI [of _ w'] conjI) (assumption | elim conjE)+
qed

end
