(* ===== verification/Worker.thy ===== *)
theory Worker
  imports Stream_Reader
begin

text \<open>
  \<open>worker/main.py\<close>: the consumer loop.  \<open>print\<close> calls are omitted.  The loop is
  bounded by \<open>max_iterations\<close>; the production call has no bound, and what it
  has done at any moment is what some bounded run has done.
\<close>

section \<open>The loop\<close>

definition is_nogroup_error :: "exn \<Rightarrow> bool" where
  "is_nogroup_error e \<longleftrightarrow> contains ''NOGROUP'' (message e)"

text \<open>The rate limit on recreation: true when an attempt is due, whose time it then keeps.\<close>

definition nogroup_due :: "rat \<Rightarrow> rat \<Rightarrow> ('e, bool) io" where
  "nogroup_due backoff now w =
     (if (case last_nogroup_recreate_attempt w of None \<Rightarrow> False | Some t \<Rightarrow> now - t < backoff)
      then (Inr False, w)
      else (Inr True, w\<lparr>last_nogroup_recreate_attempt := Some now\<rparr>))"

definition handle_nogroup :: "'e ops \<Rightarrow> environ \<Rightarrow> config \<Rightarrow> string \<Rightarrow> ('e, unit) io" where
  "handle_nogroup X osenv cfg ctx =
     io_bind (emit_alert X osenv ''audit_stream_or_group_missing'' ''critical'' ''audit-worker''
        ''Redis stream or consumer group is missing (NOGROUP) -- audit delivery is stalled''
        [(''context'', PStr ctx)]) (\<lambda>_.
     if \<not> WORKER_AUTO_RECREATE_STREAM_ON_NOGROUP cfg then io_return ()
     else
       io_bind (io_call (op_monotonic X)) (\<lambda>now.
       io_bind (nogroup_due (WORKER_NOGROUP_RETRY_BACKOFF_SECONDS cfg) now) (\<lambda>due.
       if \<not> due then io_return ()
       else
         io_bind (io_try (io_bind (io_log (RecreateAttempt now)) (\<lambda>_.
            io_bind (ensure_group X cfg) (\<lambda>_. io_return True))) (\<lambda>_. io_return False)) (\<lambda>created.
         if \<not> created then io_return ()
         else io_bind (emit_alert X osenv ''audit_stream_or_group_missing_recovered'' ''info'' ''audit-worker''
                ''Automatic stream/group recreation attempted after NOGROUP'' [(''context'', PStr ctx)])
              (\<lambda>_. io_return ())))))"

text \<open>
  The defaults of \<open>event_id\<close> and \<open>timestamp\<close> are drawn, in the order of the fields, when
  the payload lacks the key; otherwise the value given here is not used.
\<close>

definition payload_lacks :: "string option \<Rightarrow> string \<Rightarrow> bool" where
  "payload_lacks raw k = (case json_loads raw of Inr (PDict d) \<Rightarrow> map_of d k = None | _ \<Rightarrow> False)"

definition parse_entry :: "'e ops \<Rightarrow> pydantic \<Rightarrow> stream_fields \<Rightarrow> ('e, audit_event option) io" where
  "parse_entry X P fs =
     io_try
       (io_bind (if payload_lacks (map_of fs ''data'') ''event_id'' then io_call (op_uuid4 X)
                 else io_return []) (\<lambda>u.
        io_bind (if payload_lacks (map_of fs ''data'') ''timestamp'' then io_call (op_now X)
                 else io_return (DateTime 0 None)) (\<lambda>n.
        io_bind (io_lift (parse_audit_event P u n (map_of fs ''data''))) (\<lambda>ev. io_return (Some ev)))))
       (\<lambda>_. io_return None)"

text \<open>
  A write in a database session of its own, as both handlers make it: the session is
  opened outside the \<open>try\<close>, an exception of the write is answered by false, and the
  session is closed in the \<open>finally\<close>.  Opening and closing are outside every handler.
\<close>

definition with_session :: "'e ops \<Rightarrow> ('e, bool) io \<Rightarrow> ('e, bool) io" where
  "with_session X m =
     io_bind (io_call (op_open_session X)) (\<lambda>_.
     io_finally (io_try m (\<lambda>_. io_return False)) (io_call (op_close_session X)))"

definition handle_message :: "'e ops \<Rightarrow> pydantic \<Rightarrow> config \<Rightarrow> string \<Rightarrow> stream_fields \<Rightarrow> ('e, bool) io" where
  "handle_message X P cfg message_id fs =
     io_bind (io_log (Handling message_id fs)) (\<lambda>_.
     io_bind (parse_entry X P fs) (\<lambda>event.
     case event of
       None \<Rightarrow> io_return False
     | Some ev \<Rightarrow>
         let status = classify_event_integrity (service ev) (map_of fs ''sig'') (map_of fs ''data'')
               (EVENT_SIGNING_SECRET cfg)
         in io_bind (with_session X (sink_write X cfg ev status)) (\<lambda>written.
            if \<not> written then io_return False
            else io_bind (ack X cfg message_id) (\<lambda>_. io_return True))))"

definition quarantine_and_ack ::
    "'e ops \<Rightarrow> environ \<Rightarrow> config \<Rightarrow> string \<Rightarrow> stream_fields \<Rightarrow> int \<Rightarrow> ('e, bool) io" where
  "quarantine_and_ack X osenv cfg message_id fs delivery =
     io_bind (io_log (Handling message_id fs)) (\<lambda>_.
     io_bind (with_session X (quarantine_write X osenv cfg message_id fs delivery)) (\<lambda>written.
     if \<not> written then io_return False
     else io_bind (ack X cfg message_id) (\<lambda>_. io_return True)))"

definition sweep_pending :: "'e ops \<Rightarrow> pydantic \<Rightarrow> environ \<Rightarrow> config \<Rightarrow> ('e, unit) io" where
  "sweep_pending X P osenv cfg =
     io_bind (io_try
       (io_bind (claim_stale X cfg (CONSUMER_NAME cfg)) (\<lambda>r. io_return (Some r)))
       (\<lambda>e. io_bind (if is_nogroup_error e then handle_nogroup X osenv cfg ''pending-entry sweep'' else io_return ())
              (\<lambda>_. io_return None))) (\<lambda>r.
     case r of
       None \<Rightarrow> io_return ()
     | Some (claimed, poison_entries) \<Rightarrow>
         io_bind (io_each (\<lambda>(message_id, fs, n). quarantine_and_ack X osenv cfg message_id fs n) poison_entries)
           (\<lambda>_. io_each (\<lambda>(message_id, fs). handle_message X P cfg message_id fs) claimed))"

definition sleep :: "'e ops \<Rightarrow> rat \<Rightarrow> ('e, unit) io" where
  "sleep X t = io_bind (io_log (Sleep t)) (\<lambda>_. io_call (op_sleep X t))"

definition read_new :: "'e ops \<Rightarrow> environ \<Rightarrow> config \<Rightarrow> ('e, (string \<times> stream_entry list) list) io" where
  "read_new X osenv cfg =
     io_try (read_group X cfg (CONSUMER_NAME cfg))
       (\<lambda>e. if kind e = RedisTimeoutError then io_return []
             else if is_nogroup_error e
             then io_bind (handle_nogroup X osenv cfg ''read_group'') (\<lambda>_.
                  io_bind (sleep X (WORKER_NOGROUP_RETRY_BACKOFF_SECONDS cfg)) (\<lambda>_. io_return []))
             else io_return [])"

definition iteration :: "'e ops \<Rightarrow> pydantic \<Rightarrow> environ \<Rightarrow> config \<Rightarrow> ('e, unit) io" where
  "iteration X P osenv cfg =
     io_bind (sweep_pending X P osenv cfg) (\<lambda>_.
     io_bind (read_new X osenv cfg) (\<lambda>response.
     io_each (\<lambda>(_, messages). io_each (\<lambda>(message_id, fs). handle_message X P cfg message_id fs) messages)
       response))"

fun run_loop :: "'e ops \<Rightarrow> pydantic \<Rightarrow> environ \<Rightarrow> config \<Rightarrow> nat \<Rightarrow> ('e, unit) io" where
  "run_loop X P osenv cfg 0 = io_return ()"
| "run_loop X P osenv cfg (Suc n) =
     io_bind (iteration X P osenv cfg) (\<lambda>_. run_loop X P osenv cfg n)"

definition run :: "'e ops \<Rightarrow> pydantic \<Rightarrow> environ \<Rightarrow> config \<Rightarrow> nat \<Rightarrow> ('e, unit) io" where
  "run X P osenv cfg max_iterations =
     io_bind (ensure_group X cfg) (\<lambda>_. run_loop X P osenv cfg max_iterations)"

definition require_real_signing_secret :: "environ \<Rightarrow> unit res" where
  "require_real_signing_secret osenv =
     (let secret = getenv osenv ''JWT_SECRET'' []
      in if secret = [] \<or> secret = ''change-me'' then raise (SystemExit 2) [] else Inr ())"

definition worker_main :: "'e ops \<Rightarrow> pydantic \<Rightarrow> environ \<Rightarrow> config \<Rightarrow> nat \<Rightarrow> ('e, unit) io" where
  "worker_main X P osenv cfg n =
     io_bind (io_lift (require_real_signing_secret osenv)) (\<lambda>_. run X P osenv cfg n)"

section \<open>Relations that the loop keeps\<close>

text \<open>The part of \<open>handle_nogroup\<close> that recreates the group, if it is due: true when it was created.\<close>

definition recreate_group :: "'e ops \<Rightarrow> config \<Rightarrow> rat \<Rightarrow> ('e, bool) io" where
  "recreate_group X cfg now =
     io_bind (nogroup_due (WORKER_NOGROUP_RETRY_BACKOFF_SECONDS cfg) now) (\<lambda>due.
     if \<not> due then io_return False
     else io_try (io_bind (io_log (RecreateAttempt now)) (\<lambda>_.
       io_bind (ensure_group X cfg) (\<lambda>_. io_return True))) (\<lambda>_. io_return False))"

lemma handle_nogroup_eq:
  "handle_nogroup X osenv cfg ctx =
     io_bind (emit_alert X osenv ''audit_stream_or_group_missing'' ''critical'' ''audit-worker''
        ''Redis stream or consumer group is missing (NOGROUP) -- audit delivery is stalled''
        [(''context'', PStr ctx)]) (\<lambda>_.
     if \<not> WORKER_AUTO_RECREATE_STREAM_ON_NOGROUP cfg then io_return ()
     else
       io_bind (io_call (op_monotonic X)) (\<lambda>now.
       io_bind (recreate_group X cfg now) (\<lambda>created.
       if \<not> created then io_return ()
       else io_bind (emit_alert X osenv ''audit_stream_or_group_missing_recovered'' ''info'' ''audit-worker''
              ''Automatic stream/group recreation attempted after NOGROUP'' [(''context'', PStr ctx)])
            (\<lambda>_. io_return ()))))"
proof -
  have push: "io_bind (if \<not> due then io_return False else m) f = (if \<not> due then f False else io_bind m f)"
    for due and m :: "('a, bool) io" and f :: "bool \<Rightarrow> ('a, unit) io" by simp
  show ?thesis unfolding handle_nogroup_def recreate_group_def io_bind_assoc push by simp
qed

text \<open>The steps of the loop other than the two that acknowledge.\<close>

context world_relation
begin

lemma keeps_recreate_group:
  assumes "\<And>t. keeps R (nogroup_due (WORKER_NOGROUP_RETRY_BACKOFF_SECONDS cfg) t)"
    and "\<And>t. keeps R (io_log (RecreateAttempt t))" and "keeps R (ensure_group X cfg)"
  shows "keeps R (recreate_group X cfg t)"
  unfolding recreate_group_def by (intro keeps_rules assms)

lemma keeps_handle_nogroup:
  assumes "\<And>c s p m md. keeps R (emit_alert X osenv c s p m md)" and "keeps R (io_call (op_monotonic X))"
    and "\<And>t. WORKER_AUTO_RECREATE_STREAM_ON_NOGROUP cfg \<Longrightarrow> keeps R (recreate_group X cfg t)"
  shows "keeps R (handle_nogroup X osenv cfg ctx)"
  unfolding handle_nogroup_eq by (intro keeps_rules assms) simp

lemma keeps_with_session:
  assumes "keeps R (io_call (op_open_session X))" and "keeps R (io_call (op_close_session X))" and "keeps R m"
  shows "keeps R (with_session X m)"
  unfolding with_session_def by (intro keeps_rules keeps_finally assms)

lemma keeps_sweep_pending:
  assumes "keeps R (claim_stale X cfg (CONSUMER_NAME cfg))" and "\<And>ctx. keeps R (handle_nogroup X osenv cfg ctx)"
    and "\<And>i fs n. keeps R (quarantine_and_ack X osenv cfg i fs n)"
    and "\<And>i fs. keeps R (handle_message X P cfg i fs)"
  shows "keeps R (sweep_pending X P osenv cfg)"
  unfolding sweep_pending_def
  by (intro keeps_bind keeps_try keeps_return keeps_if assms)
    (auto intro!: keeps_bind keeps_each keeps_return assms split: option.split prod.split)

lemma keeps_iteration:
  assumes "keeps R (claim_stale X cfg (CONSUMER_NAME cfg))" and "\<And>ctx. keeps R (handle_nogroup X osenv cfg ctx)"
    and "\<And>i fs n. keeps R (quarantine_and_ack X osenv cfg i fs n)"
    and "\<And>i fs. keeps R (handle_message X P cfg i fs)"
    and "\<And>a b c m n. keeps R (io_call (op_xreadgroup X a b c m n))" and "\<And>t. keeps R (sleep X t)"
  shows "keeps R (iteration X P osenv cfg)"
proof -
  have "keeps R (sweep_pending X P osenv cfg)" by (intro keeps_sweep_pending assms)
  moreover have "keeps R (read_new X osenv cfg)"
    unfolding read_new_def read_group_def by (intro keeps_rules assms)
  ultimately show ?thesis
    unfolding iteration_def by (intro keeps_rules) (auto intro!: keeps_each assms split: prod.split)
qed

lemma keeps_run:
  assumes "keeps R (ensure_group X cfg)" and "keeps R (iteration X P osenv cfg)"
  shows "keeps R (run X P osenv cfg n)"
proof -
  have "keeps R (run_loop X P osenv cfg n)" for n
    by (induction n) (simp_all only: run_loop.simps keeps_rules assms)
  then show ?thesis unfolding run_def by (intro keeps_rules assms)
qed

lemma keeps_acking:
  assumes "\<And>i fs. keeps R (io_log (Handling i fs))" and "\<And>i. keeps R (io_log (Ack i))"
    and "keeps R (io_call (op_uuid4 X))" and "keeps R (io_call (op_now X))"
    and "keeps R (io_call (op_open_session X))" and "keeps R (io_call (op_close_session X))"
    and "\<And>ev st. keeps R (sink_write X cfg ev st)" and "\<And>a b c. keeps R (io_call (op_xack X a b c))"
    and "\<And>i fs n. keeps R (quarantine_write X osenv cfg i fs n)"
  shows "keeps R (handle_message X P cfg i fs)" and "keeps R (quarantine_and_ack X osenv cfg i fs n)"
proof -
  have "keeps R (parse_entry X P fs)" unfolding parse_entry_def by (intro keeps_rules assms)
  then show "keeps R (handle_message X P cfg i fs)"
    unfolding handle_message_def ack_def Let_def
    by (intro keeps_bind assms) (auto intro!: keeps_rules keeps_with_session assms split: option.split)
  show "keeps R (quarantine_and_ack X osenv cfg i fs n)"
    unfolding quarantine_and_ack_def ack_def by (intro keeps_rules keeps_with_session assms)
qed

end

end
