(* ===== verification/Worker_Safety.thy ===== *)
theory Worker_Safety
  imports Worker
begin

text \<open>
  What the worker guarantees: a specification of the histories in which every
  acknowledgement is justified by a commit of the very entry, the refinement
  proof that every run of the loop stays within it, durability of what was
  acknowledged, spacing of alerts and of recreation attempts, and which
  exceptions can end the loop.
\<close>

section \<open>Justified acknowledgements\<close>

text \<open>The rows an entry with fields \<open>fs\<close> may be stored as.\<close>

definition event_row_of :: "pydantic \<Rightarrow> config \<Rightarrow> stream_fields \<Rightarrow> audit_row \<Rightarrow> bool" where
  "event_row_of P cfg fs row \<longleftrightarrow>
     (\<exists>u n ev. parse_audit_event P u n (map_of fs ''data'') = Inr ev \<and>
        sink_row cfg ev (classify_event_integrity (service ev) (map_of fs ''sig'') (map_of fs ''data'')
          (EVENT_SIGNING_SECRET cfg)) = Inr row)"

definition quarantine_row_of :: "config \<Rightarrow> string \<Rightarrow> stream_fields \<Rightarrow> quarantine_row \<Rightarrow> bool" where
  "quarantine_row_of cfg i fs row \<longleftrightarrow> (\<exists>n. quarantine_sink_row cfg i fs n = Inr row)"

fun is_ack :: "effect \<Rightarrow> bool" where
  "is_ack (Ack i) = True"
| "is_ack _ = False"

inductive acks_justified :: "pydantic \<Rightarrow> config \<Rightarrow> effect list \<Rightarrow> bool" for P cfg where
  empty: "acks_justified P cfg []"
| other: "acks_justified P cfg h \<Longrightarrow> \<not> is_ack x \<Longrightarrow> acks_justified P cfg (h @ [x])"
| event: "acks_justified P cfg h \<Longrightarrow> event_row_of P cfg fs row \<Longrightarrow>
    acks_justified P cfg (h @ [Handling i fs, EventCommit row dup, Ack i])"
| quarantine: "acks_justified P cfg h \<Longrightarrow> quarantine_row_of cfg i fs row \<Longrightarrow> list_all is_alert as \<Longrightarrow>
    acks_justified P cfg (h @ [Handling i fs, QuarantineCommit row dup] @ as @ [Ack i])"

lemma acks_justified_append:
  assumes "acks_justified P cfg h" and "acks_justified P cfg h'"
  shows "acks_justified P cfg (h @ h')"
  using assms(2)
proof (induction rule: acks_justified.induct)
  case empty
  then show ?case using assms(1) by simp
next
  case (other g x)
  then show ?case using acks_justified.other [of P cfg "h @ g" x] by simp
next
  case (event g fs row i dup)
  then show ?case using acks_justified.event [of P cfg "h @ g" fs row i dup] by simp
next
  case (quarantine g i fs row as dup)
  then show ?case using acks_justified.quarantine [of P cfg "h @ g" i fs row as dup] by simp
qed

interpretation aj: history_spec "acks_justified P cfg"
  by unfold_locales (auto intro: acks_justified.empty acks_justified_append)

lemma not_ack_justified: "list_all (\<lambda>x. \<not> is_ack x) h \<Longrightarrow> acks_justified P cfg h"
proof (induction h rule: rev_induct)
  case (snoc x h)
  then show ?case by (auto intro: acks_justified.other)
qed (rule acks_justified.empty)

lemma keeps_call_grows: "keeps (grows (acks_justified P cfg)) (io_call f)"
  by (auto simp: keeps_def grows_def io_call_def intro: acks_justified.empty split: prod.split)

lemma keeps_log_grows: "\<not> is_ack x \<Longrightarrow> keeps (grows (acks_justified P cfg)) (io_log x)"
  by (auto simp: keeps_def grows_def intro!: not_ack_justified)

lemma keeps_emit_grows:
  "keeps (grows (acks_justified P cfg)) (emit_alert X osenv c s p m md)"
proof -
  have "keeps (grows (acks_justified P cfg)) (alert_gate a window t)" for a window t
    by (auto simp: keeps_def grows_def alert_gate_eq intro!: not_ack_justified)
  then show ?thesis unfolding emit_alert_def
    by (intro aj.grown.keeps_emit_security_alert aj.grown.keeps_default_send keeps_call_grows)
qed

text \<open>Emitting an alert adds alerts only.\<close>

interpretation al: history_spec "list_all is_alert"
  by unfold_locales auto

lemma keeps_call_alerts: "keeps (grows (list_all is_alert)) (io_call f)"
  by (simp add: keeps_def grows_def io_call_def split: prod.split)

lemma keeps_emit_alerts: "keeps (grows (list_all is_alert)) (emit_alert X osenv c s p m md)"
proof -
  have "keeps (grows (list_all is_alert)) (alert_gate a window t)" for a window t
    by (simp add: keeps_def grows_def alert_gate_eq)
  then show ?thesis unfolding emit_alert_def
    by (intro al.grown.keeps_emit_security_alert al.grown.keeps_default_send keeps_call_alerts)
qed

section \<open>One entry\<close>

lemma parse_entry_run:
  obtains ev w1 where "parse_entry X P fs w = (Inr ev, w1)" "same_vars w w1"
    "\<forall>x. ev = Some x \<longrightarrow> (\<exists>u n. parse_audit_event P u n (map_of fs ''data'') = Inr x)"
proof -
  obtain r w1 where p: "parse_entry X P fs w = (r, w1)" by fastforce
  have "keeps same_vars (parse_entry X P fs)"
    unfolding parse_entry_def by (intro sv.keeps_rules keeps_call_same_vars)
  from keepsD [OF this p] have "same_vars w w1" .
  moreover from p obtain ev where "r = Inr ev"
    by (auto simp: parse_entry_def io_try_def split: prod.splits sum.splits)
  moreover have "\<exists>u n. parse_audit_event P u n (map_of fs ''data'') = Inr x" if "r = Inr (Some x)" for x
    using p that by (auto simp: parse_entry_def io_try_def io_bind_Inr split: prod.splits sum.splits)
  ultimately show ?thesis using p that by blast
qed

text \<open>A session that cannot be opened or closed.\<close>

definition session_error :: "'e ops \<Rightarrow> exn \<Rightarrow> bool" where
  "session_error X e \<longleftrightarrow> (\<exists>u v. op_open_session X u = (Inl e, v)) \<or> (\<exists>u v. op_close_session X u = (Inl e, v))"

lemma with_session_cases:
  assumes "with_session X m w = (r, w')"
  obtains (unopened) e v where "op_open_session X (env w) = (Inl e, v)" "r = Inl e" "w' = w\<lparr>env := v\<rparr>"
  | (closed) e0 y w1 v where "op_open_session X (env w) = (Inr (), e0)" "m (w\<lparr>env := e0\<rparr>) = (y, w1)"
      "op_close_session X (env w1) = (Inr (), v)" "r = (case y of Inl _ \<Rightarrow> Inr False | Inr b \<Rightarrow> Inr b)"
      "w' = w1\<lparr>env := v\<rparr>"
  | (unclosed) e0 y w1 e v where "op_open_session X (env w) = (Inr (), e0)" "m (w\<lparr>env := e0\<rparr>) = (y, w1)"
      "op_close_session X (env w1) = (Inl e, v)" "r = Inl e" "w' = w1\<lparr>env := v\<rparr>"
proof -
  obtain a e0 where a: "op_open_session X (env w) = (a, e0)" by (rule prod.exhaust)
  obtain y w1 where y: "m (w\<lparr>env := e0\<rparr>) = (y, w1)" by (rule prod.exhaust)
  obtain b v where b: "op_close_session X (env w1) = (b, v)" by (rule prod.exhaust)
  have run: "with_session X m w = (case a of Inl e \<Rightarrow> (Inl e, w\<lparr>env := e0\<rparr>)
    | Inr _ \<Rightarrow> (case b of Inl e \<Rightarrow> (Inl e, w1\<lparr>env := v\<rparr>)
        | Inr _ \<Rightarrow> ((case y of Inl _ \<Rightarrow> Inr False | Inr b \<Rightarrow> Inr b), w1\<lparr>env := v\<rparr>)))"
    by (cases a; cases y; cases b) (simp_all add: with_session_def io_bind_def io_finally_def io_try_def io_call_def a y b)
  show thesis
  proof (cases a)
    case (Inl e)
    with run assms a show thesis by (intro unopened [of e e0]) simp_all
  next
    case (Inr u)
    with a have a': "op_open_session X (env w) = (Inr (), e0)" by simp
    show thesis
    proof (cases b)
      case (Inl e)
      with run assms Inr b show thesis by (intro unclosed [OF a' y, of e v]) simp_all
    next
      case (Inr u')
      with run assms \<open>a = Inr u\<close> b show thesis by (intro closed [OF a' y, of v]) simp_all
    qed
  qed
qed

text \<open>
  Both handlers end alike: an entry that was written is acknowledged, one that was not
  stays pending, and so does one whose session cannot be opened or closed.
\<close>

lemma write_then_ack:
  assumes "io_bind (with_session X m) (\<lambda>written.
      if \<not> written then io_return False else io_bind (ack X cfg i) (\<lambda>_. io_return True)) w = (r, w')"
  obtains (unopened) e where "r = Inl e" "session_error X e" "history w' = history w"
  | (unclosed) e0 y w1 e where "m (w\<lparr>env := e0\<rparr>) = (y, w1)" "r = Inl e" "session_error X e" "history w' = history w1"
  | (unwritten) e0 y w1 where "m (w\<lparr>env := e0\<rparr>) = (y, w1)" "y \<noteq> Inr True" "r = Inr False" "history w' = history w1"
  | (acked) e0 w1 u where "m (w\<lparr>env := e0\<rparr>) = (Inr True, w1)" "history w' = history w1 @ [Ack i]"
      "r = (case fst (op_xack X (STREAM_NAME cfg) (CONSUMER_GROUP cfg) i u) of Inl e \<Rightarrow> Inl e | Inr _ \<Rightarrow> Inr True)"
proof -
  obtain q w2 where q: "with_session X m w = (q, w2)" by (rule prod.exhaust)
  from q show thesis
  proof (cases rule: with_session_cases)
    case (unopened e v)
    with assms q show thesis by (intro that(1) [of e]) (auto simp: io_bind_step session_error_def)
  next
    case (unclosed e0 y w1 e v)
    with assms q show thesis by (intro that(2) [of e0 y w1 e]) (auto simp: io_bind_step session_error_def)
  next
    case (closed e0 y w1 v)
    show thesis
    proof (cases "y = Inr True")
      case True
      with closed q have "with_session X m w = (Inr True, w2)" by simp
      with assms have "io_bind (ack X cfg i) (\<lambda>_. io_return True) w2 = (r, w')" by (simp add: io_bind_step(1))
      with True closed show thesis
        by (intro that(4) [of e0 w1 v]) (auto simp: ack_def io_bind_def io_call_def split: prod.splits sum.splits)
    next
      case False
      with closed q have "with_session X m w = (Inr False, w2)" by (auto split: sum.splits)
      with assms have "io_return False w2 = (r, w')" by (simp add: io_bind_def)
      with False closed show thesis by (intro that(3) [of e0 y w1]) auto
    qed
  qed
qed

lemma sink_write_ends:
  assumes "sink_write X cfg ev status w = (y, w')"
  obtains (raised) e where "y = Inl e" "history w' = history w"
  | (written) row dup where "y = Inr True" "sink_row cfg ev status = Inr row" "history w' = history w @ [EventCommit row dup]"
  using assms
proof (cases rule: sink_write_cases)
  case (inserted row e')
  then show thesis by (intro written [of row False]) simp_all
next
  case (duplicate row x e1 e')
  then show thesis by (intro written [of row True]) simp_all
qed (use raised in simp_all)

lemma quarantine_write_ends:
  assumes "quarantine_write X osenv cfg i fs n w = (y, w')"
  obtains (raised) e t where "y = Inl e" "history w' = history w @ t" "list_all (\<lambda>x. \<not> is_ack x) t"
  | (written) row dup as where "y = Inr True" "quarantine_sink_row cfg i fs n = Inr row" "list_all is_alert as"
      "history w' = history w @ [QuarantineCommit row dup] @ as"
proof (cases "quarantine_sink_row cfg i fs n")
  case (Inl e)
  with assms have "y = Inl e" "w' = w" by (auto simp: quarantine_write_eq)
  then show thesis by (intro raised [of e "[]"]) simp_all
next
  case (Inr row)
  obtain z w1 where c: "quarantine_commit X row w = (z, w1)" by fastforce
  obtain a w3 where al: "quarantine_alert X osenv row w1 = (a, w3)" by fastforce
  from keepsD [OF keeps_emit_alerts al [unfolded quarantine_alert_def]] obtain as where
    as: "history w3 = history w1 @ as" "list_all is_alert as" by (auto simp: grows_def)
  have y: "(y, w') = (case z of Inl e \<Rightarrow> (Inl e, w1)
      | Inr _ \<Rightarrow> (case a of Inl e \<Rightarrow> (Inl e, w3) | Inr _ \<Rightarrow> (Inr True, w3)))"
    using assms Inr c al by (auto simp: quarantine_write_eq io_bind_def split: sum.splits)
  have "\<not> is_ack x" if "is_alert x" for x using that by (cases x) auto
  with as(2) have noack: "list_all (\<lambda>x. \<not> is_ack x) as" by (auto simp: list_all_iff)
  have commit: thesis if h1: "history w1 = history w @ [QuarantineCommit row dup]" and z: "z = Inr ()" for dup
  proof (cases a)
    case (Inl e)
    with y z h1 as noack show thesis by (intro raised [of e "QuarantineCommit row dup # as"]) auto
  next
    case (Inr b)
    with y z h1 as \<open>quarantine_sink_row cfg i fs n = Inr row\<close> show thesis
      by (intro written [of row as dup]) auto
  qed
  from c show thesis
  proof (cases rule: quarantine_commit_cases)
    case (inserted e')
    then show thesis by (intro commit [of False]) simp_all
  next
    case (duplicate x e1 e')
    then show thesis by (intro commit [of True]) simp_all
  next
    case (unrolled x e1 x' e')
    with y show thesis by (intro raised [of x' "[]"]) auto
  next
    case (failed x e')
    with y show thesis by (intro raised [of x "[]"]) auto
  qed
qed

text \<open>The outcomes of \<open>handle_message\<close>.\<close>

lemma handle_message_cases:
  assumes "handle_message X P cfg i fs w = (r, w')"
  obtains (left_pending) "r = Inr False" "history w' = history w @ [Handling i fs]"
  | (crashed) e t where "r = Inl e" "session_error X e" "history w' = history w @ Handling i fs # t"
      "t = [] \<or> (\<exists>row dup. event_row_of P cfg fs row \<and> t = [EventCommit row dup])"
  | (acked) row dup u where "event_row_of P cfg fs row"
      "history w' = history w @ [Handling i fs, EventCommit row dup, Ack i]"
      "r = (case fst (op_xack X (STREAM_NAME cfg) (CONSUMER_GROUP cfg) i u) of
              Inl e \<Rightarrow> Inl e | Inr _ \<Rightarrow> Inr True)"
proof -
  define w0 where "w0 = w\<lparr>history := history w @ [Handling i fs]\<rparr>"
  obtain ev w1 where p: "parse_entry X P fs w0 = (Inr ev, w1)" and sv: "same_vars w0 w1"
    and ok: "\<forall>x. ev = Some x \<longrightarrow> (\<exists>u n. parse_audit_event P u n (map_of fs ''data'') = Inr x)"
    by (rule parse_entry_run)
  from sv have h1: "history w1 = history w @ [Handling i fs]" by (simp add: same_vars_def w0_def)
  let ?st = "\<lambda>x. classify_event_integrity (service x) (map_of fs ''sig'') (map_of fs ''data'') (EVENT_SIGNING_SECRET cfg)"
  have hm: "handle_message X P cfg i fs w =
    (case ev of None \<Rightarrow> io_return False
     | Some x \<Rightarrow> io_bind (with_session X (sink_write X cfg x (?st x))) (\<lambda>written.
         if \<not> written then io_return False else io_bind (ack X cfg i) (\<lambda>_. io_return True))) w1"
    unfolding handle_message_def Let_def by (simp add: io_bind_step(1) p w0_def [symmetric])
  show thesis
  proof (cases ev)
    case None
    with assms hm h1 show thesis by (intro left_pending) simp_all
  next
    case (Some x)
    have written: "(\<exists>e. y = Inl e) \<and> history w2 = history w1 \<or>
        (\<exists>row dup. y = Inr True \<and> event_row_of P cfg fs row \<and> history w2 = history w1 @ [EventCommit row dup])"
      if "sink_write X cfg x (?st x) (w1\<lparr>env := e0\<rparr>) = (y, w2)" for e0 y w2
      using that
    proof (cases rule: sink_write_ends)
      case (raised e)
      then show ?thesis by simp
    next
      case (written row dup)
      moreover have "event_row_of P cfg fs row" using ok Some written(2) unfolding event_row_of_def by blast
      ultimately show ?thesis by auto
    qed
    have "io_bind (with_session X (sink_write X cfg x (?st x))) (\<lambda>written.
        if \<not> written then io_return False else io_bind (ack X cfg i) (\<lambda>_. io_return True)) w1 = (r, w')"
      using assms hm Some by simp
    then show thesis
    proof (cases rule: write_then_ack)
      case (unopened e)
      with h1 show thesis by (intro crashed [of e "[]"]) simp_all
    next
      case (unclosed e0 y w2 e)
      with written [OF unclosed(1)] h1 show thesis
        by (elim disjE exE conjE) (auto intro: crashed [of e "[]"] crashed [of e "[EventCommit row dup]" for row dup])
    next
      case (unwritten e0 y w2)
      with written [OF unwritten(1)] h1 show thesis by (auto intro: left_pending)
    next
      case (acked e0 w2 u)
      with written [OF acked(1)] obtain row dup where "event_row_of P cfg fs row" "history w2 = history w1 @ [EventCommit row dup]"
        by auto
      with acked h1 show thesis by (intro that(3) [of row dup u]) simp_all
    qed
  qed
qed

text \<open>The outcomes of \<open>quarantine_and_ack\<close>.\<close>

lemma quarantine_and_ack_cases:
  assumes "quarantine_and_ack X osenv cfg i fs n w = (r, w')"
  obtains (not_acked) t where "r = Inr False \<or> (\<exists>e. r = Inl e \<and> session_error X e)" "history w' = history w @ t"
      "list_all (\<lambda>x. \<not> is_ack x) t"
  | (acked) row dup as u where "quarantine_sink_row cfg i fs n = Inr row" "list_all is_alert as"
      "history w' = history w @ [Handling i fs, QuarantineCommit row dup] @ as @ [Ack i]"
      "r = (case fst (op_xack X (STREAM_NAME cfg) (CONSUMER_GROUP cfg) i u) of
              Inl e \<Rightarrow> Inl e | Inr _ \<Rightarrow> Inr True)"
proof -
  define w0 where "w0 = w\<lparr>history := history w @ [Handling i fs]\<rparr>"
  have noack: "\<exists>t. history w1 = history w0 @ t \<and> list_all (\<lambda>x. \<not> is_ack x) t"
    if "quarantine_write X osenv cfg i fs n (w0\<lparr>env := e0\<rparr>) = (y, w1)" for e0 y w1
    using that
  proof (cases rule: quarantine_write_ends)
    case (written row dup as)
    have "\<not> is_ack x" if "is_alert x" for x using that by (cases x) auto
    with written show ?thesis by (auto simp: list_all_iff)
  qed auto
  have "io_bind (with_session X (quarantine_write X osenv cfg i fs n)) (\<lambda>written.
     if \<not> written then io_return False else io_bind (ack X cfg i) (\<lambda>_. io_return True)) w0 = (r, w')"
    using assms by (simp add: quarantine_and_ack_def io_bind_step(1) w0_def)
  then show thesis
  proof (cases rule: write_then_ack)
    case (unopened e)
    then show thesis by (intro not_acked [of "[Handling i fs]"]) (simp_all add: w0_def)
  next
    case (unclosed e0 y w1 e)
    with noack obtain t where "history w1 = history w0 @ t" "list_all (\<lambda>x. \<not> is_ack x) t" by blast
    with unclosed show thesis by (intro not_acked [of "Handling i fs # t"]) (simp_all add: w0_def)
  next
    case (unwritten e0 y w1)
    with noack obtain t where "history w1 = history w0 @ t" "list_all (\<lambda>x. \<not> is_ack x) t" by blast
    with unwritten show thesis by (intro not_acked [of "Handling i fs # t"]) (simp_all add: w0_def)
  next
    case (acked e0 w1 u)
    from acked(1) show thesis
    proof (cases rule: quarantine_write_ends)
      case (written row dup as)
      with acked show thesis by (intro that(2) [of row as dup u]) (simp_all add: w0_def)
    qed simp
  qed
qed

lemma keeps_handle_message_grows: "keeps (grows (acks_justified P cfg)) (handle_message X P cfg i fs)"
  unfolding keeps_def
proof
  fix w
  obtain r w' where h: "handle_message X P cfg i fs w = (r, w')" by fastforce
  then have "grows (acks_justified P cfg) w w'"
  proof (cases rule: handle_message_cases)
    case left_pending
    then show ?thesis by (auto simp: grows_def intro!: not_ack_justified)
  next
    case (crashed e t)
    then have "list_all (\<lambda>x. \<not> is_ack x) (Handling i fs # t)" by auto
    with crashed show ?thesis by (auto simp: grows_def intro!: not_ack_justified)
  next
    case (acked row dup u)
    then show ?thesis
      using acks_justified.event [OF acks_justified.empty acked(1), of i dup] by (auto simp: grows_def)
  qed
  with h show "grows (acks_justified P cfg) w (snd (handle_message X P cfg i fs w))" by simp
qed

lemma keeps_quarantine_and_ack_grows:
  "keeps (grows (acks_justified P cfg)) (quarantine_and_ack X osenv cfg i fs n)"
  unfolding keeps_def
proof
  fix w
  obtain r w' where h: "quarantine_and_ack X osenv cfg i fs n w = (r, w')" by fastforce
  then have "grows (acks_justified P cfg) w w'"
  proof (cases rule: quarantine_and_ack_cases)
    case (not_acked t)
    then show ?thesis by (auto simp: grows_def intro: not_ack_justified)
  next
    case (acked row dup as u)
    then have "quarantine_row_of cfg i fs row" by (auto simp: quarantine_row_of_def)
    with acked show ?thesis
      using acks_justified.quarantine [OF acks_justified.empty _ acked(2)] by (auto simp: grows_def)
  qed
  with h show "grows (acks_justified P cfg) w (snd (quarantine_and_ack X osenv cfg i fs n w))" by simp
qed

lemma keeps_recreate_grows: "keeps (grows (acks_justified P cfg)) (recreate_group X cfg' t)"
proof -
  have "keeps (grows (acks_justified P cfg)) (nogroup_due b t)" for b t
    by (auto simp: keeps_def grows_def nogroup_due_def intro!: not_ack_justified)
  then show ?thesis
    by (intro aj.grown.keeps_recreate_group aj.grown.keeps_ensure_group keeps_call_grows keeps_log_grows) simp_all
qed

lemma keeps_run_grows: "keeps (grows (acks_justified P cfg)) (run X P osenv cfg n)"
proof -
  have e: "keeps (grows (acks_justified P cfg)) (ensure_group X cfg)"
    by (intro aj.grown.keeps_ensure_group keeps_call_grows keeps_log_grows) simp
  have "keeps (grows (acks_justified P cfg)) (sleep X t)" for t
    unfolding sleep_def by (intro aj.grown.keeps_rules keeps_call_grows keeps_log_grows) simp
  then show ?thesis
    by (intro aj.grown.keeps_run aj.grown.keeps_iteration aj.grown.keeps_claim_stale
        aj.grown.keeps_handle_nogroup e keeps_call_grows keeps_emit_grows keeps_handle_message_grows
        keeps_quarantine_and_ack_grows keeps_recreate_grows)
qed

section \<open>Durability of what was committed\<close>

text \<open>
  What a commit says of the tables: the row is stored, or, if the commit met a taken
  key, a row with that key is.
\<close>

definition event_stored :: "'e store_view \<Rightarrow> 'e \<Rightarrow> audit_row \<Rightarrow> bool \<Rightarrow> bool" where
  "event_stored V e row dup \<longleftrightarrow>
     (if dup then event_of V e (event_id row) \<noteq> None
      else \<exists>r. event_of V e (event_id row) = Some r \<and> stored_as row r)"

definition quarantine_stored :: "'e store_view \<Rightarrow> 'e \<Rightarrow> quarantine_row \<Rightarrow> bool \<Rightarrow> bool" where
  "quarantine_stored V e row dup \<longleftrightarrow>
     (if dup then quarantine_of V e (stream_message_id row) \<noteq> None
      else \<exists>q. quarantine_of V e (stream_message_id row) = Some q \<and> quarantine_stored_as row q)"

fun commit_stored :: "'e store_view \<Rightarrow> 'e \<Rightarrow> effect \<Rightarrow> bool" where
  "commit_stored V e (EventCommit row dup) = event_stored V e row dup"
| "commit_stored V e (QuarantineCommit row dup) = quarantine_stored V e row dup"
| "commit_stored V e _ = True"

lemma stored_kept:
  assumes "rows_kept V w w'"
  shows "event_stored V (env w) row dup \<Longrightarrow> event_stored V (env w') row dup"
    and "quarantine_stored V (env w) q dup \<Longrightarrow> quarantine_stored V (env w') q dup"
    and "commit_stored V (env w) x \<Longrightarrow> commit_stored V (env w') x"
proof -
  show e: "event_stored V (env w) row dup \<Longrightarrow> event_stored V (env w') row dup" for row dup
    using rows_kept_events [OF assms] by (fastforce simp: event_stored_def split: if_splits)
  show q: "quarantine_stored V (env w) q dup \<Longrightarrow> quarantine_stored V (env w') q dup" for q dup
    using rows_kept_quarantine [OF assms] by (fastforce simp: quarantine_stored_def split: if_splits)
  show "commit_stored V (env w) x \<Longrightarrow> commit_stored V (env w') x"
    by (cases x) (simp_all add: e q)
qed

text \<open>Rows stay, and every commit a step adds to the history is in the tables afterwards.\<close>

definition durable_step :: "'e store_view \<Rightarrow> 'e world \<Rightarrow> 'e world \<Rightarrow> bool" where
  "durable_step V w w' \<longleftrightarrow> rows_kept V w w' \<and>
     (\<exists>t. history w' = history w @ t \<and> list_all (commit_stored V (env w')) t)"

interpretation ds: world_relation "durable_step V"
proof
  fix u v w :: "'a world"
  show "durable_step V w w" by (simp add: durable_step_def rk.R_refl)
  assume uv: "durable_step V u v" and vw: "durable_step V v w"
  then obtain s t where "history v = history u @ s" "list_all (commit_stored V (env v)) s"
    "history w = history v @ t" "list_all (commit_stored V (env w)) t" and k: "rows_kept V u v" "rows_kept V v w"
    unfolding durable_step_def by blast
  moreover from this(2) have "list_all (commit_stored V (env w)) s"
    using stored_kept(3) [OF k(2)] by (simp add: list_all_iff)
  ultimately show "durable_step V u w" using rk.R_trans [OF k] by (simp add: durable_step_def)
qed

fun is_commit :: "effect \<Rightarrow> bool" where
  "is_commit (EventCommit row dup) = True"
| "is_commit (QuarantineCommit row dup) = True"
| "is_commit _ = False"

lemma durable_step_quiet:
  assumes "rows_kept V w w'" and "history w' = history w @ t" and "list_all (\<lambda>x. \<not> is_commit x) t"
  shows "durable_step V w w'"
proof -
  have "commit_stored V e x" if "\<not> is_commit x" for e x using that by (cases x) auto
  with assms show ?thesis by (simp add: durable_step_def list_all_iff)
qed

lemma keeps_call_durable:
  assumes "keeps (rows_kept V) (io_call f)"
  shows "keeps (durable_step V) (io_call f)"
  unfolding keeps_def
proof
  fix w
  have "rows_kept V w (snd (io_call f w))" using assms by (simp add: keeps_def)
  moreover have "history (snd (io_call f w)) = history w @ []"
    by (simp add: io_call_def split: prod.split)
  ultimately show "durable_step V w (snd (io_call f w))" by (rule durable_step_quiet) simp
qed

lemma keeps_log_durable: "\<not> is_commit x \<Longrightarrow> keeps (durable_step V) (io_log x)"
  unfolding keeps_def by (auto intro!: durable_step_quiet [of V _ _ "[x]"] simp: rows_kept_def store_le_def)

lemma keeps_nogroup_due_durable: "keeps (durable_step V) (nogroup_due b t)"
proof -
  have "durable_step V w (w\<lparr>last_nogroup_recreate_attempt := Some t\<rparr>)" for w :: "'a world"
    by (rule durable_step_quiet [of V _ _ "[]"]) (simp_all add: rows_kept_def store_le_def)
  then show ?thesis by (simp add: keeps_def nogroup_due_def ds.R_refl)
qed

lemma keeps_emit_durable:
  assumes "append_only X V"
  shows "keeps (durable_step V) (emit_alert X osenv c s p m md)"
  unfolding keeps_def
proof
  fix w
  obtain r w' where e: "emit_alert X osenv c s p m md w = (r, w')" by fastforce
  have "rows_kept V w w'" using keepsD [OF keeps_emit_alert_rows [OF assms] e] .
  moreover from keepsD [OF keeps_emit_alerts e] obtain t where "history w' = history w @ t" "list_all is_alert t"
    by (auto simp: grows_def)
  moreover have "\<not> is_commit x" if "is_alert x" for x using that by (cases x) auto
  then have "list_all (\<lambda>x. \<not> is_commit x) t" using \<open>list_all is_alert t\<close> by (auto simp: list_all_iff)
  ultimately show "durable_step V w (snd (emit_alert X osenv c s p m md w))"
    using e by (simp add: durable_step_quiet)
qed

lemma durable_step_commit:
  assumes "rows_kept V w w'" and "history w' = history w @ [x]" and "commit_stored V (env w') x"
  shows "durable_step V w w'"
  using assms by (simp add: durable_step_def)

lemma keeps_sink_write_durable:
  assumes "store_ok X V"
  shows "keeps (durable_step V) (sink_write X cfg ev st)"
  unfolding keeps_def
proof
  fix w
  have a: "append_only X V" and c: "commits_ok X V" using assms by (auto simp: store_ok_def)
  obtain r w' where s: "sink_write X cfg ev st w = (r, w')" by fastforce
  have k: "rows_kept V w w'" using keepsD [OF keeps_sink_write_rows [OF a] s] .
  from s have "durable_step V w w'"
  proof (cases rule: sink_write_cases)
    case (bad_row e)
    then show ?thesis by (simp add: ds.R_refl)
  next
    case (inserted row e')
    then have "event_stored V e' row False" using c unfolding commits_ok_def event_stored_def by simp
    with inserted k show ?thesis by (intro durable_step_commit [of V w w' "EventCommit row False"]) auto
  next
    case (duplicate row x e1 e')
    then have "event_stored V (env w) row True" using c unfolding commits_ok_def event_stored_def if_True by blast
    with stored_kept(1) [OF k] duplicate k show ?thesis
      by (intro durable_step_commit [of V w w' "EventCommit row True"]) auto
  next
    case (unrolled row x e1 y e')
    then show ?thesis using k by (intro durable_step_quiet [of V w w' "[]"]) auto
  next
    case (failed row x e')
    then show ?thesis using k by (intro durable_step_quiet [of V w w' "[]"]) auto
  qed
  with s show "durable_step V w (snd (sink_write X cfg ev st w))" by simp
qed

lemma keeps_quarantine_commit_durable:
  assumes "store_ok X V"
  shows "keeps (durable_step V) (quarantine_commit X row)"
  unfolding keeps_def
proof
  fix w
  have a: "append_only X V" and c: "commits_ok X V" using assms by (auto simp: store_ok_def)
  obtain r w' where s: "quarantine_commit X row w = (r, w')" by fastforce
  have k: "rows_kept V w w'" using keepsD [OF keeps_quarantine_commit_rows [OF a] s] .
  from s have "durable_step V w w'"
  proof (cases rule: quarantine_commit_cases)
    case (inserted e')
    then have "quarantine_stored V e' row False" using c unfolding commits_ok_def quarantine_stored_def by simp
    with inserted k show ?thesis by (intro durable_step_commit [of V w w' "QuarantineCommit row False"]) auto
  next
    case (duplicate x e1 e')
    then have "quarantine_stored V (env w) row True" using c unfolding commits_ok_def quarantine_stored_def if_True by blast
    with stored_kept(2) [OF k] duplicate k show ?thesis
      by (intro durable_step_commit [of V w w' "QuarantineCommit row True"]) auto
  next
    case (unrolled x e1 y e')
    then show ?thesis using k by (intro durable_step_quiet [of V w w' "[]"]) auto
  next
    case (failed x e')
    then show ?thesis using k by (intro durable_step_quiet [of V w w' "[]"]) auto
  qed
  with s show "durable_step V w (snd (quarantine_commit X row w))" by simp
qed

lemma keeps_quarantine_write_durable:
  assumes "store_ok X V"
  shows "keeps (durable_step V) (quarantine_write X osenv cfg i fs n)"
proof -
  have "append_only X V" using assms by (simp add: store_ok_def)
  then show ?thesis
    unfolding quarantine_write_eq quarantine_alert_def
    by (intro ds.keeps_rules keeps_emit_durable keeps_quarantine_commit_durable assms)
qed

lemma keeps_handlers_durable:
  assumes "store_ok X V"
  shows "keeps (durable_step V) (handle_message X P cfg i fs)"
    and "keeps (durable_step V) (quarantine_and_ack X osenv cfg i fs n)"
proof -
  have "append_only X V" using assms by (simp add: store_ok_def)
  note calls = append_only_keeps [OF this, THEN keeps_call_durable]
  show "keeps (durable_step V) (handle_message X P cfg i fs)"
    "keeps (durable_step V) (quarantine_and_ack X osenv cfg i fs n)"
    by (intro ds.keeps_acking keeps_log_durable calls keeps_sink_write_durable
        keeps_quarantine_write_durable assms; simp)+
qed

lemma keeps_run_durable:
  assumes "store_ok X V"
  shows "keeps (durable_step V) (sweep_pending X P osenv cfg)"
    and "keeps (durable_step V) (run X P osenv cfg n)"
proof -
  have a: "append_only X V" using assms by (simp add: store_ok_def)
  note calls = append_only_keeps [OF a, THEN keeps_call_durable]
  have e: "keeps (durable_step V) (ensure_group X cfg)"
    by (intro ds.keeps_ensure_group calls keeps_log_durable) simp
  have s: "keeps (durable_step V) (sleep X t)" for t
    unfolding sleep_def by (intro ds.keeps_rules calls keeps_log_durable) simp
  have g: "keeps (durable_step V) (recreate_group X cfg t)" for t
    by (intro ds.keeps_recreate_group keeps_nogroup_due_durable keeps_log_durable e) simp
  show "keeps (durable_step V) (sweep_pending X P osenv cfg)"
    by (intro ds.keeps_sweep_pending ds.keeps_claim_stale ds.keeps_handle_nogroup calls keeps_emit_durable a g
        keeps_handlers_durable assms)
  show "keeps (durable_step V) (run X P osenv cfg n)"
    by (intro ds.keeps_run ds.keeps_iteration ds.keeps_claim_stale ds.keeps_handle_nogroup e s
        calls keeps_emit_durable a g keeps_handlers_durable assms)
qed

text \<open>An acknowledgement in a justified history, with what comes directly before it.\<close>

lemma acks_justifiedD:
  "acks_justified P cfg h \<Longrightarrow> Ack i \<in> set h \<Longrightarrow>
     \<exists>fs t u. (\<exists>row dup. event_row_of P cfg fs row \<and> h = t @ [Handling i fs, EventCommit row dup, Ack i] @ u) \<or>
       (\<exists>row dup as. quarantine_row_of cfg i fs row \<and> list_all is_alert as \<and>
          h = t @ [Handling i fs, QuarantineCommit row dup] @ as @ [Ack i] @ u)"
proof (induction rule: acks_justified.induct)
  case (other h x)
  then have "Ack i \<in> set h" by auto
  with other.IH show ?case by (metis append.assoc)
next
  case (event h fs row j dup)
  show ?case
  proof (cases "i = j")
    case True
    with event.hyps(2) show ?thesis by (intro exI [of _ fs] exI [of _ h] exI [of _ "[]"] disjI1) auto
  next
    case False
    with event.prems have "Ack i \<in> set h" by auto
    with event.IH show ?thesis by (metis append.assoc)
  qed
next
  case (quarantine h j fs row as dup)
  then have a: "Ack i \<notin> set as" by (auto simp: list_all_iff)
  show ?case
  proof (cases "i = j")
    case True
    with quarantine.hyps(2,3) show ?thesis by (intro exI [of _ fs] exI [of _ h] exI [of _ "[]"] disjI2) auto
  next
    case False
    with a quarantine.prems have "Ack i \<in> set h" by auto
    with quarantine.IH show ?thesis by (metis append.assoc)
  qed
qed simp

section \<open>Recreation attempts\<close>

text \<open>The creations of the group in a history, with the attempts at recreating it.\<close>

fun is_creation :: "effect \<Rightarrow> bool" where
  "is_creation GroupCreate = True"
| "is_creation (RecreateAttempt t) = True"
| "is_creation _ = False"

text \<open>
  The group was created at the start, and then again at the times \<open>ts\<close> only, each at least
  \<open>backoff\<close> seconds after the one before it.
\<close>

definition creations :: "rat list \<Rightarrow> effect list" where
  "creations ts = GroupCreate # concat (map (\<lambda>t. [RecreateAttempt t, GroupCreate]) ts)"

definition recreated :: "config \<Rightarrow> effect list \<Rightarrow> rat list \<Rightarrow> bool" where
  "recreated cfg h ts \<longleftrightarrow> filter is_creation h = creations ts \<and>
     successively (\<lambda>s t. WORKER_NOGROUP_RETRY_BACKOFF_SECONDS cfg \<le> t - s) ts \<and>
     (WORKER_AUTO_RECREATE_STREAM_ON_NOGROUP cfg \<or> ts = [])"

definition recreation_inv :: "config \<Rightarrow> 'e world \<Rightarrow> bool" where
  "recreation_inv cfg w \<longleftrightarrow> (\<exists>ts. recreated cfg (history w) ts \<and>
     last_nogroup_recreate_attempt w = (if ts = [] then None else Some (last ts)))"

definition recreation_kept :: "config \<Rightarrow> 'e world \<Rightarrow> 'e world \<Rightarrow> bool" where
  "recreation_kept cfg w w' \<longleftrightarrow> (recreation_inv cfg w \<longrightarrow> recreation_inv cfg w')"

interpretation rc: world_relation "recreation_kept cfg"
  by unfold_locales (auto simp: recreation_kept_def)

lemma recreation_inv_cong:
  assumes "filter is_creation (history w') = filter is_creation (history w)"
    and "last_nogroup_recreate_attempt w' = last_nogroup_recreate_attempt w"
  shows "recreation_inv cfg w' \<longleftrightarrow> recreation_inv cfg w"
  by (simp add: recreation_inv_def recreated_def assms)

text \<open>\<open>ensure_group\<close> sends one \<open>XGROUP CREATE\<close>, whatever comes of it.\<close>

lemma ensure_group_run:
  assumes "ensure_group X cfg w = (r, w')"
  shows "history w' = history w @ [GroupCreate] \<and>
    last_nogroup_recreate_attempt w' = last_nogroup_recreate_attempt w \<and> last_sent w' = last_sent w"
  using assms
  by (auto simp: ensure_group_def io_bind_def io_try_def io_call_def split: prod.splits sum.splits if_splits)

lemma keeps_recreate_recreation:
  assumes "WORKER_AUTO_RECREATE_STREAM_ON_NOGROUP cfg"
  shows "keeps (recreation_kept cfg) (recreate_group X cfg t)"
  unfolding keeps_def
proof
  fix w :: "'a world"
  let ?b = "WORKER_NOGROUP_RETRY_BACKOFF_SECONDS cfg"
  let ?w = "w\<lparr>last_nogroup_recreate_attempt := Some t, history := history w @ [RecreateAttempt t]\<rparr>"
  obtain r w' where e: "ensure_group X cfg ?w = (r, w')" by (rule prod.exhaust)
  have run: "recreate_group X cfg t w = (if (case last_nogroup_recreate_attempt w of None \<Rightarrow> False | Some s \<Rightarrow> t - s < ?b)
      then (Inr False, w) else ((case r of Inl _ \<Rightarrow> Inr False | Inr _ \<Rightarrow> Inr True), w'))"
    using e by (cases r) (simp_all add: recreate_group_def nogroup_due_def io_bind_def io_try_def split: option.split)
  have "recreation_inv cfg w'"
    if inv: "recreation_inv cfg w" and due: "\<forall>s. last_nogroup_recreate_attempt w = Some s \<longrightarrow> ?b \<le> t - s"
  proof -
    obtain ts where ts: "recreated cfg (history w) ts"
      "last_nogroup_recreate_attempt w = (if ts = [] then None else Some (last ts))"
      using inv unfolding recreation_inv_def by blast
    have "filter is_creation (history w') = creations (ts @ [t])"
      using ts(1) ensure_group_run [OF e] by (simp add: recreated_def creations_def)
    moreover have "successively (\<lambda>s t. ?b \<le> t - s) (ts @ [t])"
      using ts due by (cases "ts = []") (simp_all add: recreated_def successively_append_iff)
    ultimately have "recreated cfg (history w') (ts @ [t])" using assms by (simp add: recreated_def)
    then show ?thesis using ensure_group_run [OF e] unfolding recreation_inv_def by (intro exI [of _ "ts @ [t]"]) simp
  qed
  then show "recreation_kept cfg w (snd (recreate_group X cfg t w))"
    by (auto simp: run recreation_kept_def not_less split: option.split)
qed

section \<open>Every effect of a run\<close>

text \<open>
  A relation kept by the calls, by logging, by the deduplication table and by
  the recreation limit is kept by the worker.
\<close>

locale run_relation = world_relation R for R :: "'e world \<Rightarrow> 'e world \<Rightarrow> bool" +
  fixes cfg :: config and allowed :: "effect \<Rightarrow> bool"
  assumes env_change: "R w (w\<lparr>env := e\<rparr>)"
    and log_allowed: "allowed x \<Longrightarrow> R w (w\<lparr>history := history w @ [x]\<rparr>)"
    and dedup: "keeps R (alert_gate a 300 t)"
    and recreate: "WORKER_AUTO_RECREATE_STREAM_ON_NOGROUP cfg \<Longrightarrow> keeps R (recreate_group X cfg t)"
    and allow: "allowed (Handling i fs)" "allowed (EventCommit row dup)" "allowed (QuarantineCommit q dup)"
      "allowed (Ack i)" "allowed (Sleep t)"
begin

lemma keeps_call: "keeps R (io_call f)"
  by (simp add: keeps_def io_call_def env_change split: prod.split)

lemma keeps_log: "allowed x \<Longrightarrow> keeps R (io_log x)"
  by (simp add: keeps_def log_allowed)

lemma keeps_emit: "keeps R (emit_alert X osenv c s p m md)"
  unfolding emit_alert_def by (intro keeps_emit_security_alert keeps_default_send keeps_call dedup)

lemma keeps_writers:
  "keeps R (sink_write X cfg ev st)" "keeps R (quarantine_write X osenv cfg i fs n)"
  unfolding sink_write_def quarantine_write_def
  by (intro keeps_rules keeps_call keeps_log keeps_emit allow)+

lemma keeps_nogroup: "keeps R (handle_nogroup X osenv cfg ctx)"
  by (intro keeps_handle_nogroup keeps_emit keeps_call recreate)

lemma keeps_run_loop: "keeps R (run_loop X P osenv cfg n)"
proof -
  have "keeps R (iteration X P osenv cfg)"
    unfolding sleep_def
    by (intro keeps_iteration keeps_claim_stale keeps_nogroup keeps_acking keeps_writers keeps_call
        keeps_log allow) (intro keeps_rules keeps_call keeps_log allow | simp add: sleep_def)+
  then show ?thesis by (induction n) (simp_all only: run_loop.simps keeps_rules)
qed

lemma keeps_worker:
  assumes "allowed GroupCreate"
  shows "keeps R (worker_main X P osenv cfg n)"
  unfolding worker_main_def run_def
  by (intro keeps_rules keeps_ensure_group keeps_log keeps_call keeps_run_loop assms)

end

interpretation dr: run_relation "dedup_kept 300" cfg "\<lambda>x. \<not> is_alert x"
proof
  fix w :: "'a world" and e x
  show "dedup_kept 300 w (w\<lparr>env := e\<rparr>)" by (simp add: dedup_kept_def dedup_inv_def)
  show "dedup_kept 300 w (w\<lparr>history := history w @ [x]\<rparr>)" if "\<not> is_alert x"
    by (rule keepsD [OF keeps_log_dedup [OF that]]) simp
  show "keeps (dedup_kept 300) (alert_gate a 300 t)" for a t by (rule keeps_alert_gate)
  have "keeps (dedup_kept 300) (nogroup_due b t)" for b t
    by (auto simp: keeps_def dedup_kept_def dedup_inv_def nogroup_due_def)
  then show "keeps (dedup_kept 300) (recreate_group X cfg t)" for X :: "'a ops" and t
    by (intro dk.keeps_recreate_group dk.keeps_ensure_group keeps_call_dedup keeps_log_dedup) simp_all
qed simp_all

interpretation rr: run_relation "recreation_kept cfg" cfg "\<lambda>x. \<not> is_creation x"
proof
  fix w :: "'a world" and e x
  show "recreation_kept cfg w (w\<lparr>env := e\<rparr>)" by (simp add: recreation_kept_def recreation_inv_def)
  show "recreation_kept cfg w (w\<lparr>history := history w @ [x]\<rparr>)" if "\<not> is_creation x"
    using that recreation_inv_cong [of "w\<lparr>history := history w @ [x]\<rparr>" w cfg] by (simp add: recreation_kept_def)
  show "keeps (recreation_kept cfg) (alert_gate a 300 t)" for a t
    by (auto simp: keeps_def alert_gate_eq recreation_kept_def recreation_inv_def recreated_def)
  show "keeps (recreation_kept cfg) (recreate_group X cfg t)"
    if "WORKER_AUTO_RECREATE_STREAM_ON_NOGROUP cfg" for X :: "'a ops" and t
    by (rule keeps_recreate_recreation [OF that])
qed simp_all

section \<open>Exceptions that end the loop\<close>

definition raises_only :: "(exn \<Rightarrow> bool) \<Rightarrow> ('e, 'a) io \<Rightarrow> bool" where
  "raises_only E m \<longleftrightarrow> (\<forall>w e w'. m w = (Inl e, w') \<longrightarrow> E e)"

lemma raises_only_return: "raises_only E (io_return x)"
  by (simp add: raises_only_def)

lemma raises_only_bind:
  "raises_only E m \<Longrightarrow> (\<And>x. raises_only E (f x)) \<Longrightarrow> raises_only E (io_bind m f)"
  unfolding raises_only_def io_bind_Inl by blast

lemma raises_only_try: "(\<And>e. raises_only E (h e)) \<Longrightarrow> raises_only E (io_try m h)"
  by (auto simp: raises_only_def io_try_def split: prod.splits sum.splits)

lemma raises_only_each: "(\<And>x. raises_only E (f x)) \<Longrightarrow> raises_only E (io_each f xs)"
  by (induction xs) (simp_all add: raises_only_return raises_only_bind)

lemma raises_only_if: "raises_only E m \<Longrightarrow> raises_only E n \<Longrightarrow> raises_only E (if b then m else n)"
  by simp

lemma raises_only_log: "raises_only E (io_log x)"
  by (simp add: raises_only_def)

lemma raises_only_call: "(\<And>u e v. f u = (Inl e, v) \<Longrightarrow> E e) \<Longrightarrow> raises_only E (io_call f)"
  by (auto simp: raises_only_def io_call_def split: prod.splits)

lemmas raises_rules = raises_only_return raises_only_bind raises_only_try raises_only_each
  raises_only_if raises_only_log

text \<open>
  The errors of the calls that are made outside every handler: \<open>XACK\<close>, the backoff sleep,
  and the opening and the closing of a database session.
\<close>

definition unhandled :: "'e ops \<Rightarrow> config \<Rightarrow> exn \<Rightarrow> bool" where
  "unhandled X cfg e \<longleftrightarrow>
     (\<exists>i u v. op_xack X (STREAM_NAME cfg) (CONSUMER_GROUP cfg) i u = (Inl e, v)) \<or>
     (\<exists>u v. op_sleep X (WORKER_NOGROUP_RETRY_BACKOFF_SECONDS cfg) u = (Inl e, v)) \<or> session_error X e"

lemma raises_ack: "raises_only (unhandled X cfg) (ack X cfg i)"
  unfolding ack_def by (intro raises_rules raises_only_call) (auto simp: unhandled_def)

lemma raises_with_session: "raises_only (unhandled X cfg) (with_session X m)"
  unfolding raises_only_def
proof (intro allI impI)
  fix w e w' assume "with_session X m w = (Inl e, w')"
  then show "unhandled X cfg e"
    by (cases rule: with_session_cases) (auto simp: unhandled_def session_error_def split: sum.splits)
qed

lemma raises_handle_message: "raises_only (unhandled X cfg) (handle_message X P cfg i fs)"
proof -
  have "raises_only E (parse_entry X P fs)" for E :: "exn \<Rightarrow> bool"
    unfolding parse_entry_def by (intro raises_rules)
  then show ?thesis
    unfolding handle_message_def Let_def
    by (intro raises_only_bind raises_only_log) (auto intro!: raises_rules raises_ack raises_with_session split: option.split)
qed

lemma raises_quarantine_and_ack: "raises_only (unhandled X cfg) (quarantine_and_ack X osenv cfg i fs n)"
  unfolding quarantine_and_ack_def by (intro raises_rules raises_ack raises_with_session)

lemma raises_emit_alert:
  assumes "clocks_ok X"
  shows "raises_only E (emit_alert X osenv c s p m md)"
  unfolding raises_only_def emit_alert_def
proof (intro allI impI)
  fix w e w'
  assume "emit_security_alert X (default_send X osenv) 300 None c s p m md w = (Inl e, w')"
  moreover obtain r w1 where "emit_security_alert X (default_send X osenv) 300 None c s p m md w = (Inr r, w1)"
    using emit_total [OF assms] by blast
  ultimately show "E e" by simp
qed

lemma raises_handle_nogroup:
  assumes "clocks_ok X"
  shows "raises_only E (handle_nogroup X osenv cfg ctx)"
proof -
  have m: "raises_only E (io_call (op_monotonic X))"
  proof (rule raises_only_call)
    fix u e v assume "op_monotonic X u = (Inl e, v)"
    moreover have "is_ok (fst (op_monotonic X u))" using assms by (simp add: clocks_ok_def)
    ultimately show "E e" by simp
  qed
  have "raises_only E (nogroup_due b t)" for b t by (simp add: raises_only_def nogroup_due_def)
  with m show ?thesis
    unfolding handle_nogroup_def by (intro raises_rules raises_emit_alert assms)
qed

lemma raises_run_loop:
  assumes "clocks_ok X"
  shows "raises_only (unhandled X cfg) (run_loop X P osenv cfg n)"
proof -
  have "raises_only (unhandled X cfg) (sweep_pending X P osenv cfg)"
    unfolding sweep_pending_def
    by (intro raises_only_bind raises_only_try raises_only_if raises_only_return raises_handle_nogroup assms)
      (auto intro!: raises_only_bind raises_only_each raises_only_return raises_quarantine_and_ack
        raises_handle_message split: option.split prod.split)
  moreover have "raises_only (unhandled X cfg) (read_new X osenv cfg)"
    unfolding read_new_def sleep_def
    by (intro raises_rules raises_handle_nogroup assms raises_only_call) (auto simp: unhandled_def)
  ultimately have "raises_only (unhandled X cfg) (iteration X P osenv cfg)"
    unfolding iteration_def
    by (intro raises_only_bind) (auto intro!: raises_only_each raises_handle_message split: prod.split)
  then show ?thesis by (induction n) (simp_all add: raises_only_return raises_only_bind)
qed

section \<open>A run in memory\<close>

text \<open>The smallest event, its text, and a stream with that one entry.\<close>

definition min_event :: "string \<Rightarrow> datetime \<Rightarrow> audit_event" where
  "min_event u n =
     \<lparr>event_id = u, timestamp = n, service = ''tes'', event_type = ''submit'', user_id = None,
      organization_id = None, tenant_scope = ''unknown'', action = [], resource = None, decision = None,
      reason = None, trace_id = None, event_context = PDict []\<rparr>"

lemma min_event_text:
  obtains t where "parse_audit_event strict_pydantic u n (Some t) = Inr (min_event u n)"
    "payload_lacks (Some t) ''event_id''" "payload_lacks (Some t) ''timestamp''"
proof -
  let ?v = "PDict [(''service'', PStr ''tes''), (''event_type'', PStr ''submit'')]"
  let ?o = "\<lparr>sort_keys = False, item_sep = '','', key_sep = '':'', default_str = False\<rparr>"
  have "utf8_ok ''service''" "utf8_ok ''tes''" "utf8_ok ''event_type''" "utf8_ok ''submit''"
    by (simp_all add: utf8_ok_ascii code_def)
  then have ok: "json_ok ?v" by simp
  obtain t where t: "json_dumps ?o ?v = Inr t" using json_dumps_ok [OF ok] by blast
  have "opts_ok ?o" by (simp add: opts_ok_def)
  from json_loads_dumps [OF this ok t] have "json_loads (Some t) = Inr ?v" by (simp add: order_items_def)
  then have "parse_audit_event strict_pydantic u n (Some t) = Inr (min_event u n)"
    by (simp add: parse_audit_event_def audit_event_init_def get_default_def get_required_def
        get_optional_def strict_pydantic_def validate_tenant_scope_def min_event_def)
  moreover have "payload_lacks (Some t) ''event_id''" "payload_lacks (Some t) ''timestamp''"
    using \<open>json_loads (Some t) = Inr ?v\<close> by (simp_all add: payload_lacks_def)
  ultimately show ?thesis by (rule that)
qed

lemma min_event_row:
  assumes "is_ascii u"
  shows "\<exists>row. sink_row example_config (min_event u (DateTime 63870000000000000 None)) ''unsigned'' = Inr row"
proof -
  let ?ts = "DateTime 63870000000000000 None"
  let ?r = "\<lparr>event_id = u, timestamp = ?ts, service = ''tes'', event_type = ''submit'', user_id = None,
      organization_id = None, tenant_scope = ''unknown'', action = [], resource = None, decision = None,
      reason = None, trace_id = None, event_context = PDict [], integrity_status = ''unsigned'',
      record_integrity_hash = None, integrity_key_id = None, created_at = None\<rparr>"
  have "in_range (wall ?ts)" "\<exists>t. canonical_timestamp False ?ts = Inr t"
    by (auto simp: canonical_timestamp_Inr utc_naive_def in_range_def max_wall_def usec_day_def
        mysql_round_def usec_def)
  moreover have "ascii_texts ?r" "event_context ?r \<noteq> PNone" "timestamp ?r = ?ts"
    using assms by (simp_all add: ascii_texts_def code_def)
  moreover have "\<exists>t. canonical_json (event_context ?r) = Inr t \<and> is_ascii t"
    by (simp add: canonical_json_def code_def)
  moreover have "is_ascii ''key-1''" by (simp add: code_def)
  ultimately have "\<exists>h. compute_audit_event_hash (event_fields ?r) ''0123456789abcdef0123456789abcdef'' (Some ''key-1'') = Inr h"
    using example_key by (metis compute_event_hash_ok)
  then show ?thesis by (auto simp: sink_row_def example_config_key min_event_def utc_naive_def Let_def)
qed

lemma mem_sessions:
  "op_open_session mem_ops e = (Inr (), e)" "op_rollback mem_ops e = (Inr (), e)" "op_close_session mem_ops e = (Inr (), e)"
  by (simp_all add: mem_ops_def)

lemma with_free_session:
  assumes "\<And>e. op_open_session X e = (Inr (), e)" and "\<And>e. op_close_session X e = (Inr (), e)"
    and "m w = (Inr b, w')"
  shows "with_session X m w = (Inr b, w')"
  by (simp add: with_session_def io_bind_def io_finally_def io_try_def io_call_def assms)

definition example_osenv :: environ where
  "example_osenv = [''JWT_SECRET'' \<mapsto> ''a real secret'']"

text \<open>One iteration on that stream, with any behaviour \<open>f\<close> of \<open>XACK\<close>.\<close>

lemma example_first_read:
  fixes f :: "string \<Rightarrow> string \<Rightarrow> string \<Rightarrow> mem \<Rightarrow> unit res \<times> mem" and fs :: stream_fields
  defines "X \<equiv> mem_ops\<lparr>op_xack := f\<rparr>"
  obtains w0 w2 where "ensure_group X example_config (world_init (mem_init [(''1-0'', fs)])) = (Inr (), w0)"
    "sweep_pending X strict_pydantic example_osenv example_config w0 = (Inr (), w0)"
    "read_new X example_osenv example_config w0 = (Inr [(''audit:events'', [(''1-0'', fs)])], w2)"
    "history w2 = [GroupCreate]" "mem_events (env w2) = []"
proof
  let ?start = "world_init (mem_init [(''1-0'', fs)])"
  let ?created = "?start\<lparr>env := (env ?start)\<lparr>mem_group := True\<rparr>, history := [GroupCreate]\<rparr>"
  let ?received = "?created\<lparr>env := (env ?created)\<lparr>mem_new := [], mem_pending := [(''1-0'', 1)]\<rparr>\<rparr>"
  show "ensure_group X example_config ?start = (Inr (), ?created)"
    by (simp add: X_def ensure_group_def io_bind_def io_try_def io_call_def mem_ops_def world_init_def mem_init_def)
  show "sweep_pending X strict_pydantic example_osenv example_config ?created = (Inr (), ?created)"
    by (simp add: X_def sweep_pending_def claim_stale_def io_bind_def io_try_def io_call_def mem_ops_def world_init_def mem_init_def)
  have "read_group X example_config (CONSUMER_NAME example_config) ?created = (Inr [(''audit:events'', [(''1-0'', fs)])], ?received)"
    by (simp add: X_def read_group_def io_call_def mem_ops_def world_init_def mem_init_def example_config_def Let_def)
  then show "read_new X example_osenv example_config ?created = (Inr [(''audit:events'', [(''1-0'', fs)])], ?received)"
    by (simp add: read_new_def io_try_def)
  show "history ?received = [GroupCreate]" "mem_events (env ?received) = []" by (simp_all add: world_init_def mem_init_def)
qed

lemma example_worker_run:
  fixes f :: "string \<Rightarrow> string \<Rightarrow> string \<Rightarrow> mem \<Rightarrow> unit res \<times> mem"
  obtains t row w1 where
    "worker_main (mem_ops\<lparr>op_xack := f\<rparr>) strict_pydantic example_osenv example_config 1
       (world_init (mem_init [(''1-0'', [(''data'', t)])])) =
     (fst (f ''audit:events'' ''audit-workers'' ''1-0'' (env w1)),
      w1\<lparr>env := snd (f ''audit:events'' ''audit-workers'' ''1-0'' (env w1))\<rparr>)"
    "history w1 = [GroupCreate, Handling ''1-0'' [(''data'', t)], EventCommit row False, Ack ''1-0'']"
proof -
  let ?X = "mem_ops\<lparr>op_xack := f\<rparr>"
  let ?u = "''00000000-0000-4000-8000-000000000000''"
  let ?n = "DateTime 63870000000000000 None"
  obtain t where t: "parse_audit_event strict_pydantic ?u ?n (Some t) = Inr (min_event ?u ?n)"
    "payload_lacks (Some t) ''event_id''" "payload_lacks (Some t) ''timestamp''"
    by (rule min_event_text)
  have "is_ascii ?u" by (simp add: code_def)
  then obtain row where row: "sink_row example_config (min_event ?u ?n) ''unsigned'' = Inr row"
    using min_event_row by blast
  let ?fs = "[(''data'', t)]"
  let ?w = "world_init (mem_init [(''1-0'', ?fs)])"
  obtain w0 w2 where e: "ensure_group ?X example_config ?w = (Inr (), w0)"
    and s: "sweep_pending ?X strict_pydantic example_osenv example_config w0 = (Inr (), w0)"
    and r: "read_new ?X example_osenv example_config w0 = (Inr [(''audit:events'', [(''1-0'', ?fs)])], w2)"
    and w2: "history w2 = [GroupCreate]" "mem_events (env w2) = []"
    by (rule example_first_read)
  define w3 where "w3 = w2\<lparr>history := history w2 @ [Handling ''1-0'' ?fs]\<rparr>"
  have p: "parse_entry ?X strict_pydantic ?fs w3 = (Inr (Some (min_event ?u ?n)), w3)"
    by (simp add: parse_entry_def io_try_def io_bind_def io_call_def mem_ops_def t)
  have cl: "classify_event_integrity sv None d x = ''unsigned''" for sv d x
    by (simp add: classify_event_integrity_def)
  obtain e4 where c: "op_commit_event mem_ops row (env w3) = (Inr (), e4)"
    by (simp add: mem_ops_def w3_def w2)
  define w4 where "w4 = w3\<lparr>env := e4, history := history w3 @ [EventCommit row False]\<rparr>"
  have sw: "sink_write ?X example_config (min_event ?u ?n) ''unsigned'' w3 = (Inr True, w4)"
    by (simp add: sink_write_def row io_try_def io_bind_def io_call_def c w4_def)
  define w1 where "w1 = w4\<lparr>history := history w4 @ [Ack ''1-0'']\<rparr>"
  define out where "out = f ''audit:events'' ''audit-workers'' ''1-0'' (env w1)"
  have h: "handle_message ?X strict_pydantic example_config ''1-0'' ?fs w2 =
      (case fst out of Inl e \<Rightarrow> Inl e | Inr _ \<Rightarrow> Inr True, w1\<lparr>env := snd out\<rparr>)"
  proof -
    have "with_session ?X (sink_write ?X example_config (min_event ?u ?n) ''unsigned'') w3 = (Inr True, w4)"
      by (rule with_free_session) (simp_all add: sw mem_sessions)
    moreover have "ack ?X example_config ''1-0'' w4 = (fst out, w1\<lparr>env := snd out\<rparr>)"
      by (simp add: ack_def io_bind_def io_call_def w1_def [symmetric] out_def case_prod_beta)
        (simp add: example_config_def)
    ultimately show ?thesis
      unfolding handle_message_def Let_def
      by (cases "fst out") (simp_all add: io_bind_step w3_def [symmetric] p cl)
  qed
  have it: "iteration ?X strict_pydantic example_osenv example_config w0 = (fst out, w1\<lparr>env := snd out\<rparr>)"
    by (cases "fst out") (simp_all add: iteration_def io_bind_step(1) s r io_bind_def h)
  have req: "require_real_signing_secret example_osenv = Inr ()"
    by (simp add: require_real_signing_secret_def getenv_def example_osenv_def)
  have "worker_main ?X strict_pydantic example_osenv example_config 1 ?w = (fst out, w1\<lparr>env := snd out\<rparr>)"
    by (cases "fst out") (simp_all add: worker_main_def req run_def io_bind_step(1) e io_bind_def it)
  moreover have "history w1 = [GroupCreate, Handling ''1-0'' ?fs, EventCommit row False, Ack ''1-0'']"
    by (simp add: w1_def w4_def w3_def w2)
  ultimately show ?thesis by (intro that [of t w1 row]) (simp_all add: out_def)
qed

section \<open>Properties\<close>

text \<open>
  C1: no acknowledgement without its commit.  Whatever Redis, the database and
  the clock do, including every exception they may raise, in every run of the
  worker each \<open>XACK\<close> directly follows (alerts apart) a returned commit of the
  row built from the fields of that very entry, as an audit event or as a
  quarantine record.  The specification is the inductive set of histories
  \<open>acks_justified\<close>; the whole worker process refines it, for every bound on the
  iterations.
\<close>

theorem worker_acks_justified:
  "acks_justified P cfg (history (snd (worker_main X P osenv cfg n (world_init e))))"
proof -
  have "keeps (grows (acks_justified P cfg)) (worker_main X P osenv cfg n)"
    unfolding worker_main_def by (intro aj.grown.keeps_rules keeps_run_grows)
  then have "grows (acks_justified P cfg) (world_init e) (snd (worker_main X P osenv cfg n (world_init e)))"
    by (simp add: keeps_def)
  then show ?thesis by (auto simp: grows_def world_init_def)
qed

lemma acked_stored:
  assumes "store_ok X V" and "worker_main X P osenv cfg n (world_init e) = (r, w')"
    and "Ack i \<in> set (history w')"
  shows "\<exists>fs t u.
    (\<exists>row dup. history w' = t @ [Handling i fs, EventCommit row dup, Ack i] @ u \<and>
       event_row_of P cfg fs row \<and> event_stored V (env w') row dup) \<or>
    (\<exists>row dup as. history w' = t @ [Handling i fs, QuarantineCommit row dup] @ as @ [Ack i] @ u \<and>
       list_all is_alert as \<and> quarantine_row_of cfg i fs row \<and> quarantine_stored V (env w') row dup)"
proof -
  have "keeps (grows (acks_justified P cfg)) (worker_main X P osenv cfg n)"
    unfolding worker_main_def by (intro aj.grown.keeps_rules keeps_run_grows)
  from keepsD [OF this assms(2)] have j: "acks_justified P cfg (history w')"
    by (auto simp: grows_def world_init_def)
  have "keeps (durable_step V) (worker_main X P osenv cfg n)"
    unfolding worker_main_def by (intro ds.keeps_rules keeps_run_durable(2) assms(1))
  from keepsD [OF this assms(2)] have "list_all (commit_stored V (env w')) (history w')"
    by (auto simp: durable_step_def world_init_def)
  then have c: "EventCommit row dup \<in> set (history w') \<Longrightarrow> event_stored V (env w') row dup"
    "QuarantineCommit q dup \<in> set (history w') \<Longrightarrow> quarantine_stored V (env w') q dup" for row q dup
    by (auto simp: list_all_iff)
  from acks_justifiedD [OF j assms(3)] obtain fs t u where
    "(\<exists>row dup. event_row_of P cfg fs row \<and> history w' = t @ [Handling i fs, EventCommit row dup, Ack i] @ u) \<or>
     (\<exists>row dup as. quarantine_row_of cfg i fs row \<and> list_all is_alert as \<and>
        history w' = t @ [Handling i fs, QuarantineCommit row dup] @ as @ [Ack i] @ u)" by blast
  then show ?thesis
  proof (elim disjE exE conjE)
    fix row dup
    assume h: "event_row_of P cfg fs row" "history w' = t @ [Handling i fs, EventCommit row dup, Ack i] @ u"
    then have "event_stored V (env w') row dup" by (intro c) simp
    with h show ?thesis by blast
  next
    fix row dup as
    assume h: "quarantine_row_of cfg i fs row" "list_all is_alert as"
      "history w' = t @ [Handling i fs, QuarantineCommit row dup] @ as @ [Ack i] @ u"
    then have "quarantine_stored V (env w') row dup" by (intro c) simp
    with h show ?thesis by blast
  qed
qed



text \<open>
  C16: no alert storm.  In every run of the worker, whatever fails and however often,
  two alerts of the same component and condition that were handed to the sink are at
  least 300 seconds apart on the clock the worker reads, the recovery alerts
  (conditions that end in \<open>_recovered\<close>) exempt.
\<close>

theorem worker_alerts_spaced:
  "spaced 300 (history (snd (worker_main X P osenv cfg n (world_init e))))"
proof -
  have "keeps (dedup_kept 300) (worker_main X P osenv cfg n)" by (rule dr.keeps_worker) simp
  then have "dedup_kept 300 (world_init e) (snd (worker_main X P osenv cfg n (world_init e)))"
    by (simp add: keeps_def)
  then show ?thesis by (simp add: dedup_kept_def dedup_inv_def world_init_def spaced_Nil)
qed

text \<open>
  C17: automatic recreation is opt-in and rate limited.  A worker that is refused
  its start sends no \<open>XGROUP CREATE\<close>.  Otherwise, in every run and whatever fails, it sends
  one at the start, and then only as automatic recreations, one each; the clock
  readings of any two consecutive recreations are at least the configured backoff
  apart; and with the switch off there is none.
\<close>

theorem worker_recreation_bounded:
  "if is_ok (require_real_signing_secret osenv)
   then \<exists>ts. filter is_creation (history (snd (worker_main X P osenv cfg n (world_init e)))) =
          GroupCreate # concat (map (\<lambda>t. [RecreateAttempt t, GroupCreate]) ts) \<and>
        successively (\<lambda>s t. WORKER_NOGROUP_RETRY_BACKOFF_SECONDS cfg \<le> t - s) ts \<and>
        (WORKER_AUTO_RECREATE_STREAM_ON_NOGROUP cfg \<or> ts = [])
   else history (snd (worker_main X P osenv cfg n (world_init e))) = []"
proof (cases "require_real_signing_secret osenv")
  case (Inl x)
  then show ?thesis by (simp add: worker_main_def world_init_def)
next
  case (Inr u)
  obtain r w1 where g: "ensure_group X cfg (world_init e) = (r, w1)" by (rule prod.exhaust)
  have w1: "recreation_inv cfg w1"
    using ensure_group_run [OF g] unfolding recreation_inv_def
    by (intro exI [of _ "[]"]) (simp add: recreated_def creations_def world_init_def)
  have "keeps (recreation_kept cfg) (run_loop X P osenv cfg n)" by (rule rr.keeps_run_loop)
  with w1 have "recreation_inv cfg (snd (run_loop X P osenv cfg n w1))" by (simp add: keeps_def recreation_kept_def)
  with w1 g Inr have "recreation_inv cfg (snd (worker_main X P osenv cfg n (world_init e)))"
    by (cases r) (simp_all add: worker_main_def run_def io_bind_def)
  with Inr show ?thesis by (auto simp: recreation_inv_def recreated_def creations_def)
qed

text \<open>
  What one entry can come to.  \<open>handle_message\<close> either leaves the entry
  pending (it returns false, nothing was acknowledged and nothing is recorded
  as committed), or it committed the row of the entry and then sent its
  acknowledgement, and returns true unless the acknowledgement itself raised, or its
  session could not be opened or closed, and then nothing was acknowledged.
\<close>

theorem handle_message_outcome:
  assumes "handle_message X P cfg i fs w = (r, w')"
  shows "(r = Inr False \<and> history w' = history w @ [Handling i fs]) \<or>
    (\<exists>row dup. event_row_of P cfg fs row \<and>
       history w' = history w @ [Handling i fs, EventCommit row dup, Ack i] \<and>
       (r = Inr True \<or> (\<exists>e u v. op_xack X (STREAM_NAME cfg) (CONSUMER_GROUP cfg) i u = (Inl e, v) \<and> r = Inl e))) \<or>
    (\<exists>e t. r = Inl e \<and> session_error X e \<and> history w' = history w @ Handling i fs # t \<and>
       (t = [] \<or> (\<exists>row dup. event_row_of P cfg fs row \<and> t = [EventCommit row dup])))"
  using assms
proof (cases rule: handle_message_cases)
  case left_pending
  then show ?thesis by blast
next
  case (crashed e t)
  then show ?thesis by blast
next
  case (acked row dup u)
  obtain x v where "op_xack X (STREAM_NAME cfg) (CONSUMER_GROUP cfg) i u = (x, v)" by fastforce
  with acked show ?thesis by (cases x) auto
qed

theorem handle_message_outcome_witness:
  "\<exists>r w'. handle_message mem_ops strict_pydantic example_config ''1-0'' [] (world_init (mem_init [])) = (r, w') \<and>
     r = Inr False \<and> history w' = [Handling ''1-0'' []]"
proof -
  obtain r w' where h: "handle_message mem_ops strict_pydantic example_config ''1-0'' [] (world_init (mem_init [])) = (r, w')"
    by fastforce
  have "\<not> event_row_of strict_pydantic example_config [] row" for row
    by (simp add: event_row_of_def parse_audit_event_def json_loads_def)
  moreover have "\<not> session_error mem_ops e" for e by (simp add: session_error_def mem_ops_def)
  ultimately show ?thesis using handle_message_outcome [OF h] h by (auto simp: world_init_def)
qed



end
