(* ===== verification/Worker_Progress.thy ===== *)
theory Worker_Progress
  imports Worker_Safety
begin

text \<open>
  Progress of the worker: what gets done when the services it depends on answer.
\<close>

section \<open>Working services\<close>

text \<open>
  The clocks and the UUID generator can be read, a database session can be opened,
  rolled back and closed, \<open>XACK\<close> returns, and a commit returns or meets a taken
  primary key.
\<close>

definition services_ok :: "'e ops \<Rightarrow> bool" where
  "services_ok X \<longleftrightarrow>
     clocks_ok X \<and> (\<forall>e. is_ok (fst (op_uuid4 X e))) \<and> (\<forall>s g i e. is_ok (fst (op_xack X s g i e))) \<and>
     (\<forall>e. is_ok (fst (op_open_session X e)) \<and> is_ok (fst (op_rollback X e)) \<and> is_ok (fst (op_close_session X e))) \<and>
     (\<forall>r e x. fst (op_commit_event X r e) = Inl x \<longrightarrow> kind x = IntegrityError) \<and>
     (\<forall>q e x. fst (op_commit_quarantine X q e) = Inl x \<longrightarrow> kind x = IntegrityError)"

text \<open>What parsing an entry may be given: a UUID and a time, if the payload lacks them.\<close>

definition drawn :: "'e ops \<Rightarrow> string option \<Rightarrow> string \<Rightarrow> datetime \<Rightarrow> bool" where
  "drawn X raw u n \<longleftrightarrow>
     (if payload_lacks raw ''event_id'' then \<exists>e e'. op_uuid4 X e = (Inr u, e') else u = []) \<and>
     (if payload_lacks raw ''timestamp'' then \<exists>e e'. op_now X e = (Inr n, e') else n = DateTime 0 None)"

text \<open>An entry whose payload is an event for which a row can be built.\<close>

definition storable :: "'e ops \<Rightarrow> pydantic \<Rightarrow> config \<Rightarrow> stream_fields \<Rightarrow> bool" where
  "storable X P cfg fs \<longleftrightarrow>
     (\<forall>u n. drawn X (map_of fs ''data'') u n \<longrightarrow>
        (\<exists>ev row. parse_audit_event P u n (map_of fs ''data'') = Inr ev \<and>
           sink_row cfg ev (classify_event_integrity (service ev) (map_of fs ''sig'') (map_of fs ''data'')
             (EVENT_SIGNING_SECRET cfg)) = Inr row))"

lemma no_session_error: "services_ok X \<Longrightarrow> \<not> session_error X e"
  unfolding session_error_def services_ok_def is_ok_iff by (metis fst_conv sum.distinct(1))

lemma rollback_ok: "services_ok X \<Longrightarrow> op_rollback X e \<noteq> (Inl x, e')"
  unfolding services_ok_def is_ok_iff by (metis fst_conv sum.distinct(1))

lemma ack_ok:
  assumes "services_ok X"
  shows "\<exists>w'. ack X cfg i w = (Inr (), w') \<and> history w' = history w @ [Ack i]"
proof -
  have "is_ok (fst (op_xack X (STREAM_NAME cfg) (CONSUMER_GROUP cfg) i (env w)))"
    using assms by (simp add: services_ok_def)
  then obtain e where "op_xack X (STREAM_NAME cfg) (CONSUMER_GROUP cfg) i (env w) = (Inr (), e)"
    by (cases "op_xack X (STREAM_NAME cfg) (CONSUMER_GROUP cfg) i (env w)") (auto simp: is_ok_iff)
  then show ?thesis by (simp add: ack_def io_bind_def io_call_def)
qed

lemma draw_ok:
  assumes "\<And>e. is_ok (fst (f e))"
  shows "\<exists>x w'. (if b then io_call f else io_return y) w = (Inr x, w') \<and> history w' = history w \<and>
    (if b then \<exists>e e'. f e = (Inr x, e') else x = y)"
proof -
  obtain x e where "f (env w) = (Inr x, e)" using assms by (metis is_ok_iff prod.collapse)
  then show ?thesis by (auto simp: io_call_def)
qed

lemma parse_entry_ok:
  assumes "services_ok X" and "storable X P cfg fs"
  obtains ev row w1 where "parse_entry X P fs w = (Inr (Some ev), w1)" "history w1 = history w"
    "sink_row cfg ev (classify_event_integrity (service ev) (map_of fs ''sig'') (map_of fs ''data'')
       (EVENT_SIGNING_SECRET cfg)) = Inr row"
    "\<exists>u n. parse_audit_event P u n (map_of fs ''data'') = Inr ev"
proof -
  let ?raw = "map_of fs ''data''"
  have c: "is_ok (fst (op_uuid4 X e))" "is_ok (fst (op_now X e))" for e
    using assms(1) by (simp_all add: services_ok_def clocks_ok_def)
  obtain u v1 where u: "(if payload_lacks ?raw ''event_id'' then io_call (op_uuid4 X) else io_return []) w = (Inr u, v1)"
    "history v1 = history w" "if payload_lacks ?raw ''event_id'' then \<exists>e e'. op_uuid4 X e = (Inr u, e') else u = []"
    using draw_ok [where f = "op_uuid4 X" and w = w, OF c(1)] by blast
  obtain n v2 where n: "(if payload_lacks ?raw ''timestamp'' then io_call (op_now X) else io_return (DateTime 0 None)) v1
      = (Inr n, v2)" "history v2 = history v1"
    "if payload_lacks ?raw ''timestamp'' then \<exists>e e'. op_now X e = (Inr n, e') else n = DateTime 0 None"
    using draw_ok [where f = "op_now X" and w = v1, OF c(2)] by blast
  have "drawn X ?raw u n" using u(3) n(3) by (simp add: drawn_def)
  then obtain ev row where ev: "parse_audit_event P u n ?raw = Inr ev"
    "sink_row cfg ev (classify_event_integrity (service ev) (map_of fs ''sig'') ?raw (EVENT_SIGNING_SECRET cfg)) = Inr row"
    using assms(2) unfolding storable_def by blast
  have "parse_entry X P fs w = (Inr (Some ev), v2)"
    unfolding parse_entry_def io_try_def io_bind_step(1) [where m = "if payload_lacks ?raw ''event_id'' then _ else _", OF u(1)]
      io_bind_step(1) [where m = "if payload_lacks ?raw ''timestamp'' then _ else _", OF n(1)]
    by (simp add: ev(1))
  then show ?thesis by (rule that) (use ev u(2) n(2) in auto)
qed

lemma sink_write_ok:
  assumes "services_ok X" and "sink_row cfg ev status = Inr row"
  shows "\<exists>w' dup. sink_write X cfg ev status w = (Inr True, w') \<and> history w' = history w @ [EventCommit row dup]"
proof -
  obtain r w' where s: "sink_write X cfg ev status w = (r, w')" by (rule prod.exhaust)
  then show ?thesis
  proof (cases rule: sink_write_cases)
    case (unrolled row' x e1 y e')
    then show ?thesis using rollback_ok [OF assms(1)] by blast
  next
    case (failed row' x e')
    then show ?thesis using assms(1) by (metis services_ok_def fst_conv)
  qed (use assms(2) s in auto)
qed

text \<open>A session around a write: opened before, closed afterwards, with nothing added to the history.\<close>

lemma with_session_ok:
  assumes "services_ok X" and "\<And>v. \<exists>v'. m v = (Inr True, v')"
  shows "\<exists>e0 w1 v. op_open_session X (env w) = (Inr (), e0) \<and> m (w\<lparr>env := e0\<rparr>) = (Inr True, w1) \<and>
    op_close_session X (env w1) = (Inr (), v) \<and> with_session X m w = (Inr True, w1\<lparr>env := v\<rparr>)"
proof -
  obtain r w' where s: "with_session X m w = (r, w')" by (rule prod.exhaust)
  note no = no_session_error [OF assms(1)]
  from s show ?thesis
  proof (cases rule: with_session_cases)
    case (unopened e v)
    then show ?thesis using no unfolding session_error_def by blast
  next
    case (unclosed e0 y w1 e v)
    then show ?thesis using no unfolding session_error_def by blast
  next
    case (closed e0 y w1 v)
    moreover have "y = Inr True" using assms(2) [of "w\<lparr>env := e0\<rparr>"] closed(2) by auto
    ultimately show ?thesis using s by simp
  qed
qed

lemma handle_message_progress:
  assumes "services_ok X" and "storable X P cfg fs"
  shows "\<exists>w' row dup. handle_message X P cfg i fs w = (Inr True, w') \<and>
    history w' = history w @ [Handling i fs, EventCommit row dup, Ack i] \<and> event_row_of P cfg fs row"
proof -
  obtain ev row w1 where p: "parse_entry X P fs (w\<lparr>history := history w @ [Handling i fs]\<rparr>) = (Inr (Some ev), w1)"
    and row: "sink_row cfg ev (classify_event_integrity (service ev) (map_of fs ''sig'') (map_of fs ''data'')
       (EVENT_SIGNING_SECRET cfg)) = Inr row"
    using parse_entry_ok [OF assms] by metis
  let ?m = "sink_write X cfg ev (classify_event_integrity (service ev) (map_of fs ''sig'') (map_of fs ''data'')
       (EVENT_SIGNING_SECRET cfg))"
  have "\<exists>v'. ?m v = (Inr True, v')" for v using sink_write_ok [OF assms(1) row] by blast
  from with_session_ok [where m = ?m and w = w1, OF assms(1) this] obtain w2 where s: "with_session X ?m w1 = (Inr True, w2)" by blast
  obtain w3 where a: "ack X cfg i w2 = (Inr (), w3)" using ack_ok [OF assms(1)] by blast
  have h: "handle_message X P cfg i fs w = (Inr True, w3)"
    by (simp add: handle_message_def io_bind_def p s a Let_def)
  then show ?thesis
  proof (cases rule: handle_message_cases)
    case (acked row' dup u)
    then show ?thesis using h by blast
  qed auto
qed

lemma quarantine_and_ack_progress:
  assumes "services_ok X" and "quarantine_sink_row cfg i fs n = Inr row"
  shows "\<exists>w' dup as. quarantine_and_ack X osenv cfg i fs n w = (Inr True, w') \<and>
    history w' = history w @ [Handling i fs, QuarantineCommit row dup] @ as @ [Ack i] \<and> list_all is_alert as"
proof -
  let ?w = "w\<lparr>history := history w @ [Handling i fs]\<rparr>"
  have "\<exists>v'. quarantine_write X osenv cfg i fs n v = (Inr True, v')" for v
  proof -
    obtain r w1 where c: "quarantine_commit X row v = (r, w1)" by (rule prod.exhaust)
    then have r: "r = Inr ()"
    proof (cases rule: quarantine_commit_cases)
      case (unrolled x e1 y e')
      then show ?thesis using rollback_ok [OF assms(1)] by blast
    next
      case (failed x e')
      then show ?thesis using assms(1) by (metis services_ok_def fst_conv)
    qed auto
    have "clocks_ok X" using assms(1) by (simp add: services_ok_def)
    then have "\<exists>al w2. quarantine_alert X osenv row w1 = (Inr al, w2)"
      unfolding quarantine_alert_def emit_alert_def by (rule emit_total)
    then obtain al w2 where "quarantine_alert X osenv row w1 = (Inr al, w2)" by blast
    then show ?thesis by (simp add: quarantine_write_eq assms(2) io_bind_def c r)
  qed
  from with_session_ok [where m = "quarantine_write X osenv cfg i fs n" and w = ?w, OF assms(1) this] obtain w2 where
    q: "with_session X (quarantine_write X osenv cfg i fs n) ?w = (Inr True, w2)" by blast
  obtain w3 where a: "ack X cfg i w2 = (Inr (), w3)" using ack_ok [OF assms(1)] by blast
  have h: "quarantine_and_ack X osenv cfg i fs n w = (Inr True, w3)"
    by (simp add: quarantine_and_ack_def io_bind_def q a)
  then show ?thesis
  proof (cases rule: quarantine_and_ack_cases)
    case (acked row' dup as u)
    then show ?thesis using h assms(2) by auto
  qed auto
qed

text \<open>Entries handled one after the other: none stops the loop, and each that can be stored is.\<close>

lemma handled_returns:
  assumes "services_ok X"
  shows "\<exists>b w' t. handle_message X P cfg i fs w = (Inr b, w') \<and> history w' = history w @ t"
proof -
  obtain r w' where h: "handle_message X P cfg i fs w = (r, w')" by (rule prod.exhaust)
  then show ?thesis
  proof (cases rule: handle_message_cases)
    case (crashed e t)
    then show ?thesis using no_session_error [OF assms] by blast
  next
    case (acked row dup u)
    have "is_ok (fst (op_xack X (STREAM_NAME cfg) (CONSUMER_GROUP cfg) i u))" using assms by (simp add: services_ok_def)
    with acked h show ?thesis by (auto simp: is_ok_iff)
  qed (use h in auto)
qed

lemma each_progress:
  assumes "\<And>x w. x \<in> set xs \<Longrightarrow> \<exists>b w' t. f x w = (Inr b, w') \<and> history w' = history w @ t \<and> (good x \<longrightarrow> block x t)"
  shows "\<exists>w' t. io_each f xs w = (Inr (), w') \<and> history w' = history w @ t \<and>
    (\<forall>x \<in> set xs. good x \<longrightarrow> (\<exists>p b q. t = p @ b @ q \<and> block x b))"
  using assms
proof (induction xs arbitrary: w)
  case (Cons x xs)
  obtain b w1 t where s: "f x w = (Inr b, w1)" "history w1 = history w @ t" "good x \<longrightarrow> block x t"
    using Cons.prems [of x w] by auto
  obtain w2 t' where r: "io_each f xs w1 = (Inr (), w2)" "history w2 = history w1 @ t'"
    "\<forall>y \<in> set xs. good y \<longrightarrow> (\<exists>p b q. t' = p @ b @ q \<and> block y b)"
    using Cons.IH [of w1] Cons.prems by auto
  have "\<exists>p b q. t @ t' = p @ b @ q \<and> block x b" if "good x"
    using s(3) that by (metis append_Nil)
  moreover have "\<exists>p b q. t @ t' = p @ b @ q \<and> block y b" if "y \<in> set xs" "good y" for y
    using r(3) that by (metis append.assoc)
  ultimately show ?case using s r by (intro exI [of _ w2] exI [of _ "t @ t'"]) (auto simp: io_bind_def)
qed simp

text \<open>What the sweep adds to the history, entry by entry.\<close>

lemma sweep_blocks:
  assumes "services_ok X" and "claim_stale X cfg (CONSUMER_NAME cfg) w = (Inr (claimed, poison_entries), w1)"
    and "\<forall>(i, fs, n) \<in> set poison_entries. is_ok (quarantine_sink_row cfg i fs n)"
  obtains w' s where "sweep_pending X P osenv cfg w = (Inr (), w')" "history w' = history w @ s"
    "\<And>i fs n. (i, fs, n) \<in> set poison_entries \<Longrightarrow> \<exists>t u row dup as. quarantine_sink_row cfg i fs n = Inr row \<and>
       list_all is_alert as \<and> s = t @ [Handling i fs, QuarantineCommit row dup] @ as @ [Ack i] @ u"
    "\<And>i fs. (i, fs) \<in> set claimed \<Longrightarrow> storable X P cfg fs \<Longrightarrow> \<exists>t u row dup. event_row_of P cfg fs row \<and>
       s = t @ [Handling i fs, EventCommit row dup, Ack i] @ u"
proof -
  let ?q = "\<lambda>(i, fs, n). quarantine_and_ack X osenv cfg i fs n"
  let ?h = "\<lambda>(i, fs). handle_message X P cfg i fs"
  let ?Q = "\<lambda>(i, fs, n) b. \<exists>row dup as. quarantine_sink_row cfg i fs n = Inr row \<and> list_all is_alert as \<and>
      b = [Handling i fs, QuarantineCommit row dup] @ as @ [Ack i]"
  let ?H = "\<lambda>(i, fs) b. \<exists>row dup. event_row_of P cfg fs row \<and> b = [Handling i fs, EventCommit row dup, Ack i]"
  have "keeps same_vars (claim_stale X cfg (CONSUMER_NAME cfg))" by (intro sv.keeps_claim_stale keeps_call_same_vars)
  from keepsD [OF this assms(2)] have w1: "history w1 = history w" by (simp add: same_vars_def)
  have "\<exists>b w' t. ?q x v = (Inr b, w') \<and> history w' = history v @ t \<and> (True \<longrightarrow> ?Q x t)"
    if x: "x \<in> set poison_entries" for x v
  proof -
    obtain i fs n where x': "x = (i, fs, n)" by (cases x)
    with assms(3) x obtain row where row: "quarantine_sink_row cfg i fs n = Inr row" by (auto simp: is_ok_iff)
    from quarantine_and_ack_progress [OF assms(1) row, of osenv v] row show ?thesis unfolding x' prod.case by blast
  qed
  from each_progress [of poison_entries ?q "\<lambda>x. True" ?Q w1, OF this] obtain w2 s1 where
    w2: "io_each ?q poison_entries w1 = (Inr (), w2)" "history w2 = history w1 @ s1"
      "\<forall>x \<in> set poison_entries. \<exists>p b q. s1 = p @ b @ q \<and> ?Q x b" by auto
  have "\<exists>b w' t. ?h x v = (Inr b, w') \<and> history w' = history v @ t \<and> (storable X P cfg (snd x) \<longrightarrow> ?H x t)" for x v
  proof -
    obtain i fs where x: "x = (i, fs)" by (rule prod.exhaust)
    show ?thesis
    proof (cases "storable X P cfg fs")
      case True
      from handle_message_progress [OF assms(1) this, of i v] show ?thesis unfolding x prod.case by blast
    next
      case False
      with handled_returns [OF assms(1), of P cfg i fs v] show ?thesis unfolding x prod.case snd_conv by blast
    qed
  qed
  from each_progress [of claimed ?h "\<lambda>x. storable X P cfg (snd x)" ?H w2, OF this] obtain w3 s2 where
    w3: "io_each ?h claimed w2 = (Inr (), w3)" "history w3 = history w2 @ s2"
      "\<forall>x \<in> set claimed. storable X P cfg (snd x) \<longrightarrow> (\<exists>p b q. s2 = p @ b @ q \<and> ?H x b)" by auto
  show thesis
  proof (rule that [of w3 "s1 @ s2"])
    show "sweep_pending X P osenv cfg w = (Inr (), w3)"
      by (simp add: sweep_pending_def io_bind_def io_try_def assms(2) w2(1) w3(1))
    show "history w3 = history w @ s1 @ s2" by (simp add: w3(2) w2(2) w1)
  next
    fix i fs n assume "(i, fs, n) \<in> set poison_entries"
    from bspec [OF w2(3) this, unfolded prod.case] obtain p q row dup as where
      "quarantine_sink_row cfg i fs n = Inr row" "list_all is_alert as"
      "s1 = p @ ([Handling i fs, QuarantineCommit row dup] @ as @ [Ack i]) @ q" by blast
    then show "\<exists>t u row dup as. quarantine_sink_row cfg i fs n = Inr row \<and>
       list_all is_alert as \<and> s1 @ s2 = t @ [Handling i fs, QuarantineCommit row dup] @ as @ [Ack i] @ u"
      by (intro exI [of _ p] exI [of _ "q @ s2"] exI [of _ row] exI [of _ dup] exI [of _ as]) simp
  next
    fix i fs assume x: "(i, fs) \<in> set claimed" "storable X P cfg fs"
    from bspec [OF w3(3) x(1), unfolded prod.case snd_conv] x(2) obtain p q row dup where "event_row_of P cfg fs row"
      "s2 = p @ [Handling i fs, EventCommit row dup, Ack i] @ q" by blast
    then show "\<exists>t u row dup. event_row_of P cfg fs row \<and> s1 @ s2 = t @ [Handling i fs, EventCommit row dup, Ack i] @ u"
      by (intro exI [of _ "s1 @ p"] exI [of _ q] exI [of _ row] exI [of _ dup]) simp
  qed
qed


lemma mem_services_ok: "services_ok mem_ops"
  by (auto simp: services_ok_def clocks_ok_def mem_ops_def split: if_splits)

lemma example_poison: "is_ok (quarantine_sink_row example_config ''1-0'' [(''data'', ''x'')] 9)"
proof -
  have c: "classify_poison_reason (Some ''x'') = (''malformed'', None, Some ''JSONDecodeError'')" by code_simp
  let ?q = "\<lparr>stream_message_id = ''1-0'', raw_data = Some ''x'', raw_signature = None, q_service = None,
    failure_category = ''malformed'', failure_detail = Some ''JSONDecodeError'', delivery_attempts = 9,
    q_record_integrity_hash = None, q_integrity_key_id = None, quarantined_at = None\<rparr>"
  have i: "show_int 9 = ''9''" "py_str PNone = ''None''" by code_simp+
  have "\<exists>m. canonical_message False (quarantine_fields ?q) QUARANTINE_RECORD_FIELDS (Some ''key-1'') = Inr m"
    by (rule canonical_message_ok)
      (simp_all add: QUARANTINE_RECORD_FIELDS_def field_value_def dict_get_def quarantine_fields_def of_opt_def i code_def)
  then have "\<exists>h. compute_quarantine_record_hash (quarantine_fields ?q) ''0123456789abcdef0123456789abcdef'' (Some ''key-1'') = Inr h"
    using example_key by (auto simp: compute_quarantine_record_hash_Inr)
  then show ?thesis by (auto simp: quarantine_sink_row_def example_config_key c is_ok_iff)
qed

text \<open>A stream with a poison entry and a stale event, both pending.\<close>

definition stale_start :: "string \<Rightarrow> mem" where
  "stale_start t = mem_init [(''1-0'', [(''data'', ''x'')]), (''2-0'', [(''data'', t)])]
     \<lparr>mem_group := True, mem_new := [], mem_pending := [(''1-0'', 9), (''2-0'', 1)]\<rparr>"

lemma stale_claimed:
  "\<exists>w1. claim_stale mem_ops example_config (CONSUMER_NAME example_config) (world_init (stale_start t)) =
     (Inr ([(''2-0'', [(''data'', t)])], [(''1-0'', [(''data'', ''x'')], 9)]), w1)"
  by (simp add: claim_stale_def fetch_poison_def poison_ids_def reclaimable_ids_def io_bind_def io_call_def mem_ops_def
      mem_init_def stale_start_def world_init_def example_config_def)

lemma stale_event:
  obtains t where "storable mem_ops strict_pydantic example_config [(''data'', t)]"
proof -
  let ?u = "''00000000-0000-4000-8000-000000000000''"
  let ?n = "DateTime 63870000000000000 None"
  obtain t where t: "parse_audit_event strict_pydantic ?u ?n (Some t) = Inr (min_event ?u ?n)"
    "payload_lacks (Some t) ''event_id''" "payload_lacks (Some t) ''timestamp''" by (rule min_event_text)
  have "is_ascii ?u" by (simp add: code_def)
  then obtain row where "sink_row example_config (min_event ?u ?n) ''unsigned'' = Inr row"
    using min_event_row by blast
  moreover have "drawn mem_ops (Some t) u n \<longleftrightarrow> u = ?u \<and> n = ?n" for u n
    by (auto simp: drawn_def t(2,3) mem_ops_def)
  ultimately have "storable mem_ops strict_pydantic example_config [(''data'', t)]"
    by (simp add: storable_def t(1) classify_event_integrity_def)
  then show thesis by (rule that)
qed


section \<open>Parsing ends\<close>

lemma get_field_error:
  "get_required valid d k = Inl e \<Longrightarrow> kind e = ValidationError"
  "get_default valid dflt d k = Inl e \<Longrightarrow> kind e = ValidationError"
  "validate_tenant_scope ev = Inl e \<Longrightarrow> kind e = ValidationError"
  by (auto simp: get_required_def get_default_def invalid_def validate_tenant_scope_def Let_def
      split: option.splits if_splits)

lemma get_optional_error: "get_optional P d k = Inl e \<Longrightarrow> kind e = ValidationError"
  unfolding get_optional_def by (rule get_field_error)

lemma audit_event_init_error:
  assumes "audit_event_init P uuid now d = Inl e"
  shows "kind e = ValidationError"
  using assms unfolding audit_event_init_def bind_res_Inl
  by (elim disjE exE conjE) (assumption | erule get_field_error get_optional_error)+


end
