(* ===== verification/Column_Limits.thy ===== *)
theory Column_Limits
  imports Worker_Progress
begin

text \<open>
  The declared widths of the columns (\<open>db/models.py\<close>) against the rows the two
  sinks build (\<open>consumers/sink.py\<close>, \<open>consumers/quarantine.py\<close>).
\<close>

section \<open>Widths\<close>

definition chars :: "string \<Rightarrow> nat" where
  "chars s = length (utf8_dec s)"

text \<open>The columns whose width the rows may exceed, since producers choose their contents.\<close>

definition event_service_fits :: "audit_row \<Rightarrow> bool" where
  "event_service_fits r \<longleftrightarrow> chars (service r) \<le> 255"

definition quarantine_service_fits :: "quarantine_row \<Rightarrow> bool" where
  "quarantine_service_fits q \<longleftrightarrow> (case q_service q of None \<Rightarrow> True | Some s \<Rightarrow> chars s \<le> 255)"

definition is_hex_digest :: "string \<Rightarrow> bool" where
  "is_hex_digest h \<longleftrightarrow> length h = 64 \<and> set h \<subseteq> set ''0123456789abcdef''"

lemma hmac_hex_digest: "is_hex_digest (hmac_hex k m)"
  using hexdigest_chars [of "hmac_sha256 k m"] by (simp add: is_hex_digest_def hmac_hex_def [symmetric])

text \<open>The exceptions of \<open>json.loads\<close> on a text.\<close>

definition decodes :: "'a res \<Rightarrow> bool" where
  "decodes r \<longleftrightarrow> (\<forall>e. r = Inl e \<longrightarrow> kind e = JSONDecodeError \<or> kind e = ValueError \<or> Inl e = (out_of_fuel :: unit res))"

lemma decodes_basic: "decodes (Inr x)" "decodes (jerr m)" "decodes out_of_fuel"
  by (simp_all add: decodes_def jerr_def out_of_fuel_def)

lemma decodes_bind: "decodes r \<Longrightarrow> (\<And>x. decodes (f x)) \<Longrightarrow> decodes (bind_res r f)"
  by (cases r) (simp_all add: decodes_def)

lemma decodes_if: "decodes a \<Longrightarrow> decodes b \<Longrightarrow> decodes (if c then a else b)"
  by simp

lemma decodes_list: "decodes a \<Longrightarrow> (\<And>x xs. decodes (f x xs)) \<Longrightarrow> decodes (case s of [] \<Rightarrow> a | x # xs \<Rightarrow> f x xs)"
  by (cases s) simp_all

lemma decodes_option: "decodes a \<Longrightarrow> (\<And>x. decodes (f x)) \<Longrightarrow> decodes (case s of None \<Rightarrow> a | Some x \<Rightarrow> f x)"
  by (cases s) simp_all

lemmas decodes_rules = decodes_basic decodes_bind decodes_if decodes_list decodes_option

lemma decodes_string: "decodes (scan_string acc s)"
proof (induction acc s rule: scan_string.induct)
  case (2 acc c s)
  have "decodes (scan_escape s)" unfolding scan_escape_def by (intro decodes_rules)
  moreover have "decodes (scan_string (acc @ [c]) s)" if "c \<noteq> dquote" "c \<noteq> bslash" "\<not> code c < 32" using 2(1) that by simp
  moreover have "decodes (scan_string (acc @ fst x) (snd x))" if "c \<noteq> dquote" "c = bslash" "scan_escape s = Inr x" for x
    using 2(2) that by simp
  ultimately show ?case
    by (cases "scan_escape s") (simp_all add: scan_string.simps(2) decodes_basic)
qed (simp add: decodes_basic)

lemma decodes_atom: "decodes (scan_atom s)"
proof -
  have "decodes (number_of_parts neg ip f e)" for neg ip f e
    by (simp add: number_of_parts_def decodes_def)
  then have "decodes (scan_unsigned neg t)" for neg t
    unfolding scan_unsigned_def Let_def by (intro decodes_rules)
  then show ?thesis unfolding scan_atom_def scan_number_def by (intro decodes_rules)
qed

lemma decodes_parse: "decodes (parse_value n s)" "decodes (parse_elems n xs s)" "decodes (parse_members n d s)"
proof (induction n arbitrary: s xs d)
  case (Suc n)
  {
    case 1
    show ?case unfolding parse_value.simps case_prod_beta
      by (intro decodes_rules decodes_string decodes_atom Suc.IH)
  next
    case 2
    show ?case unfolding parse_elems.simps case_prod_beta by (intro decodes_rules Suc.IH)
  next
    case 3
    show ?case unfolding parse_members.simps case_prod_beta by (intro decodes_rules decodes_string Suc.IH)
  }
qed (simp_all add: decodes_basic)

lemma json_loads_error:
  assumes "json_loads (Some s) = Inl e"
  shows "kind e = JSONDecodeError \<or> kind e = ValueError"
proof -
  have "decodes (json_loads (Some s))"
    unfolding json_loads_def option.case case_prod_beta by (intro decodes_rules decodes_parse)
  moreover have "Inl e \<noteq> (out_of_fuel :: unit res)"
    using json_loads_total [of "Some s"] assms by (auto simp: out_of_fuel_def)
  ultimately show ?thesis using assms by (simp add: decodes_def)
qed

lemma parsed_event_tenant:
  assumes "parse_audit_event P u n data = Inr ev"
  shows "tenant_scope ev \<in> set tenant_scopes"
proof -
  obtain v where v: "json_loads data = Inr v" using assms by (auto simp: parse_audit_event_def)
  obtain d where "audit_event_init P u n d = Inr ev"
    using assms v by (cases v) (auto simp: parse_audit_event_def)
  then obtain ev0 where "validate_tenant_scope ev0 = Inr ev" "tenant_scope ev0 \<in> set tenant_scopes"
    by (auto simp: audit_event_init_def dest!: get_default_scope)
  then show ?thesis by (auto simp: validate_tenant_scope_iff tenant_scopes_def)
qed

lemma classify_event_integrity_values:
  "classify_event_integrity sv sig data secret \<in> {''unsigned'', ''valid'', ''invalid''}"
  by (simp add: classify_event_integrity_def)

lemma accepted_key_id: "require_record_integrity_key cfg = Inr (key, kid) \<Longrightarrow> key_id_format kid"
  by (auto simp: require_record_integrity_key_def split: option.splits if_splits)

lemma event_columns_typed:
  assumes "event_row_of P cfg fs row"
  shows "integrity_status row \<in> {''unsigned'', ''valid'', ''invalid''}" and "tenant_scope row \<in> set tenant_scopes"
    and "tz (timestamp row) = None"
    and "\<exists>h kid. record_integrity_hash row = Some h \<and> is_hex_digest h \<and>
      integrity_key_id row = Some kid \<and> key_id_format kid \<and> length kid \<le> 64"
proof -
  from assms obtain u n ev where p: "parse_audit_event P u n (map_of fs ''data'') = Inr ev"
    and s: "sink_row cfg ev (classify_event_integrity (service ev) (map_of fs ''sig'') (map_of fs ''data'')
      (EVENT_SIGNING_SECRET cfg)) = Inr row" by (auto simp: event_row_of_def)
  obtain key kid ts h where k: "require_record_integrity_key cfg = Inr (key, kid)"
    and ts: "utc_naive (timestamp ev) = Inr ts"
    and h: "compute_audit_event_hash (event_fields (row\<lparr>record_integrity_hash := None, integrity_key_id := None\<rparr>))
      key (Some kid) = Inr h"
    and t: "audit_event.truncate row = ev\<lparr>timestamp := ts\<rparr>"
    and c: "integrity_status row = classify_event_integrity (service ev) (map_of fs ''sig'') (map_of fs ''data'')
      (EVENT_SIGNING_SECRET cfg)" "record_integrity_hash row = Some h" "integrity_key_id row = Some kid"
    by (rule sink_row_Inr [OF s])
  show "integrity_status row \<in> {''unsigned'', ''valid'', ''invalid''}"
    unfolding c(1) by (rule classify_event_integrity_values)
  have "tenant_scope row = tenant_scope ev" "timestamp row = ts" using t by (cases ev, simp add: audit_event.defs)+
  moreover have "tz ts = None"
    using ts by (cases "tz (timestamp ev)") (auto simp: utc_naive_def mk_datetime_def split: if_splits)
  ultimately show "tenant_scope row \<in> set tenant_scopes" and "tz (timestamp row) = None"
    using parsed_event_tenant [OF p] by simp_all
  have "is_hex_digest h" using h hmac_hex_digest by (auto simp: compute_audit_event_hash_Inr)
  moreover have "key_id_format kid" "length kid \<le> 64" using accepted_key_id [OF k] by (simp_all add: key_id_format_def)
  ultimately show "\<exists>h kid. record_integrity_hash row = Some h \<and> is_hex_digest h \<and>
         integrity_key_id row = Some kid \<and> key_id_format kid \<and> length kid \<le> 64" using c by blast
qed

lemma quarantine_columns_typed:
  assumes "quarantine_row_of cfg i fs q"
  shows "failure_category q \<in> {''malformed'', ''persistence_exhausted''}"
    and "failure_detail q \<in> Some ` {''MissingDataField'', ''NotAJsonObject'', ''JSONDecodeError'', ''ValueError''} \<union> {None}"
    and "\<exists>h kid. q_record_integrity_hash q = Some h \<and> is_hex_digest h \<and>
      q_integrity_key_id q = Some kid \<and> key_id_format kid \<and> length kid \<le> 64"
proof -
  from assms obtain n where s: "quarantine_sink_row cfg i fs n = Inr q" by (auto simp: quarantine_row_of_def)
  obtain key kid h row0 where k: "require_record_integrity_key cfg = Inr (key, kid)"
    and h: "compute_quarantine_record_hash (quarantine_fields row0) key (Some kid) = Inr h"
    and q: "q = row0\<lparr>q_record_integrity_hash := Some h, q_integrity_key_id := Some kid\<rparr>"
    and c: "classify_poison_reason (map_of fs ''data'') = (failure_category q, q_service q, failure_detail q)"
    by (rule quarantine_sink_row_Inr [OF s])
  show "failure_category q \<in> {''malformed'', ''persistence_exhausted''}"
    using c by (auto simp: classify_poison_reason_def split: option.splits sum.splits pyval.splits)
  show "failure_detail q \<in> Some ` {''MissingDataField'', ''NotAJsonObject'', ''JSONDecodeError'', ''ValueError''} \<union> {None}"
  proof (cases "map_of fs ''data''")
    case None
    with c show ?thesis by (simp add: classify_poison_reason_def)
  next
    case (Some t)
    show ?thesis
    proof (cases "json_loads (Some t)")
      case (Inl e)
      with c Some have "failure_detail q = Some (type_name (kind e))" by (simp add: classify_poison_reason_def)
      with json_loads_error [OF Inl] show ?thesis by auto
    next
      case (Inr v)
      with c Some show ?thesis by (cases v) (simp_all add: classify_poison_reason_def)
    qed
  qed
  have "is_hex_digest h" using h hmac_hex_digest by (auto simp: compute_quarantine_record_hash_Inr)
  moreover have "key_id_format kid" "length kid \<le> 64" using accepted_key_id [OF k] by (simp_all add: key_id_format_def)
  ultimately show "\<exists>h kid. q_record_integrity_hash q = Some h \<and> is_hex_digest h \<and>
         q_integrity_key_id q = Some kid \<and> key_id_format kid \<and> length kid \<le> 64" using q by simp
qed

lemma optional_word: "x \<in> Some ` S \<union> {None} \<Longrightarrow> \<forall>d \<in> S. p d \<Longrightarrow> x = None \<or> (\<exists>d \<in> S. x = Some d \<and> p d)"
  by auto

text \<open>
  C18: the columns the worker computes itself have the declared types.  In every row
  built for an entry the status is one of three words and the tenant scope one of
  three, both within their 16 characters, the hash is 64 lower-case hexadecimal
  digits, the key ID has the documented format of at most 64 characters, and the
  timestamp is naive; in every quarantine row the category is one of two words
  within its 32 characters, the failure detail is absent or one of four fixed words
  within its 255 characters (so never a part of the payload or of an exception's
  text), and hash and key ID are as above.
\<close>

theorem computed_columns_typed:
  "(event_row_of P cfg fs row \<longrightarrow>
      integrity_status row \<in> {''unsigned'', ''valid'', ''invalid''} \<and> length (integrity_status row) \<le> 16 \<and>
      tenant_scope row \<in> set tenant_scopes \<and> length (tenant_scope row) \<le> 16 \<and> tz (timestamp row) = None \<and>
      (\<exists>h kid. record_integrity_hash row = Some h \<and> is_hex_digest h \<and>
         integrity_key_id row = Some kid \<and> key_id_format kid \<and> length kid \<le> 64)) \<and>
   (quarantine_row_of cfg i fs q \<longrightarrow>
      failure_category q \<in> {''malformed'', ''persistence_exhausted''} \<and> length (failure_category q) \<le> 32 \<and>
      (failure_detail q = None \<or> (\<exists>d \<in> {''MissingDataField'', ''NotAJsonObject'', ''JSONDecodeError'', ''ValueError''}.
         failure_detail q = Some d \<and> length d \<le> 255)) \<and>
      (\<exists>h kid. q_record_integrity_hash q = Some h \<and> is_hex_digest h \<and>
         q_integrity_key_id q = Some kid \<and> key_id_format kid \<and> length kid \<le> 64))"
proof (intro conjI impI)
  assume e: "event_row_of P cfg fs row"
  note t = event_columns_typed [OF e]
  show "integrity_status row \<in> {''unsigned'', ''valid'', ''invalid''}" "tenant_scope row \<in> set tenant_scopes"
    "tz (timestamp row) = None"
    "\<exists>h kid. record_integrity_hash row = Some h \<and> is_hex_digest h \<and>
       integrity_key_id row = Some kid \<and> key_id_format kid \<and> length kid \<le> 64" by (rule t)+
  have "\<forall>st \<in> {''unsigned'', ''valid'', ''invalid''}. length st \<le> 16" by simp
  then show "length (integrity_status row) \<le> 16" by (rule bspec) (rule t)
  have "\<forall>st \<in> set tenant_scopes. length st \<le> 16" by (simp add: tenant_scopes_def)
  then show "length (tenant_scope row) \<le> 16" by (rule bspec) (rule t)
next
  assume q: "quarantine_row_of cfg i fs q"
  note t = quarantine_columns_typed [OF q]
  show "failure_category q \<in> {''malformed'', ''persistence_exhausted''}"
    "\<exists>h kid. q_record_integrity_hash q = Some h \<and> is_hex_digest h \<and>
       q_integrity_key_id q = Some kid \<and> key_id_format kid \<and> length kid \<le> 64" by (rule t)+
  have "\<forall>c \<in> {''malformed'', ''persistence_exhausted''}. length c \<le> 32" by simp
  then show "length (failure_category q) \<le> 32" by (rule bspec) (rule t)
  have "\<forall>x \<in> {''MissingDataField'', ''NotAJsonObject'', ''JSONDecodeError'', ''ValueError''}. length x \<le> 255" by simp
  then show "failure_detail q = None \<or> (\<exists>d \<in> {''MissingDataField'', ''NotAJsonObject'', ''JSONDecodeError'', ''ValueError''}.
      failure_detail q = Some d \<and> length d \<le> 255)" by (rule optional_word [OF t(2)])
qed

section \<open>An entry that fits nowhere\<close>

text \<open>The database in strict mode: a text that is too long for its column is refused with \<open>DataError\<close>.\<close>

definition strict_widths :: "'e ops \<Rightarrow> bool" where
  "strict_widths X \<longleftrightarrow>
     (\<forall>r e. \<not> event_service_fits r \<longrightarrow> (\<exists>m e'. op_commit_event X r e = (raise (SQLAlchemyError ''DataError'') m, e'))) \<and>
     (\<forall>q e. \<not> quarantine_service_fits q \<longrightarrow>
        (\<exists>m e'. op_commit_quarantine X q e = (raise (SQLAlchemyError ''DataError'') m, e')))"

lemma parsed_service:
  assumes "pydantic_ok P" and "parse_audit_event P u n (Some t) = Inr ev" and "json_loads (Some t) = Inr (PDict d)"
    and "map_of d ''service'' = Some (PStr s)"
  shows "service ev = s"
proof -
  have "audit_event_init P u n d = Inr ev" using assms(2,3) by (simp add: parse_audit_event_def)
  moreover have "get_required (valid_str P) d ''service'' = Inr s"
    using assms(1,4) by (simp add: get_required_def pydantic_ok_def)
  ultimately obtain ev0 where "validate_tenant_scope ev0 = Inr ev" "service ev0 = s"
    by (auto simp: audit_event_init_def)
  then show ?thesis by (auto simp: validate_tenant_scope_iff split: if_splits)
qed

lemma oversized_not_written:
  assumes "strict_widths X" and "255 < chars (service ev)"
  shows "\<exists>e w'. sink_write X cfg ev status w = (Inl e, w') \<and> history w' = history w"
proof -
  obtain y w' where y: "sink_write X cfg ev status w = (y, w')" by (rule prod.exhaust)
  have "\<not> event_service_fits row" if row: "sink_row cfg ev status = Inr row" for row
  proof -
    obtain ts where "audit_event.truncate row = ev\<lparr>timestamp := ts\<rparr>" using sink_row_Inr [OF row] by metis
    then have "service row = service ev" by (cases ev) (simp add: audit_event.defs)
    then show ?thesis using assms(2) by (simp add: event_service_fits_def)
  qed
  then have c: "sink_row cfg ev status = Inr row \<Longrightarrow>
      \<exists>m e'. op_commit_event X row e = (raise (SQLAlchemyError ''DataError'') m, e')" for row e
    using assms(1) by (simp add: strict_widths_def)
  from y show ?thesis
  proof (cases rule: sink_write_cases)
    case (inserted row e')
    with c [of row "env w"] show ?thesis by auto
  next
    case (duplicate row z e1 e')
    with c [of row "env w"] show ?thesis by auto
  qed (use y in auto)
qed

lemma oversized_not_quarantined:
  assumes "strict_widths X" and "map_of fs ''data'' = Some t" and "json_loads (Some t) = Inr (PDict d)"
    and "map_of d ''service'' = Some (PStr s)" and "255 < chars s"
  shows "\<exists>e w'. quarantine_write X osenv cfg i fs n w = (Inl e, w') \<and> history w' = history w"
proof (cases "quarantine_sink_row cfg i fs n")
  case (Inl e)
  then show ?thesis by (simp add: quarantine_write_eq)
next
  case (Inr row)
  have "classify_poison_reason (map_of fs ''data'') = (failure_category row, q_service row, failure_detail row)"
    by (rule quarantine_sink_row_Inr [OF Inr])
  then have "q_service row = Some s"
    using assms(2-4) by (simp add: classify_poison_reason_def dict_get_def)
  then have "\<not> quarantine_service_fits row" using assms(5) by (simp add: quarantine_service_fits_def)
  then obtain m e' where c: "op_commit_quarantine X row (env w) = (raise (SQLAlchemyError ''DataError'') m, e')"
    using assms(1) unfolding strict_widths_def by blast
  obtain y w' where y: "quarantine_commit X row w = (y, w')" by (rule prod.exhaust)
  then have "(\<exists>e. y = Inl e) \<and> history w' = history w" by (cases rule: quarantine_commit_cases) (use c in auto)
  then show ?thesis using y Inr by (auto simp: quarantine_write_eq io_bind_def)
qed

lemma failed_write_pending:
  assumes "\<And>v. \<exists>e v'. m v = (Inl e, v') \<and> history v' = history v"
    and "io_bind (with_session X m) (\<lambda>written.
      if \<not> written then io_return False else io_bind (ack X cfg i) (\<lambda>_. io_return True)) w = (r, w')"
  shows "(r = Inr False \<or> (\<exists>e. r = Inl e \<and> session_error X e)) \<and> history w' = history w"
  using assms(2)
proof (cases rule: write_then_ack)
  case (unclosed e0 y w1 e)
  then show ?thesis using assms(1) [of "w\<lparr>env := e0\<rparr>"] by auto
next
  case (unwritten e0 y w1)
  then show ?thesis using assms(1) [of "w\<lparr>env := e0\<rparr>"] by auto
next
  case (acked e0 w1 u)
  then show ?thesis using assms(1) [of "w\<lparr>env := e0\<rparr>"] by auto
qed simp

text \<open>
  C23: an event whose service name is longer than the 255 characters of the column
  can be neither stored nor quarantined.  With a database that enforces the
  width, every delivery of the entry and every attempt to quarantine it, because the
  quarantine row repeats the service name, leaves the entry pending: the call returns
  false, or raises because a database session could not be opened or closed, and in
  either case it committed nothing and acknowledged nothing.
\<close>

theorem oversized_service_stuck:
  assumes "strict_widths X" and "pydantic_ok P" and "map_of fs ''data'' = Some t"
    and "json_loads (Some t) = Inr (PDict d)" and "map_of d ''service'' = Some (PStr s)" and "255 < chars s"
    and "handle_message X P cfg i fs w = (r, w') \<or> quarantine_and_ack X osenv cfg i fs n w = (r, w')"
  shows "(r = Inr False \<or> (\<exists>e. r = Inl e \<and> session_error X e)) \<and> history w' = history w @ [Handling i fs]"
  using assms(7)
proof
  let ?w = "w\<lparr>history := history w @ [Handling i fs]\<rparr>"
  assume h: "handle_message X P cfg i fs w = (r, w')"
  obtain ev w1 where p: "parse_entry X P fs ?w = (Inr ev, w1)" and sv: "same_vars ?w w1"
    and ok: "\<forall>x. ev = Some x \<longrightarrow> (\<exists>u n. parse_audit_event P u n (map_of fs ''data'') = Inr x)"
    by (rule parse_entry_run)
  show ?thesis
  proof (cases ev)
    case None
    then show ?thesis using p h sv by (auto simp: handle_message_def io_bind_def same_vars_def)
  next
    case (Some x)
    let ?m = "sink_write X cfg x (classify_event_integrity (service x) (map_of fs ''sig'') (map_of fs ''data'')
        (EVENT_SIGNING_SECRET cfg))"
    have "service x = s" using ok Some assms(3) parsed_service [OF assms(2) _ assms(4,5)] by auto
    then have m: "\<exists>e v'. ?m v = (Inl e, v') \<and> history v' = history v" for v
      using oversized_not_written [OF assms(1)] assms(6) by blast
    have "io_bind (with_session X ?m) (\<lambda>written.
        if \<not> written then io_return False else io_bind (ack X cfg i) (\<lambda>_. io_return True)) w1 = (r, w')"
      using h p Some by (simp add: handle_message_def io_bind_step(1) Let_def)
    from failed_write_pending [OF m this] sv show ?thesis by (simp add: same_vars_def)
  qed
next
  assume h: "quarantine_and_ack X osenv cfg i fs n w = (r, w')"
  have m: "\<exists>e v'. quarantine_write X osenv cfg i fs n v = (Inl e, v') \<and> history v' = history v" for v
    by (rule oversized_not_quarantined [OF assms(1,3-6)])
  have "io_bind (with_session X (quarantine_write X osenv cfg i fs n)) (\<lambda>written.
      if \<not> written then io_return False else io_bind (ack X cfg i) (\<lambda>_. io_return True))
      (w\<lparr>history := history w @ [Handling i fs]\<rparr>) = (r, w')"
    using h by (simp add: quarantine_and_ack_def io_bind_step(1))
  from failed_write_pending [OF m this] show ?thesis by simp
qed

theorem computed_columns_typed_witness:
  "\<exists>q h. quarantine_row_of example_config ''1-0'' [(''data'', ''x'')] q \<and>
     failure_category q \<in> {''malformed'', ''persistence_exhausted''} \<and> q_record_integrity_hash q = Some h \<and> is_hex_digest h"
proof -
  obtain q where "quarantine_row_of example_config ''1-0'' [(''data'', ''x'')] q"
    using example_poison by (auto simp: is_ok_iff quarantine_row_of_def)
  then show ?thesis using computed_columns_typed by blast
qed

text \<open>The example store with enforced widths, and a payload whose service name has 256 characters.\<close>

definition strict_mem_ops :: "mem ops" where
  "strict_mem_ops = mem_ops
     \<lparr>op_commit_event := (\<lambda>r e. if event_service_fits r then op_commit_event mem_ops r e
        else (raise (SQLAlchemyError ''DataError'') ''Data too long for column'', e)),
      op_commit_quarantine := (\<lambda>q e. if quarantine_service_fits q then op_commit_quarantine mem_ops q e
        else (raise (SQLAlchemyError ''DataError'') ''Data too long for column'', e))\<rparr>"

lemma oversized_text:
  obtains t where "json_loads (Some t) =
    Inr (PDict [(''service'', PStr (replicate 256 (CHR ''a''))), (''event_type'', PStr ''submit'')])"
proof -
  let ?o = "\<lparr>sort_keys = False, item_sep = '','', key_sep = '':'', default_str = False\<rparr>"
  let ?v = "PDict [(''service'', PStr (replicate 256 (CHR ''a''))), (''event_type'', PStr ''submit'')]"
  have a: "is_ascii (replicate 256 (CHR ''a''))" by (simp add: is_ascii_def list_all_iff code_def)
  have "utf8_ok ''service''" "utf8_ok (replicate 256 (CHR ''a''))" "utf8_ok ''event_type''" "utf8_ok ''submit''"
    using utf8_ok_ascii [OF a] by (simp_all add: utf8_ok_ascii code_def)
  then have ok: "json_ok ?v" by simp
  obtain t where t: "json_dumps ?o ?v = Inr t" using json_dumps_ok [OF ok] by blast
  have "opts_ok ?o" by (simp add: opts_ok_def)
  from json_loads_dumps [OF this ok t] show ?thesis by (intro that) (simp add: order_items_def)
qed

text \<open>A whole event with such a name: the smallest one the models accept but for its length.\<close>

theorem oversized_service_stuck_witness:
  "\<exists>t w' w''. json_loads (Some t) =
       Inr (PDict [(''service'', PStr (replicate 256 (CHR ''a''))), (''event_type'', PStr ''submit'')]) \<and>
     handle_message strict_mem_ops strict_pydantic example_config ''1-0'' [(''data'', t)] (world_init (mem_init [])) =
       (Inr False, w') \<and> history w' = [Handling ''1-0'' [(''data'', t)]] \<and>
     quarantine_and_ack strict_mem_ops Map.empty example_config ''1-0'' [(''data'', t)] 5 (world_init (mem_init [])) =
       (Inr False, w'') \<and> history w'' = [Handling ''1-0'' [(''data'', t)]]"
proof -
  let ?w = "world_init (mem_init [])"
  obtain t where t: "json_loads (Some t) =
      Inr (PDict [(''service'', PStr (replicate 256 (CHR ''a''))), (''event_type'', PStr ''submit'')])"
    by (rule oversized_text)
  have "is_ascii (replicate 256 (CHR ''a''))" by (simp add: is_ascii_def list_all_iff code_def)
  then have c: "255 < chars (replicate 256 (CHR ''a''))" by (simp add: chars_def utf8_dec_ascii)
  have w: "strict_widths strict_mem_ops" by (simp add: strict_widths_def strict_mem_ops_def)
  have no: "\<not> session_error strict_mem_ops e" for e by (simp add: session_error_def strict_mem_ops_def mem_sessions)
  have d: "map_of [(''data'', t)] ''data'' = Some t" by simp
  have s: "map_of [(''service'', PStr (replicate 256 (CHR ''a''))), (''event_type'', PStr ''submit'')] ''service'' =
      Some (PStr (replicate 256 (CHR ''a'')))" by simp
  have h: "history ?w = []" by (simp add: world_init_def)
  note stuck = oversized_service_stuck [where w = ?w and i = "''1-0''", OF w pydantic_ok_strict d t s c, unfolded h append_Nil]
  obtain r w' where a: "handle_message strict_mem_ops strict_pydantic example_config ''1-0'' [(''data'', t)] ?w = (r, w')"
    by (rule prod.exhaust)
  obtain r' w'' where b: "quarantine_and_ack strict_mem_ops Map.empty example_config ''1-0'' [(''data'', t)] 5 ?w = (r', w'')"
    by (rule prod.exhaust)
  have "r = Inr False" "history w' = [Handling ''1-0'' [(''data'', t)]]" using stuck [OF disjI1, OF a] no by blast+
  moreover have "r' = Inr False" "history w'' = [Handling ''1-0'' [(''data'', t)]]" using stuck [OF disjI2, OF b] no by blast+
  ultimately show ?thesis using a b t by blast
qed

end
