(* ===== verification/Jwt_Access.thy ===== *)
theory Jwt_Access
  imports Py_Value
begin

text \<open>
  \<open>audit/jwt_verify.py\<close>, \<open>audit/identity.py\<close>, \<open>api/deps.py\<close> and
  \<open>api/deps_audit.py\<close>: verification of access tokens and the authorization
  decisions of the read API.  PyJWT, the JWKS client and the Redis blacklist
  are parameters; each may raise.
\<close>

section \<open>Token verification\<close>

record jwt_env =
  get_unverified_header :: "string \<Rightarrow> pydict res"
  get_signing_key :: "pyval \<Rightarrow> string res"
  jwt_decode :: "string \<Rightarrow> string \<Rightarrow> string \<Rightarrow> pydict res"
  blacklist_exists :: "string \<Rightarrow> bool res"
  JWT_SECRET :: string
  JWT_ISSUER :: string
  JWT_AUDIENCE :: string

definition validate_platform_claims :: "jwt_env \<Rightarrow> pydict \<Rightarrow> pydict res" where
  "validate_platform_claims J payload =
     (if dict_get payload ''iss'' \<noteq> PNone \<and> dict_get payload ''iss'' \<noteq> PStr (JWT_ISSUER J)
      then raise TokenInvalid ''invalid issuer''
      else
        let audience = dict_get payload ''aud''
        in if audience = PNone then Inr payload
           else
             let vs = (case audience of PList xs \<Rightarrow> xs | v \<Rightarrow> [v])
             in if PStr (JWT_AUDIENCE J) \<notin> set vs then raise TokenInvalid ''invalid audience''
                else Inr payload)"

text \<open>The \<open>jwt.decode\<close> call with its two handlers.\<close>

definition decode_with :: "jwt_env \<Rightarrow> string \<Rightarrow> string \<Rightarrow> string \<Rightarrow> pydict res" where
  "decode_with J token key alg =
     (case jwt_decode J token key alg of
        Inr payload \<Rightarrow> validate_platform_claims J payload
      | Inl e \<Rightarrow>
          (if kind e = ExpiredSignatureError then raise TokenInvalid ''expired''
           else if is_invalid_token_error e then raise TokenInvalid (''invalid token: '' @ message e)
           else Inl e))"

definition decode_token :: "jwt_env \<Rightarrow> string \<Rightarrow> pydict res" where
  "decode_token J token =
     (case get_unverified_header J token of
        Inl e \<Rightarrow> (if is_invalid_token_error e then raise TokenInvalid (''invalid token: '' @ message e) else Inl e)
      | Inr header \<Rightarrow>
          let alg = dict_get header ''alg''
          in if alg = PStr ''RS256''
             then
               (let kid = dict_get header ''kid''
                in if \<not> truthy kid then raise TokenInvalid ''RS256 token missing kid header''
                   else case get_signing_key J kid of
                     Inl e \<Rightarrow>
                       (if kind e = PyJWKClientError
                        then raise TokenInvalid (''unable to resolve signing key: '' @ message e)
                        else raise TokenInvalid (''jwks fetch failed: '' @ message e))
                   | Inr signing_key \<Rightarrow> decode_with J token signing_key ''RS256'')
             else if alg = PStr ''HS256'' then decode_with J token (JWT_SECRET J) ''HS256''
             else raise TokenInvalid (''unsupported alg: '' @ py_repr alg))"

definition verify_token :: "jwt_env \<Rightarrow> string option \<Rightarrow> pydict res" where
  "verify_token J token =
     (case token of
        None \<Rightarrow> raise TokenInvalid ''missing token''
      | Some t \<Rightarrow>
          if t = [] then raise TokenInvalid ''missing token''
          else bind_res (decode_token J t) (\<lambda>payload.
            let token_type = dict_get payload ''type''
            in if token_type \<noteq> PNone \<and> token_type \<noteq> PStr ''access''
               then raise TokenInvalid (''wrong token type: '' @ py_repr token_type)
               else if \<not> truthy (dict_get payload ''sub'') then raise TokenInvalid ''missing required claim: sub''
               else
                 let jti = dict_get payload ''jti''
                 in if \<not> truthy jti then Inr payload
                    else case blacklist_exists J (''blacklist:jti:'' @ py_str jti) of
                      Inl e \<Rightarrow> raise TokenInvalid ''revocation state unavailable''
                    | Inr revoked \<Rightarrow> (if revoked then raise TokenInvalid ''revoked'' else Inr payload)))"

section \<open>Identity of in-process producers\<close>

record verified_identity =
  identity_sub :: string
  identity_email :: pyval
  identity_roles :: pyval
  identity_org_id :: pyval
  identity_org_role :: pyval

definition py_or :: "pyval \<Rightarrow> pyval \<Rightarrow> pyval" where
  "py_or v w = (if truthy v then v else w)"

definition as_context :: "verified_identity \<Rightarrow> pydict" where
  "as_context i =
     [(''identity'', PDict
        [(''sub'', PStr (identity_sub i)), (''email'', identity_email i), (''roles'', identity_roles i),
         (''org_id'', identity_org_id i), (''org_role'', identity_org_role i), (''verified'', PBool True)])]"

definition validate_identity_token :: "jwt_env \<Rightarrow> string option \<Rightarrow> verified_identity option res" where
  "validate_identity_token J token =
     (case verify_token J token of
        Inl e \<Rightarrow> (if kind e = TokenInvalid then Inr None else Inl e)
      | Inr payload \<Rightarrow>
          Inr (Some \<lparr>identity_sub = py_str (dict_get payload ''sub''),
                     identity_email = dict_get payload ''email'',
                     identity_roles = py_or (dict_get payload ''roles'') (PList []),
                     identity_org_id = dict_get payload ''org_id'',
                     identity_org_role = py_or (dict_get payload ''org_role'') (PList [])\<rparr>))"

section \<open>Authorization of requests\<close>

text \<open>
  The token of an \<open>Authorization\<close> header: \<open>split(" ", 1)[1].strip()\<close> of a text
  that starts with \<open>bearer\<close>, in any case, and a blank.
\<close>

definition bearer_token :: "string option \<Rightarrow> string res" where
  "bearer_token authorization =
     (case authorization of
        None \<Rightarrow> raise (HTTPException 401) ''Missing or malformed Authorization header''
      | Some a \<Rightarrow>
          if a = [] \<or> \<not> startswith (lower a) ''bearer ''
          then raise (HTTPException 401) ''Missing or malformed Authorization header''
          else Inr (strip (tl (dropWhile (\<lambda>c. c \<noteq> CHR '' '') a))))"

definition verified_payload :: "jwt_env \<Rightarrow> string option \<Rightarrow> pydict res" where
  "verified_payload J authorization =
     bind_res (bearer_token authorization) (\<lambda>token.
     case verify_token J (Some token) of
       Inl e \<Rightarrow> (if kind e = TokenInvalid then raise (HTTPException 401) (message e) else Inl e)
     | Inr payload \<Rightarrow> Inr payload)"

definition PLATFORM_ADMIN_ROLE :: string where
  "PLATFORM_ADMIN_ROLE = ''platform_admin''"

definition require_platform_admin :: "jwt_env \<Rightarrow> string option \<Rightarrow> pydict res" where
  "require_platform_admin J authorization =
     bind_res (verified_payload J authorization) (\<lambda>payload.
     bind_res (py_in PLATFORM_ADMIN_ROLE (py_or (dict_get payload ''roles'') (PList []))) (\<lambda>admin.
     if \<not> admin then raise (HTTPException 403) ''Platform admin role required'' else Inr payload))"

definition PLATFORM_WIDE_PERMISSION :: string where
  "PLATFORM_WIDE_PERMISSION = ''manage_all_orgs''"

definition ORGANIZATION_READ_ROLE :: string where
  "ORGANIZATION_READ_ROLE = ''org_admin''"

record audit_access =
  platform_wide :: bool
  access_organization_id :: "string option"

definition require_audit_read_access :: "jwt_env \<Rightarrow> string option \<Rightarrow> audit_access res" where
  "require_audit_read_access J authorization =
     bind_res (verified_payload J authorization) (\<lambda>payload.
     bind_res (py_in PLATFORM_WIDE_PERMISSION (py_or (dict_get payload ''permissions'') (PList []))) (\<lambda>wide.
     if wide then Inr \<lparr>platform_wide = True, access_organization_id = None\<rparr>
     else
       bind_res (py_in ORGANIZATION_READ_ROLE (py_or (dict_get payload ''org_role'') (PList []))) (\<lambda>reader.
       if \<not> reader then raise (HTTPException 403) ''Audit read permission required''
       else
         (case dict_get payload ''org_id'' of
            PDict d \<Rightarrow> raise (HTTPException 403) ''Verified organization scope required''
          | PList xs \<Rightarrow> raise (HTTPException 403) ''Verified organization scope required''
          | org_id \<Rightarrow>
              (if org_id \<in> {PNone, PStr []}
               then raise (HTTPException 403) ''Verified organization scope required''
               else Inr \<lparr>platform_wide = False, access_organization_id = Some (py_str org_id)\<rparr>)))))"

section \<open>Lemmas\<close>

definition claims_ok :: "jwt_env \<Rightarrow> pydict \<Rightarrow> bool" where
  "claims_ok J payload \<longleftrightarrow>
     (dict_get payload ''iss'' = PNone \<or> dict_get payload ''iss'' = PStr (JWT_ISSUER J)) \<and>
     (dict_get payload ''aud'' = PNone \<or> dict_get payload ''aud'' = PStr (JWT_AUDIENCE J) \<or>
      (\<exists>xs. dict_get payload ''aud'' = PList xs \<and> PStr (JWT_AUDIENCE J) \<in> set xs))"

lemma validate_platform_claims_iff:
  "validate_platform_claims J payload = Inr p \<longleftrightarrow> p = payload \<and> claims_ok J payload"
  by (cases "dict_get payload ''aud''") (auto simp: validate_platform_claims_def claims_ok_def)

lemma decode_with_iff:
  "decode_with J token key alg = Inr p \<longleftrightarrow> jwt_decode J token key alg = Inr p \<and> claims_ok J p"
  by (auto simp: decode_with_def validate_platform_claims_iff split: sum.splits)

text \<open>The key a token's own header selects: the shared secret, or the published key of its \<open>kid\<close>.\<close>

definition selected_key :: "jwt_env \<Rightarrow> pydict \<Rightarrow> string \<Rightarrow> string \<Rightarrow> bool" where
  "selected_key J header key alg \<longleftrightarrow>
     (alg = ''RS256'' \<and> dict_get header ''alg'' = PStr ''RS256'' \<and> truthy (dict_get header ''kid'') \<and>
        get_signing_key J (dict_get header ''kid'') = Inr key) \<or>
     (alg = ''HS256'' \<and> dict_get header ''alg'' = PStr ''HS256'' \<and> key = JWT_SECRET J)"

lemma decode_token_iff:
  "decode_token J token = Inr p \<longleftrightarrow>
     (\<exists>header key alg. get_unverified_header J token = Inr header \<and> selected_key J header key alg \<and>
        jwt_decode J token key alg = Inr p) \<and> claims_ok J p"
proof (cases "get_unverified_header J token")
  case (Inr header)
  consider (rs) "dict_get header ''alg'' = PStr ''RS256''" | (hs) "dict_get header ''alg'' = PStr ''HS256''"
    | (other) "dict_get header ''alg'' \<noteq> PStr ''RS256''" "dict_get header ''alg'' \<noteq> PStr ''HS256''" by blast
  then show ?thesis
  proof cases
    case rs
    with Inr show ?thesis
      by (auto simp: decode_token_def selected_key_def decode_with_iff Let_def split: sum.splits)
  next
    case hs
    with Inr show ?thesis by (auto simp: decode_token_def selected_key_def decode_with_iff Let_def)
  next
    case other
    with Inr show ?thesis by (auto simp: decode_token_def selected_key_def Let_def)
  qed
qed (auto simp: decode_token_def)

definition payload_ok :: "jwt_env \<Rightarrow> pydict \<Rightarrow> bool" where
  "payload_ok J p \<longleftrightarrow>
     (dict_get p ''type'' = PNone \<or> dict_get p ''type'' = PStr ''access'') \<and>
     truthy (dict_get p ''sub'') \<and>
     (truthy (dict_get p ''jti'') \<longrightarrow>
        blacklist_exists J (''blacklist:jti:'' @ py_str (dict_get p ''jti'')) = Inr False)"

lemma verify_token_Inr:
  "verify_token J token = Inr p \<longleftrightarrow>
     (\<exists>t. token = Some t \<and> t \<noteq> [] \<and> decode_token J t = Inr p) \<and> payload_ok J p"
proof -
  have "verify_token J (Some t) = Inr p \<longleftrightarrow> t \<noteq> [] \<and> decode_token J t = Inr p \<and> payload_ok J p" for t
  proof (cases "decode_token J t")
    case (Inr q)
    show ?thesis
      by (cases "blacklist_exists J (''blacklist:jti:'' @ py_str (dict_get q ''jti''))")
        (auto simp: verify_token_def payload_ok_def Inr Let_def split: if_splits)
  qed (simp add: verify_token_def)
  then show ?thesis by (cases token) (auto simp: verify_token_def)
qed

lemma verified_payload_Inr:
  "verified_payload J a = Inr p \<longleftrightarrow> (\<exists>t. bearer_token a = Inr t \<and> verify_token J (Some t) = Inr p)"
proof (cases "bearer_token a")
  case (Inr t)
  then show ?thesis by (cases "verify_token J (Some t)") (auto simp: verified_payload_def)
qed (simp add: verified_payload_def)

section \<open>Properties\<close>

text \<open>
  C39: exactly which tokens are accepted.  A payload is returned if and only if
  it is what the signature check of the key selected by the token's own header
  returns (the shared secret for HS256, the published key of the \<open>kid\<close> for
  RS256, nothing for any other algorithm), its issuer and audience are absent
  or the platform's, its type is absent or \<open>access\<close>, it names a subject, and,
  if it has an ID, the revocation list could be read and does not hold it.
\<close>

theorem verify_token_iff:
  "verify_token J token = Inr p \<longleftrightarrow>
     (\<exists>t header key alg. token = Some t \<and> t \<noteq> [] \<and> get_unverified_header J t = Inr header \<and>
        selected_key J header key alg \<and> jwt_decode J t key alg = Inr p) \<and>
     claims_ok J p \<and> payload_ok J p"
  unfolding verify_token_Inr decode_token_iff by blast

text \<open>
  The read scope a request gets.  It is platform-wide only for a verified
  token whose permissions contain \<open>manage_all_orgs\<close>, and otherwise it is the
  organization of a verified token of an \<open>org_admin\<close>, never empty; no request
  gets a scope from anything but the verified payload.
\<close>

theorem require_audit_read_access_sound:
  assumes "require_audit_read_access J authorization = Inr access"
  shows "\<exists>t p. bearer_token authorization = Inr t \<and> verify_token J (Some t) = Inr p \<and>
    (if platform_wide access
     then py_in PLATFORM_WIDE_PERMISSION (py_or (dict_get p ''permissions'') (PList [])) = Inr True \<and>
       access_organization_id access = None
     else py_in ORGANIZATION_READ_ROLE (py_or (dict_get p ''org_role'') (PList [])) = Inr True \<and>
       dict_get p ''org_id'' \<noteq> PNone \<and> dict_get p ''org_id'' \<noteq> PStr [] \<and>
       access_organization_id access = Some (py_str (dict_get p ''org_id'')))"
proof -
  from assms obtain p where p: "verified_payload J authorization = Inr p"
    by (auto simp: require_audit_read_access_def)
  then obtain t where t: "bearer_token authorization = Inr t" "verify_token J (Some t) = Inr p"
    by (auto simp: verified_payload_Inr)
  from assms p have "if platform_wide access
     then py_in PLATFORM_WIDE_PERMISSION (py_or (dict_get p ''permissions'') (PList [])) = Inr True \<and>
       access_organization_id access = None
     else py_in ORGANIZATION_READ_ROLE (py_or (dict_get p ''org_role'') (PList [])) = Inr True \<and>
       dict_get p ''org_id'' \<noteq> PNone \<and> dict_get p ''org_id'' \<noteq> PStr [] \<and>
       access_organization_id access = Some (py_str (dict_get p ''org_id''))"
    by (cases "dict_get p ''org_id''")
      (auto simp: require_audit_read_access_def simp del: py_in.simps split: if_splits)
  with t show ?thesis by blast
qed

text \<open>A verifier that knows one HS256 token per payload: the text of the secret.\<close>

definition example_jwt :: "pydict \<Rightarrow> jwt_env" where
  "example_jwt p =
     \<lparr>get_unverified_header = (\<lambda>t. Inr [(''alg'', PStr ''HS256'')]),
      get_signing_key = (\<lambda>k. raise PyJWKClientError ''no key''),
      jwt_decode = (\<lambda>t key alg. if t = key then Inr p else raise InvalidTokenError ''Signature verification failed''),
      blacklist_exists = (\<lambda>k. Inr False),
      JWT_SECRET = ''s3cret'', JWT_ISSUER = ''omnibioai-auth'', JWT_AUDIENCE = ''omnibioai-platform''\<rparr>"

lemma example_jwt_payload:
  assumes "dict_get p ''iss'' = PNone" and "dict_get p ''aud'' = PNone" and "dict_get p ''type'' = PNone"
    and "truthy (dict_get p ''sub'')" and "dict_get p ''jti'' = PNone"
  shows "verified_payload (example_jwt p) (Some ''Bearer s3cret'') = Inr p"
proof -
  have "bearer_token (Some ''Bearer s3cret'') = Inr ''s3cret''" by code_simp
  moreover have "selected_key (example_jwt p) [(''alg'', PStr ''HS256'')] ''s3cret'' ''HS256''"
    by (simp add: selected_key_def example_jwt_def dict_get_def)
  moreover have "claims_ok (example_jwt p) p" "payload_ok (example_jwt p) p"
    using assms by (simp_all add: claims_ok_def payload_ok_def)
  moreover have "jwt_decode (example_jwt p) ''s3cret'' ''s3cret'' ''HS256'' = Inr p"
    "get_unverified_header (example_jwt p) ''s3cret'' = Inr [(''alg'', PStr ''HS256'')]"
    by (simp_all add: example_jwt_def)
  ultimately show ?thesis
    unfolding verified_payload_Inr verify_token_Inr decode_token_iff by blast
qed

theorem require_audit_read_access_sound_witness:
  "let p = [(''sub'', PStr ''7''), (''org_role'', PList [PStr ''org_admin'']), (''org_id'', PInt 589)]
   in \<exists>access t. require_audit_read_access (example_jwt p) (Some ''Bearer s3cret'') = Inr access \<and>
     access_organization_id access = Some ''589'' \<and>
     bearer_token (Some ''Bearer s3cret'') = Inr t \<and> verify_token (example_jwt p) (Some t) = Inr p"
proof -
  define p where "p = [(''sub'', PStr ''7''), (''org_role'', PList [PStr ''org_admin'']), (''org_id'', PInt 589)]"
  have v: "verified_payload (example_jwt p) (Some ''Bearer s3cret'') = Inr p"
    by (rule example_jwt_payload) (simp_all add: p_def dict_get_def)
  have s: "py_str (PInt 589) = ''589''" by code_simp
  have g: "dict_get p ''permissions'' = PNone" "dict_get p ''org_role'' = PList [PStr ''org_admin'']"
    "dict_get p ''org_id'' = PInt 589"
    by (simp_all add: p_def dict_get_def)
  have a: "require_audit_read_access (example_jwt p) (Some ''Bearer s3cret'') =
      Inr \<lparr>platform_wide = False, access_organization_id = Some (py_str (PInt 589))\<rparr>"
    by (simp add: require_audit_read_access_def v g py_or_def PLATFORM_WIDE_PERMISSION_def
        ORGANIZATION_READ_ROLE_def del: py_str.simps)
  from require_audit_read_access_sound [OF a] obtain t q where
    "bearer_token (Some ''Bearer s3cret'') = Inr t" "verify_token (example_jwt p) (Some t) = Inr q" by blast
  moreover from this v have "q = p" by (simp add: verified_payload_Inr)
  ultimately show ?thesis using a unfolding p_def [symmetric] s Let_def by auto
qed

text \<open>
  The role test reads the \<open>roles\<close> claim as whatever it is.  If the claim is a
  text instead of a list, the test is a substring test: any verified token whose
  \<open>roles\<close> text contains \<open>platform_admin\<close>, say inside another role's name, is let
  through as platform admin.
\<close>

theorem text_roles_substring_admin:
  assumes "verified_payload J authorization = Inr p"
    and "dict_get p ''roles'' = PStr (a @ PLATFORM_ADMIN_ROLE @ b)"
  shows "require_platform_admin J authorization = Inr p"
proof -
  have take: "take (length u) (u @ v) = u" for u v :: string by simp
  have "contains u (x @ u @ y)" for u x y :: string
  proof (induction x)
    case Nil
    show ?case by (cases "u @ y") (simp_all add: take flip: append_eq_append_conv, metis append_eq_conv_conj)
  qed simp
  then have "py_in PLATFORM_ADMIN_ROLE (dict_get p ''roles'') = Inr True" using assms(2) by simp
  moreover have "truthy (dict_get p ''roles'')" using assms(2) by (simp add: PLATFORM_ADMIN_ROLE_def)
  ultimately show ?thesis using assms(1) by (simp add: require_platform_admin_def py_or_def)
qed

theorem text_roles_substring_admin_witness:
  "let p = [(''sub'', PStr ''7''), (''roles'', PStr ''not_a_platform_admin'')]
   in require_platform_admin (example_jwt p) (Some ''Bearer s3cret'') = Inr p"
proof -
  define p where "p = [(''sub'', PStr ''7''), (''roles'', PStr ''not_a_platform_admin'')]"
  have v: "verified_payload (example_jwt p) (Some ''Bearer s3cret'') = Inr p"
    by (rule example_jwt_payload) (simp_all add: p_def dict_get_def)
  have r: "dict_get p ''roles'' = PStr (''not_a_'' @ PLATFORM_ADMIN_ROLE @ [])"
    by (simp add: p_def dict_get_def PLATFORM_ADMIN_ROLE_def)
  show ?thesis using text_roles_substring_admin [OF v r] unfolding p_def [symmetric] Let_def .
qed

end
