(* ===== verification/Producer.thy ===== *)
theory Producer
  imports Sinks Jwt_Access
begin

text \<open>
  The producer side: \<open>audit/context.py\<close>, \<open>audit/contexts.py\<close>, \<open>audit/logger.py\<close>,
  \<open>audit/decorators.py\<close> and \<open>api/routes_audit.py\<close>.  The state of a request is the
  environment, the three context variables and the entries published so far.
  Redis, the UUID generator, the clock and pydantic are parameters.
\<close>

section \<open>The state of a request\<close>

record 'e producer_ops =
  p_xadd :: "string \<Rightarrow> stream_fields \<Rightarrow> int \<Rightarrow> 'e \<Rightarrow> unit res \<times> 'e"
  p_uuid4 :: "'e \<Rightarrow> string res \<times> 'e"
  p_utcnow :: "'e \<Rightarrow> datetime res \<times> 'e"

record 'e request =
  request_env :: 'e
  trace_id_var :: "string option"
  user_id_var :: "string option"
  identity_var :: "verified_identity option"
  published :: "(string \<times> stream_fields) list"

type_synonym ('e, 'a) rq = "('e request, 'a) st"

definition rq_call :: "('e \<Rightarrow> 'a res \<times> 'e) \<Rightarrow> ('e, 'a) rq" where
  "rq_call f s = (let (r, e) = f (request_env s) in (r, s\<lparr>request_env := e\<rparr>))"

section \<open>Context variables\<close>

definition set_trace_id :: "string option \<Rightarrow> ('e, unit) rq" where
  "set_trace_id v s = (Inr (), s\<lparr>trace_id_var := v\<rparr>)"

definition get_trace_id :: "('e, string option) rq" where
  "get_trace_id s = (Inr (trace_id_var s), s)"

definition set_user_id :: "string option \<Rightarrow> ('e, unit) rq" where
  "set_user_id v s = (Inr (), s\<lparr>user_id_var := v\<rparr>)"

definition get_user_id :: "('e, string option) rq" where
  "get_user_id s = (Inr (user_id_var s), s)"

definition set_identity :: "verified_identity option \<Rightarrow> ('e, unit) rq" where
  "set_identity v s = (Inr (), s\<lparr>identity_var := v\<rparr>)"

definition get_identity :: "('e, verified_identity option) rq" where
  "get_identity s = (Inr (identity_var s), s)"

lemmas context_defs [simp] = set_trace_id_def get_trace_id_def set_user_id_def get_user_id_def
  set_identity_def get_identity_def

definition inject_context ::
    "'e producer_ops \<Rightarrow> jwt_env \<Rightarrow> string option \<Rightarrow> string option \<Rightarrow> ('e, string) rq" where
  "inject_context Q J uid token =
     io_bind (rq_call (p_uuid4 Q)) (\<lambda>trace_id.
     io_bind (set_trace_id (Some trace_id)) (\<lambda>_.
     io_bind (io_lift (if token \<noteq> None \<and> token \<noteq> Some [] then validate_identity_token J token else Inr None)) (\<lambda>identity.
     io_bind (case identity of
         Some i \<Rightarrow> set_user_id (Some (identity_sub i))
       | None \<Rightarrow> set_user_id uid) (\<lambda>_.
     io_bind (set_identity identity) (\<lambda>_.
     io_return trace_id)))))"

section \<open>Publishing an event\<close>

text \<open>
  \<open>event.model_dump(mode="json")\<close>: the fields in the order of the model.  How
  pydantic writes a datetime, and what it makes of the values in the context, are
  parameters.
\<close>

record dumper =
  dump_datetime :: "datetime \<Rightarrow> string"
  dump_any :: "pyval \<Rightarrow> pyval res"

definition model_dump_json :: "dumper \<Rightarrow> audit_event \<Rightarrow> pydict res" where
  "model_dump_json D ev =
     bind_res (dump_any D (event_context ev)) (\<lambda>ctx.
     Inr [(''event_id'', PStr (event_id ev)), (''timestamp'', PStr (dump_datetime D (timestamp ev))),
          (''service'', PStr (service ev)), (''event_type'', PStr (event_type ev)),
          (''user_id'', of_opt (user_id ev)), (''organization_id'', of_opt (organization_id ev)),
          (''tenant_scope'', PStr (tenant_scope ev)), (''action'', PStr (action ev)),
          (''resource'', of_opt (resource ev)), (''decision'', of_opt (decision ev)),
          (''reason'', of_opt (reason ev)), (''trace_id'', of_opt (trace_id ev)), (''context'', ctx)])"

text \<open>\<open>json.dumps(payload)\<close> without options.\<close>

definition plain_opts :: json_opts where
  "plain_opts = \<lparr>sort_keys = False, item_sep = '', '', key_sep = '': '', default_str = False\<rparr>"

definition event_stream_fields :: "dumper \<Rightarrow> config \<Rightarrow> audit_event \<Rightarrow> stream_fields res" where
  "event_stream_fields D cfg ev =
     bind_res (model_dump_json D ev) (\<lambda>payload.
     bind_res (json_dumps plain_opts (PDict payload)) (\<lambda>data.
     if truthy (dict_get payload ''service'')
     then bind_res (sign_audit_event (py_str (dict_get payload ''service'')) (Some data) (EVENT_SIGNING_SECRET cfg))
            (\<lambda>sig. Inr [(''data'', data), (''sig'', sig)])
     else Inr [(''data'', data)]))"

text \<open>\<open>AuditLogger.log\<close>; an entry counts as published when \<open>XADD\<close> returned.\<close>

definition logger_log :: "'e producer_ops \<Rightarrow> dumper \<Rightarrow> config \<Rightarrow> audit_event \<Rightarrow> ('e, unit) rq" where
  "logger_log Q D cfg ev =
     io_try
       (io_bind (io_lift (event_stream_fields D cfg ev)) (\<lambda>fields.
        io_bind (rq_call (p_xadd Q (STREAM_NAME cfg) fields (MAX_STREAM_LENGTH cfg))) (\<lambda>_ s.
        (Inr (), s\<lparr>published := published s @ [(STREAM_NAME cfg, fields)]\<rparr>))))
       (\<lambda>_. io_return ())"

section \<open>The decorator and the test route\<close>

text \<open>\<open>AuditEvent(...)\<close> with the given arguments; the two default factories come first.\<close>

definition new_event :: "'e producer_ops \<Rightarrow> pydantic \<Rightarrow> pydict \<Rightarrow> ('e, audit_event) rq" where
  "new_event Q P args =
     io_bind (rq_call (p_uuid4 Q)) (\<lambda>u.
     io_bind (rq_call (p_utcnow Q)) (\<lambda>n.
     io_lift (audit_event_init P u n args)))"

definition identity_org :: "verified_identity option \<Rightarrow> string option" where
  "identity_org identity =
     (case identity of None \<Rightarrow> None
      | Some i \<Rightarrow> (if identity_org_id i \<noteq> PNone then Some (py_str (identity_org_id i)) else None))"

definition audit_args ::
    "config \<Rightarrow> string \<Rightarrow> string \<Rightarrow> verified_identity option \<Rightarrow> string option \<Rightarrow> string option \<Rightarrow> pydict" where
  "audit_args cfg ev_type act identity uid trace =
     [(''service'', PStr (SERVICE_NAME cfg)), (''event_type'', PStr ev_type), (''user_id'', of_opt uid),
      (''organization_id'', of_opt (identity_org identity)),
      (''tenant_scope'', PStr (if identity_org identity \<noteq> None then ''organization'' else ''unknown'')),
      (''action'', PStr act), (''decision'', PStr ''success''), (''trace_id'', of_opt trace),
      (''context'', PDict (case identity of Some i \<Rightarrow> as_context i | None \<Rightarrow> []))]"

definition audit ::
    "'e producer_ops \<Rightarrow> pydantic \<Rightarrow> dumper \<Rightarrow> config \<Rightarrow> string \<Rightarrow> string \<Rightarrow> ('e, 'a) rq \<Rightarrow> ('e, 'a) rq" where
  "audit Q P D cfg ev_type act func =
     io_bind func (\<lambda>result.
     io_bind get_identity (\<lambda>identity.
     io_bind get_user_id (\<lambda>uid.
     io_bind get_trace_id (\<lambda>trace.
     io_bind (new_event Q P (audit_args cfg ev_type act identity uid trace)) (\<lambda>ev.
     io_bind (logger_log Q D cfg ev) (\<lambda>_.
     io_return result))))))"

definition test_log :: "'e producer_ops \<Rightarrow> pydantic \<Rightarrow> dumper \<Rightarrow> config \<Rightarrow> ('e, pydict) rq" where
  "test_log Q P D cfg =
     io_bind (new_event Q P [(''service'', PStr (SERVICE_NAME cfg)), (''event_type'', PStr ''test''),
        (''action'', PStr ''health_check''), (''decision'', PStr ''success'')]) (\<lambda>ev.
     io_bind (logger_log Q D cfg ev) (\<lambda>_.
     io_return [(''logged'', PBool True)]))"

definition health :: pydict where
  "health = [(''status'', PStr ''ok'')]"

section \<open>A published event reaches the worker as it was\<close>

lemma norm_plain: "norm plain_opts v = v"
proof (induction v)
  case (PList xs)
  then have "map (norm plain_opts) xs = xs" by (intro map_idI) auto
  then show ?case by simp
next
  case (PDict d)
  then have "map (map_prod id (norm plain_opts)) d = d" by (intro map_idI) (auto simp: snds.simps)
  then show ?case by (simp add: order_items_def plain_opts_def)
qed simp_all

lemma plain_opts_ok: "opts_ok plain_opts"
  by (simp add: opts_ok_def plain_opts_def is_ws_def code_def)

lemma get_optional_of_opt:
  assumes "pydantic_ok P" and "map_of d k = Some (of_opt x)"
  shows "get_optional P d k = Inr x"
  using assms by (cases x) (simp_all add: get_optional_def get_default_def of_opt_def pydantic_ok_def)

lemma get_str:
  assumes "pydantic_ok P" and "map_of d k = Some (PStr x)"
  shows "get_default (valid_str P) v d k = Inr x" and "get_required (valid_str P) d k = Inr x"
  using assms by (simp_all add: get_required_def get_default_def pydantic_ok_def)

lemma audit_event_eta:
  "event_context ev = c \<Longrightarrow>
   \<lparr>event_id = event_id ev, timestamp = timestamp ev, service = service ev, event_type = event_type ev,
    user_id = user_id ev, organization_id = organization_id ev, tenant_scope = tenant_scope ev, action = action ev,
    resource = resource ev, decision = decision ev, reason = reason ev, trace_id = trace_id ev,
    event_context = c\<rparr> = (ev :: audit_event)"
  by (cases ev) simp

lemma accepted_event_fixed:
  assumes "audit_event_init P u n d = Inr ev"
  shows "tenant_scope ev \<in> set tenant_scopes" and "validate_tenant_scope ev = Inr ev"
    and "\<exists>ctx. event_context ev = PDict ctx"
proof -
  obtain ev0 where v: "validate_tenant_scope ev0 = Inr ev" and s: "tenant_scope ev0 \<in> set tenant_scopes"
    and c: "\<exists>ctx. event_context ev0 = PDict ctx"
    using assms by (auto simp: audit_event_init_def dest!: get_default_scope)
  from v s show "tenant_scope ev \<in> set tenant_scopes" by (auto simp: validate_tenant_scope_iff tenant_scopes_def)
  from v c show "\<exists>ctx. event_context ev = PDict ctx" by (auto simp: validate_tenant_scope_iff)
  from v show "validate_tenant_scope ev = Inr ev" by (auto simp: validate_tenant_scope_iff split: if_splits)
qed

text \<open>
  Pydantic reads back the text it writes for the timestamp, and writes a context
  of JSON values as it is.
\<close>

definition dump_restores :: "pydantic \<Rightarrow> dumper \<Rightarrow> audit_event \<Rightarrow> bool" where
  "dump_restores P D ev \<longleftrightarrow>
     valid_datetime P (PStr (dump_datetime D (timestamp ev))) = Some (timestamp ev) \<and>
     dump_any D (event_context ev) = Inr (event_context ev)"

lemma dumped_event_validates:
  assumes P: "pydantic_ok P" and ev: "audit_event_init P u0 n0 d0 = Inr ev" and D: "dump_restores P D ev"
    and p: "model_dump_json D ev = Inr payload"
  shows "audit_event_init P u n payload = Inr ev"
proof -
  note fixed = accepted_event_fixed [OF ev]
  obtain ctx where ctx: "event_context ev = PDict ctx" using fixed(3) by blast
  let ?m = "map_of payload"
  have m: "?m ''event_id'' = Some (PStr (event_id ev))" "?m ''timestamp'' = Some (PStr (dump_datetime D (timestamp ev)))"
    "?m ''service'' = Some (PStr (service ev))" "?m ''event_type'' = Some (PStr (event_type ev))"
    "?m ''user_id'' = Some (of_opt (user_id ev))" "?m ''organization_id'' = Some (of_opt (organization_id ev))"
    "?m ''tenant_scope'' = Some (PStr (tenant_scope ev))" "?m ''action'' = Some (PStr (action ev))"
    "?m ''resource'' = Some (of_opt (resource ev))" "?m ''decision'' = Some (of_opt (decision ev))"
    "?m ''reason'' = Some (of_opt (reason ev))" "?m ''trace_id'' = Some (of_opt (trace_id ev))"
    "?m ''context'' = Some (PDict ctx)"
    using p D ctx by (auto simp: model_dump_json_def dump_restores_def)
  have "get_default (valid_datetime P) n payload ''timestamp'' = Inr (timestamp ev)"
    using m(2) D by (simp add: get_default_def dump_restores_def)
  moreover have "get_default valid_scope ''unknown'' payload ''tenant_scope'' = Inr (tenant_scope ev)"
    using m(7) fixed(1) by (simp add: get_default_def valid_scope_def)
  moreover have "get_default (valid_dict P) [] payload ''context'' = Inr ctx"
    using m(13) P by (simp add: get_default_def pydantic_ok_def)
  ultimately have "audit_event_init P u n payload = validate_tenant_scope ev"
    using ctx by (simp add: audit_event_init_def audit_event_eta get_str [OF P m(1)] get_str [OF P m(3)] get_str [OF P m(4)] get_str [OF P m(8)]
        get_optional_of_opt [OF P m(5)] get_optional_of_opt [OF P m(6)] get_optional_of_opt [OF P m(9)]
        get_optional_of_opt [OF P m(10)] get_optional_of_opt [OF P m(11)] get_optional_of_opt [OF P m(12)])
  with fixed(2) show ?thesis by simp
qed

lemma event_stream_fields_Inr:
  assumes "event_stream_fields D cfg ev = Inr fs"
  obtains payload data where "model_dump_json D ev = Inr payload" "json_dumps plain_opts (PDict payload) = Inr data"
    "map_of fs ''data'' = Some data"
    "classify_event_integrity (service ev) (map_of fs ''sig'') (map_of fs ''data'') (EVENT_SIGNING_SECRET cfg)
      = (if service ev = [] then ''unsigned'' else ''valid'')"
proof -
  obtain payload data where p: "model_dump_json D ev = Inr payload" "json_dumps plain_opts (PDict payload) = Inr data"
    and f: "(if truthy (dict_get payload ''service'')
      then bind_res (sign_audit_event (py_str (dict_get payload ''service'')) (Some data) (EVENT_SIGNING_SECRET cfg))
            (\<lambda>sig. Inr [(''data'', data), (''sig'', sig)]) else Inr [(''data'', data)]) = Inr fs"
    using assms by (auto simp: event_stream_fields_def)
  have sv: "dict_get payload ''service'' = PStr (service ev)"
    using p(1) by (auto simp: model_dump_json_def dict_get_def)
  show thesis
  proof (rule that [OF p])
    show "map_of fs ''data'' = Some data" using f by (auto split: if_splits)
    show "classify_event_integrity (service ev) (map_of fs ''sig'') (map_of fs ''data'') (EVENT_SIGNING_SECRET cfg)
      = (if service ev = [] then ''unsigned'' else ''valid'')"
    proof (cases "service ev = []")
      case True
      then show ?thesis using f sv by (auto simp: classify_event_integrity_def)
    next
      case False
      then obtain sg where s: "sign_audit_event (service ev) (Some data) (EVENT_SIGNING_SECRET cfg) = Inr sg"
        "fs = [(''data'', data), (''sig'', sg)]" using f sv by auto
      then have "verify_audit_event (PStr (service ev)) (Some data) (PStr sg) (EVENT_SIGNING_SECRET cfg)" "sg \<noteq> []"
        by (auto simp: sign_audit_event_def verify_audit_event_iff SUPPORTED_VERSION_def split: if_splits)
      with s False show ?thesis by (simp add: classify_event_integrity_def of_opt_def)
    qed
  qed
qed

lemma stream_fields_parse:
  assumes "pydantic_ok P" and "audit_event_init P u0 n0 args = Inr ev" and "dump_restores P D ev"
    and "model_dump_json D ev = Inr payload" and "json_ok (PDict payload)" and "event_stream_fields D cfg ev = Inr fs"
  shows "parse_audit_event P u n (map_of fs ''data'') = Inr ev"
    and "classify_event_integrity (service ev) (map_of fs ''sig'') (map_of fs ''data'') (EVENT_SIGNING_SECRET cfg)
      = (if service ev = [] then ''unsigned'' else ''valid'')"
proof -
  obtain data where d: "json_dumps plain_opts (PDict payload) = Inr data" "map_of fs ''data'' = Some data"
    and c: "classify_event_integrity (service ev) (map_of fs ''sig'') (map_of fs ''data'') (EVENT_SIGNING_SECRET cfg)
      = (if service ev = [] then ''unsigned'' else ''valid'')"
    using assms(4,6) by (auto elim!: event_stream_fields_Inr)
  have "json_loads (Some data) = Inr (PDict payload)"
    using json_loads_dumps [OF plain_opts_ok assms(5) d(1)] by (simp add: norm_plain del: norm.simps)
  then show "parse_audit_event P u n (map_of fs ''data'') = Inr ev"
    using dumped_event_validates [OF assms(1-4), of u n] d(2) by (simp add: parse_audit_event_def)
  show "classify_event_integrity (service ev) (map_of fs ''sig'') (map_of fs ''data'') (EVENT_SIGNING_SECRET cfg)
      = (if service ev = [] then ''unsigned'' else ''valid'')" by (rule c)
qed

lemma logger_log_published:
  "logger_log Q D cfg ev s =
     (Inr (), case event_stream_fields D cfg ev of
        Inl e \<Rightarrow> s
      | Inr fs \<Rightarrow> (case p_xadd Q (STREAM_NAME cfg) fs (MAX_STREAM_LENGTH cfg) (request_env s) of
          (Inl e, e') \<Rightarrow> s\<lparr>request_env := e'\<rparr>
        | (Inr _, e') \<Rightarrow> s\<lparr>request_env := e', published := published s @ [(STREAM_NAME cfg, fs)]\<rparr>))"
  by (cases "event_stream_fields D cfg ev")
    (auto simp: logger_log_def io_try_def io_bind_def rq_call_def split: prod.splits sum.splits)

text \<open>
  What is published arrives.  Logging an event never raises.  When the event can
  be dumped and signed, its entry is published exactly if \<open>XADD\<close> returns; and for
  every event whose texts and context are JSON values, the worker then parses the
  very event that was logged and classifies it as validly signed (unsigned if it has
  no service name).
\<close>

theorem published_event_arrives:
  assumes "pydantic_ok P" and "audit_event_init P u0 n0 args = Inr ev" and "dump_restores P D ev"
    and "model_dump_json D ev = Inr payload" and "json_ok (PDict payload)"
    and "logger_log Q D cfg ev s = (r, s')"
  shows "r = Inr () \<and>
    (case event_stream_fields D cfg ev of
       Inl e \<Rightarrow> published s' = published s
     | Inr fs \<Rightarrow>
         published s' = published s @
           (if is_ok (fst (p_xadd Q (STREAM_NAME cfg) fs (MAX_STREAM_LENGTH cfg) (request_env s)))
            then [(STREAM_NAME cfg, fs)] else []) \<and>
         (\<forall>u n. parse_audit_event P u n (map_of fs ''data'') = Inr ev) \<and>
         classify_event_integrity (service ev) (map_of fs ''sig'') (map_of fs ''data'') (EVENT_SIGNING_SECRET cfg)
           = (if service ev = [] then ''unsigned'' else ''valid''))"
proof (cases "event_stream_fields D cfg ev")
  case (Inl e)
  then show ?thesis using assms(6) by (simp add: logger_log_published)
next
  case (Inr fs)
  have "r = Inr ()" "published s' = published s @
       (if is_ok (fst (p_xadd Q (STREAM_NAME cfg) fs (MAX_STREAM_LENGTH cfg) (request_env s)))
        then [(STREAM_NAME cfg, fs)] else [])"
    using assms(6) Inr by (auto simp: logger_log_published split: prod.splits sum.splits)
  with Inr stream_fields_parse [OF assms(1-5) Inr] show ?thesis by simp
qed

section \<open>The decorator leaves the decorated function alone\<close>

lemma new_event_total:
  assumes P: "pydantic_ok P" and u: "\<forall>e. \<exists>x e'. p_uuid4 Q e = (Inr x, e')" and t: "\<forall>e. \<exists>x e'. p_utcnow Q e = (Inr x, e')"
  shows "\<exists>ev e'. new_event Q P (audit_args cfg ty act identity uid trace) s = (Inr ev, s\<lparr>request_env := e'\<rparr>) \<and>
    service ev = SERVICE_NAME cfg \<and> event_type ev = ty \<and> action ev = act \<and> decision ev = Some ''success'' \<and>
    user_id ev = uid \<and> trace_id ev = trace \<and> organization_id ev = identity_org identity \<and>
    event_context ev = PDict (case identity of Some i \<Rightarrow> as_context i | None \<Rightarrow> [])"
proof -
  obtain x e1 where x: "p_uuid4 Q (request_env s) = (Inr x, e1)" using u by blast
  obtain y e2 where y: "p_utcnow Q e1 = (Inr y, e2)" using t by blast
  let ?d = "audit_args cfg ty act identity uid trace"
  have m: "map_of ?d ''user_id'' = Some (of_opt uid)" "map_of ?d ''organization_id'' = Some (of_opt (identity_org identity))"
    "map_of ?d ''trace_id'' = Some (of_opt trace)" "map_of ?d ''decision'' = Some (of_opt (Some ''success''))"
    by (simp_all add: audit_args_def of_opt_def)
  have s: "map_of ?d ''service'' = Some (PStr (SERVICE_NAME cfg))" "map_of ?d ''event_type'' = Some (PStr ty)"
    "map_of ?d ''action'' = Some (PStr act)" by (simp_all add: audit_args_def)
  have n: "map_of ?d ''event_id'' = None" "map_of ?d ''timestamp'' = None" "map_of ?d ''resource'' = None"
    "map_of ?d ''reason'' = None" by (simp_all add: audit_args_def)
  have c: "get_default (valid_dict P) [] ?d ''context'' = Inr (case identity of Some i \<Rightarrow> as_context i | None \<Rightarrow> [])"
    using P by (simp add: get_default_def pydantic_ok_def audit_args_def)
  have sc: "get_default valid_scope ''unknown'' ?d ''tenant_scope'' =
      Inr (if identity_org identity \<noteq> None then ''organization'' else ''unknown'')"
    by (simp add: get_default_def audit_args_def valid_scope_def tenant_scopes_def)
  have absent: "get_default (valid_str P) x ?d ''event_id'' = Inr x" "get_default (valid_datetime P) y ?d ''timestamp'' = Inr y"
    "get_optional P ?d ''resource'' = Inr None" "get_optional P ?d ''reason'' = Inr None"
    using n by (simp_all add: get_default_def get_optional_def)
  have "\<exists>ev. audit_event_init P x y ?d = Inr ev \<and>
    service ev = SERVICE_NAME cfg \<and> event_type ev = ty \<and> action ev = act \<and> decision ev = Some ''success'' \<and>
    user_id ev = uid \<and> trace_id ev = trace \<and> organization_id ev = identity_org identity \<and>
    event_context ev = PDict (case identity of Some i \<Rightarrow> as_context i | None \<Rightarrow> [])"
    by (cases "identity_org identity") (simp_all add: audit_event_init_def absent sc c get_optional_of_opt [OF P m(1)] get_optional_of_opt [OF P m(2)]
        get_optional_of_opt [OF P m(3)] get_optional_of_opt [OF P m(4)] get_str [OF P s(1)] get_str [OF P s(2)]
        get_str [OF P s(3)] validate_tenant_scope_def)
  then show ?thesis using x y by (auto simp: new_event_def io_bind_def rq_call_def)
qed

lemma audit_raises: "func s = (Inl e, s1) \<Longrightarrow> audit Q P D cfg ty act func s = (Inl e, s1)"
  by (simp add: audit_def io_bind_def)

lemma logger_log_outcome:
  assumes "logger_log Q D cfg ev s = (r, s')"
  shows "r = Inr () \<and> (published s' = published s \<or>
    (\<exists>fs. event_stream_fields D cfg ev = Inr fs \<and> published s' = published s @ [(STREAM_NAME cfg, fs)]))"
  using assms by (auto simp: logger_log_published split: sum.splits prod.splits)

lemma inject_context_Inr:
  assumes "inject_context Q J uid token s = (Inr t, s1)"
  shows "trace_id_var s1 = Some t \<and>
    (case verify_token J token of
       Inr payload \<Rightarrow> \<exists>i. identity_var s1 = Some i \<and> user_id_var s1 = Some (identity_sub i) \<and>
         identity_sub i = py_str (dict_get payload ''sub'') \<and> identity_org_id i = dict_get payload ''org_id''
     | Inl e \<Rightarrow> identity_var s1 = None \<and> user_id_var s1 = uid)"
proof -
  have absent: "\<exists>m. verify_token J token = raise TokenInvalid m" if "token = None \<or> token = Some []"
    using that by (auto simp: verify_token_def)
  have set_user: "(case idn of Some i \<Rightarrow> set_user_id (Some (identity_sub i)) | None \<Rightarrow> set_user_id uid) u
      = (Inr (), u\<lparr>user_id_var := (case idn of Some i \<Rightarrow> Some (identity_sub i) | None \<Rightarrow> uid)\<rparr>)" for idn and u :: "'a request"
    by (cases idn) simp_all
  obtain s0 idn where v: "(if token \<noteq> None \<and> token \<noteq> Some [] then validate_identity_token J token else Inr None) = Inr idn"
    and s1: "trace_id_var s1 = Some t" "identity_var s1 = idn"
      "user_id_var s1 = (case idn of Some i \<Rightarrow> Some (identity_sub i) | None \<Rightarrow> uid)"
    using assms by (auto simp: inject_context_def io_bind_Inr set_user)
  show ?thesis
  proof (cases "token = None \<or> token = Some []")
    case True
    then show ?thesis using v s1 absent [OF True] by auto
  next
    case False
    then show ?thesis
      using v by (cases "verify_token J token") (auto simp: validate_identity_token_def s1 split: if_splits)
  qed
qed

text \<open>
  C26: the events of audited requests carry verified identities only, and auditing
  does not disturb the request.  When a request was set up by \<open>inject_context\<close> and the
  decorated function returned, the decorated call returns the same result whatever
  Redis does.  At most one entry is published for it, for an event with the trace ID
  of the request whose user and organization are the subject and the organization of
  the token if the token was verified; otherwise the user is the one the caller
  stated, and no organization and no identity are attached.
\<close>

theorem audited_request_identity:
  assumes "pydantic_ok P" and "\<forall>e. \<exists>x e'. p_uuid4 Q e = (Inr x, e')" and "\<forall>e. \<exists>x e'. p_utcnow Q e = (Inr x, e')"
    and "inject_context Q J uid token s = (Inr t, s1)" and "func s1 = (Inr x, s2)"
    and "trace_id_var s2 = trace_id_var s1" and "user_id_var s2 = user_id_var s1" and "identity_var s2 = identity_var s1"
  shows "\<exists>ev s'. audit Q P D cfg ty act func s1 = (Inr x, s') \<and>
    (published s' = published s2 \<or>
      (\<exists>fs. event_stream_fields D cfg ev = Inr fs \<and> published s' = published s2 @ [(STREAM_NAME cfg, fs)])) \<and>
    service ev = SERVICE_NAME cfg \<and> event_type ev = ty \<and> action ev = act \<and> trace_id ev = Some t \<and>
    (case verify_token J token of
       Inr payload \<Rightarrow> user_id ev = Some (py_str (dict_get payload ''sub'')) \<and>
         organization_id ev = (if dict_get payload ''org_id'' = PNone then None else Some (py_str (dict_get payload ''org_id'')))
     | Inl e \<Rightarrow> user_id ev = uid \<and> organization_id ev = None \<and> event_context ev = PDict [])"
proof -
  note i = inject_context_Inr [OF assms(4)]
  obtain ev e' where n: "new_event Q P (audit_args cfg ty act (identity_var s2) (user_id_var s2) (trace_id_var s2)) s2
      = (Inr ev, s2\<lparr>request_env := e'\<rparr>)"
    and f: "service ev = SERVICE_NAME cfg" "event_type ev = ty" "action ev = act" "user_id ev = user_id_var s2"
      "trace_id ev = trace_id_var s2" "organization_id ev = identity_org (identity_var s2)"
      "event_context ev = PDict (case identity_var s2 of Some i \<Rightarrow> as_context i | None \<Rightarrow> [])"
    using new_event_total [OF assms(1-3)] by blast
  obtain r s' where l: "logger_log Q D cfg ev (s2\<lparr>request_env := e'\<rparr>) = (r, s')" by (rule prod.exhaust)
  have "audit Q P D cfg ty act func s1 = (Inr x, s')"
    using assms(5) n l logger_log_outcome [OF l] by (simp add: audit_def io_bind_def)
  moreover have "published s' = published s2 \<or>
      (\<exists>fs. event_stream_fields D cfg ev = Inr fs \<and> published s' = published s2 @ [(STREAM_NAME cfg, fs)])"
    using logger_log_outcome [OF l] by simp
  moreover have "trace_id ev = Some t" using f(5) i assms(6) by simp
  moreover have "case verify_token J token of
       Inr payload \<Rightarrow> user_id ev = Some (py_str (dict_get payload ''sub'')) \<and>
         organization_id ev = (if dict_get payload ''org_id'' = PNone then None else Some (py_str (dict_get payload ''org_id'')))
     | Inl e \<Rightarrow> user_id ev = uid \<and> organization_id ev = None \<and> event_context ev = PDict []"
    using i f(4,6,7) assms(7,8) by (auto simp: identity_org_def split: sum.splits)
  ultimately show ?thesis using f(1-3) by blast
qed

section \<open>An example producer\<close>

definition demo_time :: datetime where
  "demo_time = DateTime 63902822400000000 None"

definition demo_pydantic :: pydantic where
  "demo_pydantic = strict_pydantic\<lparr>valid_datetime := (\<lambda>v. case v of
     PDatetime t \<Rightarrow> Some t
   | PStr s \<Rightarrow> (if s = isoformat ''T'' demo_time then Some demo_time else None)
   | _ \<Rightarrow> None)\<rparr>"

definition demo_dumper :: dumper where
  "demo_dumper = \<lparr>dump_datetime = isoformat ''T'', dump_any = Inr\<rparr>"

definition demo_ops :: "nat producer_ops" where
  "demo_ops = \<lparr>p_xadd = (\<lambda>stream fields maxlen n. (Inr (), Suc n)), p_uuid4 = (\<lambda>n. (Inr ''u1'', n)),
     p_utcnow = (\<lambda>n. (Inr demo_time, n))\<rparr>"

definition demo_request :: "nat request" where
  "demo_request = \<lparr>request_env = 0, trace_id_var = None, user_id_var = None, identity_var = None, published = []\<rparr>"

definition demo_event :: audit_event where
  "demo_event = example_event\<lparr>timestamp := demo_time, event_context := PDict [(''run'', PStr ''r1'')]\<rparr>"

definition demo_payload :: pydict where
  "demo_payload = (case model_dump_json demo_dumper demo_event of Inl e \<Rightarrow> [] | Inr p \<Rightarrow> p)"

lemma demo_pydantic_ok: "pydantic_ok demo_pydantic"
  by (simp add: pydantic_ok_def demo_pydantic_def strict_pydantic_def)

lemma sign_ascii:
  assumes "sv \<noteq> []" and "is_ascii sv" and "is_ascii d" and "is_ascii secret"
  shows "\<exists>sg. sign_audit_event sv (Some d) secret = Inr sg"
proof -
  have "is_ascii (signing_domain_label @ '':'' @ secret)" "is_ascii (SUPPORTED_VERSION @ nl @ sv @ nl @ d)"
    using assms by (auto simp: is_ascii_def signing_domain_label_def SUPPORTED_VERSION_def code_def)
  then show ?thesis
    using assms(1) by (simp add: sign_audit_event_def signing_key_def signing_message_def encode_def ascii_no_surrogate)
qed

lemma demo_dump: "model_dump_json demo_dumper demo_event = Inr demo_payload" "dict_get demo_payload ''service'' = PStr ''tes''"
  by (simp_all add: demo_payload_def model_dump_json_def demo_dumper_def demo_event_def example_event_def dict_get_def)

lemma hex_digit_ascii: "n < 16 \<Longrightarrow> code (hex_digit n) < 128"
  by (simp add: hex_digit_def)

lemma escape_cp_ascii: "is_ascii (escape_cp n)"
proof -
  have c: "code bslash < 128" "code dquote < 128" "code (CHR ''u'') < 128" "code (CHR ''n'') < 128"
    "code (CHR ''r'') < 128" "code (CHR ''t'') < 128" "code (CHR ''f'') < 128" "code (CHR ''b'') < 128"
    by (simp_all add: bslash_def dquote_def code_def)
  have h: "is_ascii (hex4 k)" for k by (simp add: hex4_def hex_digit_ascii)
  show ?thesis unfolding escape_cp_def by (simp only: is_ascii_simps c h code_char_of if_split) simp
qed

lemma json_str_ascii: "is_ascii (json_str s)"
proof -
  have "is_ascii (concat (map escape_cp ns))" for ns by (induction ns) (simp_all add: escape_cp_ascii)
  then show ?thesis by (simp add: json_str_def dquote_def code_def)
qed

lemma demo_json: "json_ok (PDict demo_payload)"
  by (simp add: demo_payload_def model_dump_json_def demo_dumper_def demo_event_def example_event_def of_opt_def
      utf8_ok_ascii isoformat_ascii demo_time_def code_def)

lemma demo_data: "json_dumps plain_opts (PDict demo_payload) = Inr t \<Longrightarrow> is_ascii t"
  by (auto simp: demo_payload_def model_dump_json_def demo_dumper_def demo_event_def example_event_def of_opt_def
      plain_opts_def json_str_ascii code_def)

lemma demo_fields: "\<exists>fs. event_stream_fields demo_dumper example_config demo_event = Inr fs"
proof -
  obtain t where t: "json_dumps plain_opts (PDict demo_payload) = Inr t" using json_dumps_ok [OF demo_json] by blast
  moreover have "is_ascii t" by (rule demo_data [OF t])
  moreover have "is_ascii (EVENT_SIGNING_SECRET example_config)" by code_simp
  moreover have "is_ascii ''tes''" by code_simp
  ultimately obtain sg where "sign_audit_event ''tes'' (Some t) (EVENT_SIGNING_SECRET example_config) = Inr sg"
    using sign_ascii [of "''tes''"] by blast
  with t show ?thesis by (simp add: event_stream_fields_def demo_dump)
qed

lemma demo_event_accepted:
  "audit_event_init demo_pydantic ''u'' demo_time [(''event_id'', PStr ''e1''), (''service'', PStr ''tes''),
     (''event_type'', PStr ''submit''), (''user_id'', PStr ''u1''), (''organization_id'', PStr ''589''),
     (''action'', PStr ''run''), (''decision'', PStr ''allow''),
     (''context'', PDict [(''run'', PStr ''r1'')])] = Inr demo_event"
  by (simp add: audit_event_init_def get_default_def get_required_def get_optional_def demo_pydantic_def
      strict_pydantic_def validate_tenant_scope_def demo_event_def example_event_def)

theorem published_event_arrives_witness:
  "\<exists>fs s'. logger_log demo_ops demo_dumper example_config demo_event demo_request = (Inr (), s') \<and>
     published s' = [(''audit:events'', fs)] \<and>
     parse_audit_event demo_pydantic ''u'' demo_time (map_of fs ''data'') = Inr demo_event \<and>
     classify_event_integrity ''tes'' (map_of fs ''sig'') (map_of fs ''data'') ''jwt-secret'' = ''valid''"
proof -
  obtain fs where fs: "event_stream_fields demo_dumper example_config demo_event = Inr fs" using demo_fields by blast
  obtain r s' where l: "logger_log demo_ops demo_dumper example_config demo_event demo_request = (r, s')"
    by (rule prod.exhaust)
  have "dump_restores demo_pydantic demo_dumper demo_event"
    by (simp add: dump_restores_def demo_pydantic_def demo_dumper_def demo_event_def)
  from published_event_arrives [OF demo_pydantic_ok demo_event_accepted this demo_dump(1) demo_json l] fs l
  show ?thesis
    by (auto simp: demo_ops_def demo_request_def example_config_def demo_event_def example_event_def)
qed

theorem audited_request_identity_witness:
  "let p = [(''sub'', PStr ''7''), (''org_id'', PInt 589)]; J = example_jwt p
   in \<exists>s1 ev s'. inject_context demo_ops J (Some ''someone'') (Some ''s3cret'') demo_request = (Inr ''u1'', s1) \<and>
     audit demo_ops demo_pydantic demo_dumper example_config ''submit'' ''run'' (io_return True) s1 = (Inr True, s') \<and>
     trace_id ev = Some ''u1'' \<and> user_id ev = Some ''7'' \<and> organization_id ev = Some (py_str (PInt 589)) \<and>
     (published s' = [] \<or>
       (\<exists>fs. event_stream_fields demo_dumper example_config ev = Inr fs \<and> published s' = [(''audit:events'', fs)]))"
proof -
  define p where "p = [(''sub'', PStr ''7''), (''org_id'', PInt 589)]"
  have v: "verify_token (example_jwt p) (Some ''s3cret'') = Inr p"
    by (simp add: verify_token_def decode_token_def decode_with_def validate_platform_claims_def example_jwt_def p_def dict_get_def)
  have "\<exists>s1. inject_context demo_ops (example_jwt p) (Some ''someone'') (Some ''s3cret'') demo_request = (Inr ''u1'', s1) \<and>
      published s1 = []"
    by (simp add: inject_context_def io_bind_def rq_call_def validate_identity_token_def v demo_ops_def demo_request_def)
  then obtain s1 where i: "inject_context demo_ops (example_jwt p) (Some ''someone'') (Some ''s3cret'') demo_request = (Inr ''u1'', s1)"
    and pb: "published s1 = []" by blast
  have u: "\<forall>e. \<exists>x e'. p_uuid4 demo_ops e = (Inr x, e')" "\<forall>e. \<exists>x e'. p_utcnow demo_ops e = (Inr x, e')"
    by (simp_all add: demo_ops_def)
  have g: "py_str (dict_get p ''sub'') = ''7''" "dict_get p ''org_id'' = PInt 589" by (simp_all add: p_def dict_get_def)
  from audited_request_identity [OF demo_pydantic_ok u i, of "io_return True" True s1 demo_dumper example_config "''submit''" "''run''"]
  obtain ev s' where "audit demo_ops demo_pydantic demo_dumper example_config ''submit'' ''run'' (io_return True) s1 = (Inr True, s')"
    "published s' = published s1 \<or>
      (\<exists>fs. event_stream_fields demo_dumper example_config ev = Inr fs \<and> published s' = published s1 @ [(STREAM_NAME example_config, fs)])"
    "trace_id ev = Some ''u1''" "user_id ev = Some ''7''" "organization_id ev = Some (py_str (PInt 589))"
    by (auto simp: v g simp del: py_str.simps)
  moreover have "STREAM_NAME example_config = ''audit:events''" by (simp add: example_config_def)
  ultimately show ?thesis using i pb unfolding Let_def p_def [symmetric] by auto
qed

end
