(* ===== verification/Delivery.thy ===== *)
theory Delivery
  imports Producer Worker_Progress
begin

text \<open>
  The producer and the worker together: what becomes of an event that was logged.
\<close>

section \<open>The row of a handled entry\<close>

text \<open>
  The stored row says what the event says, with its time in UTC rounded to the second; its
  status is the given one and its hash verifies.
\<close>

definition faithful_row :: "config \<Rightarrow> audit_event \<Rightarrow> string \<Rightarrow> audit_row \<Rightarrow> bool" where
  "faithful_row cfg ev status r \<longleftrightarrow>
     timestamp r = DateTime (mysql_round (wall (timestamp ev) - (case tz (timestamp ev) of None \<Rightarrow> 0 | Some off \<Rightarrow> off))) None \<and>
     event_id r = event_id ev \<and> service r = service ev \<and> event_type r = event_type ev \<and> user_id r = user_id ev \<and>
     organization_id r = organization_id ev \<and> tenant_scope r = tenant_scope ev \<and> action r = action ev \<and>
     resource r = resource ev \<and> decision r = decision ev \<and> reason r = reason ev \<and> trace_id r = trace_id ev \<and>
     context_read_as (event_context ev) (event_context r) \<and> integrity_status r = status \<and>
     (case require_record_integrity_key cfg of
        Inl e \<Rightarrow> False
      | Inr (key, kid) \<Rightarrow> integrity_key_id r = Some kid \<and> verify_audit_event_hash (event_fields r) key (Some kid) = Inr True)"

lemma stored_row_faithful:
  assumes "sink_row cfg ev status = Inr row" and "stored_as row r"
    and "in_range (wall (timestamp ev))" and "event_context ev = PDict d"
  shows "faithful_row cfg ev status r"
proof -
  from assms(1) obtain key kid ts h where k: "require_record_integrity_key cfg = Inr (key, kid)"
    and ts: "utc_naive (timestamp ev) = Inr ts"
    and t: "audit_event.truncate row = ev\<lparr>timestamp := ts\<rparr>" and s: "integrity_status row = status"
    "integrity_key_id row = Some kid"
    by (rule sink_row_Inr)
  have "verify_audit_event_hash (event_fields r) key (Some kid) = Inr True"
    by (rule sink_row_verifies [OF assms(1) k assms(3,4,2)])
  moreover from t have "event_context row = PDict d" "timestamp row = ts" using assms(4) truncate_fields by fastforce+
  moreover have "wall ts = wall (timestamp ev) - (case tz (timestamp ev) of None \<Rightarrow> 0 | Some off \<Rightarrow> off)"
    using ts by (auto simp: utc_naive_def mk_datetime_def split: option.splits if_splits)
  ultimately show ?thesis
    using assms(2,4) k t s by (cases ev) (auto simp: stored_as_def faithful_row_def audit_event.defs)
qed

lemma handled_row:
  assumes "services_ok X" and "store_ok X V"
    and "\<And>u n. parse_audit_event P u n (map_of fs ''data'') = Inr ev"
    and "status = classify_event_integrity (service ev) (map_of fs ''sig'') (map_of fs ''data'') (EVENT_SIGNING_SECRET cfg)"
    and "sink_row cfg ev status = Inr row" and "in_range (wall (timestamp ev))" and "event_context ev = PDict d"
  shows "\<exists>w' dup r. handle_message X P cfg i fs w = (Inr True, w') \<and>
    history w' = history w @ [Handling i fs, EventCommit row dup, Ack i] \<and>
    event_of V (env w') (event_id ev) = Some r \<and> (\<not> dup \<longrightarrow> faithful_row cfg ev status r) \<and>
    (dup \<longrightarrow> (\<exists>w1 e0. parse_entry X P fs (w\<lparr>history := history w @ [Handling i fs]\<rparr>) = (Inr (Some ev), w1) \<and>
       op_open_session X (env w1) = (Inr (), e0) \<and> event_of V e0 (event_id ev) \<noteq> None))"
proof -
  let ?w = "w\<lparr>history := history w @ [Handling i fs]\<rparr>"
  have "storable X P cfg fs" unfolding storable_def using assms(3-5) by auto
  then obtain ev' row' w1 where p: "parse_entry X P fs ?w = (Inr (Some ev'), w1)" "history w1 = history ?w"
      "\<exists>u n. parse_audit_event P u n (map_of fs ''data'') = Inr ev'"
    using parse_entry_ok [OF assms(1)] by metis
  have ev': "ev' = ev" using p(3) assms(3) by auto
  have id: "event_id row = event_id ev" by (rule sink_row_Inr [OF assms(5)], use truncate_fields in fastforce)
  have "\<exists>v'. sink_write X cfg ev status v = (Inr True, v')" for v using sink_write_ok [OF assms(1,5)] by blast
  from with_session_ok [where m = "sink_write X cfg ev status" and w = w1, OF assms(1) this] obtain e0 w2 v where
    opn: "op_open_session X (env w1) = (Inr (), e0)" and s: "sink_write X cfg ev status (w1\<lparr>env := e0\<rparr>) = (Inr True, w2)"
    and close: "op_close_session X (env w2) = (Inr (), v)"
    and ws: "with_session X (sink_write X cfg ev status) w1 = (Inr True, w2\<lparr>env := v\<rparr>)" by blast
  obtain dup where s2: "history w2 = history w1 @ [EventCommit row dup]"
    using sink_write_ok [OF assms(1,5), of "w1\<lparr>env := e0\<rparr>"] s by auto
  have st: "\<exists>r. event_of V (env w2) (event_id ev) = Some r \<and> (\<not> dup \<longrightarrow> faithful_row cfg ev status r) \<and>
      (dup \<longrightarrow> event_of V e0 (event_id ev) \<noteq> None)"
    using s
  proof (cases rule: sink_write_cases)
    case (inserted row' e')
    have "commits_ok X V" using assms(2) by (simp add: store_ok_def)
    with inserted(2) obtain r where r: "event_of V e' (event_id row') = Some r" "stored_as row' r"
      unfolding commits_ok_def by blast
    have "row' = row" using inserted(1) assms(5) by simp
    with r stored_row_faithful [OF assms(5) _ assms(6,7)] inserted(4) id s2 show ?thesis by auto
  next
    case (duplicate row' x e1 e')
    with s2 have "dup" by simp
    have "row' = row" using duplicate(1) assms(5) by simp
    with duplicate(2) have "op_commit_event X row e0 = (Inl x, e1)" by simp
    with duplicate(3) assms(2) have "event_of V e0 (event_id row) \<noteq> None"
      unfolding store_ok_def commits_ok_def by blast
    with \<open>dup\<close> id show ?thesis using sink_write_present [OF assms(2) s] assms(5) id by (auto simp: event_present_def)
  qed auto
  then obtain r where r: "event_of V (env w2) (event_id ev) = Some r" "\<not> dup \<longrightarrow> faithful_row cfg ev status r"
    "dup \<longrightarrow> event_of V e0 (event_id ev) \<noteq> None" by blast
  obtain w3 where a: "ack X cfg i (w2\<lparr>env := v\<rparr>) = (Inr (), w3)" "history w3 = history (w2\<lparr>env := v\<rparr>) @ [Ack i]"
    using ack_ok [OF assms(1)] by blast
  have ao: "append_only X V" using assms(2) by (simp add: store_ok_def)
  have "io_call (op_close_session X) w2 = (Inr (), w2\<lparr>env := v\<rparr>)" by (simp add: io_call_def close)
  from rows_kept_events [OF keepsD [OF append_only_keeps(11) [OF ao] this] r(1)]
  have r': "event_of V (env (w2\<lparr>env := v\<rparr>)) (event_id ev) = Some r" .
  have "keeps (rows_kept V) (ack X cfg i)"
    unfolding ack_def by (intro rk.keeps_rules append_only_keeps keeps_log_rows ao)
  from rows_kept_events [OF keepsD [OF this a(1)] r'] have "event_of V (env w3) (event_id ev) = Some r" .
  moreover have "handle_message X P cfg i fs w = (Inr True, w3)"
    by (simp add: handle_message_def io_bind_def p(1) ws [unfolded assms(4)] a(1) Let_def ev')
  moreover have "history w3 = history w @ [Handling i fs, EventCommit row dup, Ack i]" using p(2) s2 a(2) by simp
  ultimately show ?thesis using r(2,3) p(1) opn unfolding ev' by blast
qed

lemma worker_keeps_rows:
  assumes "store_ok X V" and "worker_main X P osenv cfg n w = (x, w')"
  shows "rows_kept V w w'"
proof -
  have "keeps (durable_step V) (worker_main X P osenv cfg n)"
    unfolding worker_main_def by (intro ds.keeps_rules keeps_run_durable(2) assms(1))
  from keepsD [OF this assms(2)] show ?thesis by (simp add: durable_step_def)
qed

section \<open>From the producer to the table\<close>

lemma logged_stored:
  assumes "pydantic_ok P" and "audit_event_init P u0 n0 args = Inr ev" and "dump_restores P D ev"
    and "model_dump_json D ev = Inr payload" and "json_ok (PDict payload)"
    and "logger_log Q D pcfg ev s = (r0, s')" and "published s' = published s @ [(strm, fs)]"
    and "EVENT_SIGNING_SECRET pcfg = EVENT_SIGNING_SECRET cfg" and "service ev \<noteq> []"
    and "services_ok X" and "store_ok X V" and "is_ok (sink_row cfg ev ''valid'')" and "in_range (wall (timestamp ev))"
  shows "strm = STREAM_NAME pcfg \<and>
    (\<exists>w' row dup r. handle_message X P cfg i fs w = (Inr True, w') \<and>
       history w' = history w @ [Handling i fs, EventCommit row dup, Ack i] \<and>
       event_of V (env w') (event_id ev) = Some r \<and> (\<not> dup \<longrightarrow> faithful_row cfg ev ''valid'' r) \<and>
       (\<forall>osenv n x w''. worker_main X P osenv cfg n w' = (x, w'') \<longrightarrow> event_of V (env w'') (event_id ev) = Some r) \<and>
       (dup \<longrightarrow> (\<exists>w1 e0. parse_entry X P fs (w\<lparr>history := history w @ [Handling i fs]\<rparr>) = (Inr (Some ev), w1) \<and>
          op_open_session X (env w1) = (Inr (), e0) \<and> event_of V e0 (event_id ev) \<noteq> None)))"
proof -
  have f: "event_stream_fields D pcfg ev = Inr fs" "strm = STREAM_NAME pcfg"
    using assms(6,7) by (auto simp: logger_log_published split: sum.splits prod.splits)
  note parsed = stream_fields_parse [OF assms(1-5) f(1)]
  obtain row where row: "sink_row cfg ev ''valid'' = Inr row" using assms(12) by (auto simp: is_ok_iff)
  obtain d where d: "event_context ev = PDict d" using accepted_event_fixed(3) [OF assms(2)] by blast
  have st: "''valid'' = classify_event_integrity (service ev) (map_of fs ''sig'') (map_of fs ''data'') (EVENT_SIGNING_SECRET cfg)"
    using parsed(2) assms(8,9) by simp
  obtain w' dup r where h: "handle_message X P cfg i fs w = (Inr True, w')"
    "history w' = history w @ [Handling i fs, EventCommit row dup, Ack i]"
    "event_of V (env w') (event_id ev) = Some r" "\<not> dup \<longrightarrow> faithful_row cfg ev ''valid'' r"
    "dup \<longrightarrow> (\<exists>w1 e0. parse_entry X P fs (w\<lparr>history := history w @ [Handling i fs]\<rparr>) = (Inr (Some ev), w1) \<and>
       op_open_session X (env w1) = (Inr (), e0) \<and> event_of V e0 (event_id ev) \<noteq> None)"
    using handled_row [OF assms(10,11) parsed(1) st row assms(13) d, of i w] by blast
  have "event_of V (env w'') (event_id ev) = Some r" if "worker_main X P osenv cfg n w' = (x, w'')" for osenv n x w''
    by (rule rows_kept_events [OF worker_keeps_rows [OF assms(11) that] h(3)])
  with h f(2) show ?thesis by blast
qed

text \<open>
  C7: an event that was logged ends up in the table as it was logged, unless its ID was
  taken.  A producer builds an event with a service name and logs it, and the call adds
  one entry to the stream.  A worker with the same signing secret, whose services
  answer, then accepts the entry: it acknowledges it after the commit, and
  \<open>audit_events\<close> has a row under the event's ID, which no later run of the worker
  changes.  If the commit was not a duplicate, the row has every field of the event, its
  time in UTC to the second, is marked as validly signed, and passes the integrity
  verification; and the commit is a duplicate only if the ID was already in the table
  when the worker, having read this event from the entry, opened its session.
\<close>

theorem logged_event_is_stored:
  assumes "pydantic_ok P" and "audit_event_init P u0 n0 args = Inr ev" and "dump_restores P D ev"
    and "model_dump_json D ev = Inr payload" and "json_ok (PDict payload)"
    and "logger_log Q D pcfg ev s = (r0, s')" and "published s' = published s @ [(strm, fs)]"
    and "EVENT_SIGNING_SECRET pcfg = EVENT_SIGNING_SECRET cfg" and "service ev \<noteq> []"
    and "services_ok X" and "store_ok X V" and "is_ok (sink_row cfg ev ''valid'')" and "in_range (wall (timestamp ev))"
  shows "strm = STREAM_NAME pcfg \<and>
    (\<exists>w' row dup r. handle_message X P cfg i fs w = (Inr True, w') \<and>
       history w' = history w @ [Handling i fs, EventCommit row dup, Ack i] \<and>
       event_of V (env w') (event_id ev) = Some r \<and> (\<not> dup \<longrightarrow> faithful_row cfg ev ''valid'' r) \<and>
       (\<forall>osenv n x w''. worker_main X P osenv cfg n w' = (x, w'') \<longrightarrow> event_of V (env w'') (event_id ev) = Some r) \<and>
       (dup \<longrightarrow> (\<exists>w1 e0. parse_entry X P fs (w\<lparr>history := history w @ [Handling i fs]\<rparr>) = (Inr (Some ev), w1) \<and>
          op_open_session X (env w1) = (Inr (), e0) \<and> event_of V e0 (event_id ev) \<noteq> None)))"
  by (rule logged_stored [OF assms])

section \<open>An example delivery\<close>

lemma demo_sink_row: "is_ok (sink_row example_config demo_event ''valid'')"
proof -
  let ?ts = "timestamp demo_event"
  have u: "utc_naive ?ts = Inr ?ts"
    by (simp add: demo_event_def demo_time_def utc_naive_def)
  let ?r = "\<lparr>event_id = event_id demo_event, timestamp = ?ts, service = service demo_event,
       event_type = event_type demo_event, user_id = user_id demo_event,
       organization_id = organization_id demo_event, tenant_scope = tenant_scope demo_event,
       action = action demo_event, resource = resource demo_event,
       decision = decision demo_event, reason = reason demo_event, trace_id = trace_id demo_event,
       event_context = event_context demo_event, integrity_status = ''valid'',
       record_integrity_hash = None, integrity_key_id = None, created_at = None\<rparr>"
  have "\<exists>t. canonical_json (event_context demo_event) = Inr t \<and> is_ascii t"
    by (simp add: canonical_json_def demo_event_def canonical_opts_def json_str_ascii code_def)
  then obtain c where c: "canonical_json (event_context ?r) = Inr c" "is_ascii c" by auto
  have "in_range (wall (timestamp ?r))" "\<exists>t. canonical_timestamp False (timestamp ?r) = Inr t"
    by (auto simp: canonical_timestamp_Inr demo_event_def demo_time_def utc_naive_def in_range_def max_wall_def
        usec_day_def mysql_round_def usec_def)
  moreover have "ascii_texts ?r" "event_context ?r \<noteq> PNone"
    by (simp_all add: ascii_texts_def demo_event_def example_event_def code_def)
  moreover have "is_ascii ''key-1''" by (simp add: code_def)
  ultimately have "\<exists>h. compute_audit_event_hash (event_fields ?r) ''0123456789abcdef0123456789abcdef'' (Some ''key-1'') = Inr h"
    using example_key c by (metis compute_event_hash_ok)
  then show ?thesis by (auto simp: sink_row_def example_config_key u [simplified] Let_def is_ok_iff)
qed

text \<open>The example event is logged, and what the producer's entry asks for holds.\<close>

lemma demo_logged:
  obtains fs s' where "logger_log demo_ops demo_dumper example_config demo_event demo_request = (Inr (), s')"
    "published s' = published demo_request @ [(''audit:events'', fs)]"
proof -
  obtain fs where fs: "event_stream_fields demo_dumper example_config demo_event = Inr fs" using demo_fields by blast
  obtain r0 s' where "logger_log demo_ops demo_dumper example_config demo_event demo_request = (r0, s')" by (rule prod.exhaust)
  with fs show thesis
    by (intro that [of s' fs]) (auto simp: logger_log_published demo_ops_def demo_request_def example_config_def)
qed

lemma demo_event_conditions:
  "dump_restores demo_pydantic demo_dumper demo_event" "service demo_event \<noteq> []" "in_range (wall (timestamp demo_event))"
  by (simp_all add: dump_restores_def demo_pydantic_def demo_dumper_def demo_event_def example_event_def demo_time_def
      in_range_def max_wall_def usec_day_def usec_def)

interpretation ev: world_relation "\<lambda>w w'. mem_events (env w') = mem_events (env w)"
  by unfold_locales auto

theorem logged_event_is_stored_witness:
  "\<exists>fs s' w' row r. logger_log demo_ops demo_dumper example_config demo_event demo_request = (Inr (), s') \<and>
     published s' = [(''audit:events'', fs)] \<and>
     handle_message mem_ops demo_pydantic example_config ''1-0'' fs (world_init (mem_init [(''1-0'', fs)])) = (Inr True, w') \<and>
     history w' = [Handling ''1-0'' fs, EventCommit row False, Ack ''1-0''] \<and>
     event_of mem_view (env w') ''e1'' = Some r \<and> faithful_row example_config demo_event ''valid'' r"
proof -
  obtain fs s' where l: "logger_log demo_ops demo_dumper example_config demo_event demo_request = (Inr (), s')"
    "published s' = published demo_request @ [(''audit:events'', fs)]" by (rule demo_logged)
  have e: "event_id demo_event = ''e1''" by (simp add: demo_event_def example_event_def)
  let ?w = "world_init (mem_init [(''1-0'', fs)])"
  have h: "history ?w = []" by (simp add: world_init_def)
  have q: "published demo_request = []" by (simp add: demo_request_def)
  from logged_event_is_stored [OF demo_pydantic_ok demo_event_accepted demo_event_conditions(1) demo_dump(1) demo_json l HOL.refl
      demo_event_conditions(2) mem_services_ok mem_store_ok demo_sink_row demo_event_conditions(3),
      of "''1-0''" "world_init (mem_init [(''1-0'', fs)])"]
  obtain w' row dup r where x: "handle_message mem_ops demo_pydantic example_config ''1-0'' fs ?w = (Inr True, w')"
    "history w' = [Handling ''1-0'' fs, EventCommit row dup, Ack ''1-0'']" "event_of mem_view (env w') ''e1'' = Some r"
    "\<not> dup \<longrightarrow> faithful_row example_config demo_event ''valid'' r"
    and d: "dup \<longrightarrow> (\<exists>w1 e0. parse_entry mem_ops demo_pydantic fs (?w\<lparr>history := [] @ [Handling ''1-0'' fs]\<rparr>) =
        (Inr (Some demo_event), w1) \<and> op_open_session mem_ops (env w1) = (Inr (), e0) \<and> event_of mem_view e0 ''e1'' \<noteq> None)"
    unfolding h e append_Nil by blast
  have "\<not> dup"
  proof
    assume dup
    with d obtain w1 e0 where w1: "parse_entry mem_ops demo_pydantic fs (?w\<lparr>history := [] @ [Handling ''1-0'' fs]\<rparr>) =
        (Inr (Some demo_event), w1)" "op_open_session mem_ops (env w1) = (Inr (), e0)" "event_of mem_view e0 ''e1'' \<noteq> None"
      by blast
    have "keeps (\<lambda>w w'. mem_events (env w') = mem_events (env w)) (parse_entry mem_ops demo_pydantic fs)"
      unfolding parse_entry_def by (intro ev.keeps_rules) (simp_all add: keeps_def io_call_def mem_ops_def)
    from keepsD [OF this w1(1)] have "mem_events (env w1) = []" by (simp add: world_init_def mem_init_def)
    with w1(2,3) show False by (simp add: mem_sessions mem_view_def)
  qed
  with x have "history w' = [Handling ''1-0'' fs, EventCommit row False, Ack ''1-0'']"
    "faithful_row example_config demo_event ''valid'' r" by simp_all
  with x(1,3) l show ?thesis unfolding q append_Nil by blast
qed

end
