(* ===== verification/Schema.thy ===== *)
theory Schema
  imports Stateful Py_Value
begin

text \<open>
  The operations of Alembic and of the database that the migrations use.  They are a
  parameter of the migrations; the locale \<open>ddl_backend\<close> states what is documented of
  them, as a simulation of an explicit database of tables, rows, indexes and
  triggers: an operation that returns has its effect on the explicit database, one
  that raises has none.  Here are the explicit database, its well-formedness, and
  which operations undo which.
\<close>

section \<open>Columns, tables, triggers\<close>

datatype sql_type = VarChar nat | DateTimeType | TextType | JsonType | IntegerType

datatype sql_default = DefaultText string | DefaultNow

record column =
  column_name :: string
  column_type :: sql_type
  is_primary_key :: bool
  is_nullable :: bool
  server_default :: "sql_default option"

text \<open>A row is the values of the columns, in their order.\<close>

record db_table =
  table_columns :: "column list"
  table_rows :: "pydict list"

datatype trigger_event = BeforeUpdate | BeforeDelete

text \<open>
  The two bodies that occur: a denial, and the check of the deleting user and of the
  legal holds of a table, with the two messages.
\<close>

datatype trigger_body =
    Signal string
  | GuardDelete (guard_user: string) (guard_denial: string) (guard_table: string) (guard_held: string)

datatype trigger =
  Trigger (trigger_name: string) (trigger_event: trigger_event) (trigger_table: string) (trigger_body: trigger_body)

record database =
  dialect_name :: string
  db_tables :: "(string \<times> db_table) list"
  db_indexes :: "(string \<times> string \<times> string list) list"
  db_triggers :: "trigger list"

section \<open>The operations as a parameter\<close>

record 's migration_ops =
  op_create_table :: "string \<Rightarrow> column list \<Rightarrow> ('s, unit) st"
  op_drop_table :: "string \<Rightarrow> ('s, unit) st"
  op_add_column :: "string \<Rightarrow> column \<Rightarrow> ('s, unit) st"
  op_drop_column :: "string \<Rightarrow> string \<Rightarrow> ('s, unit) st"
  op_create_index :: "string \<Rightarrow> string \<Rightarrow> string list \<Rightarrow> ('s, unit) st"
  op_drop_index :: "string \<Rightarrow> string \<Rightarrow> ('s, unit) st"
  op_create_trigger :: "trigger \<Rightarrow> ('s, unit) st"
  op_drop_trigger_if_exists :: "string \<Rightarrow> ('s, unit) st"
  op_dialect :: "('s, string) st"
  op_any_not_null :: "string \<Rightarrow> string \<Rightarrow> ('s, bool) st"

section \<open>The explicit database\<close>

definition operational_error :: "string \<Rightarrow> 'a res" where
  "operational_error m = raise (SQLAlchemyError ''OperationalError'') m"

text \<open>An effect that can fail, as a computation: a failure leaves the database alone.\<close>

definition apply_effect :: "('d \<Rightarrow> 'd res) \<Rightarrow> ('d, unit) st" where
  "apply_effect f d = (case f d of Inl e \<Rightarrow> (Inl e, d) | Inr d' \<Rightarrow> (Inr (), d'))"

definition has_table :: "string \<Rightarrow> database \<Rightarrow> bool" where
  "has_table t d \<longleftrightarrow> t \<in> fst ` set (db_tables d)"

definition columns_of :: "string \<Rightarrow> database \<Rightarrow> string list" where
  "columns_of t d = (case map_of (db_tables d) t of None \<Rightarrow> [] | Some tab \<Rightarrow> map column_name (table_columns tab))"

definition update_table :: "string \<Rightarrow> (db_table \<Rightarrow> db_table) \<Rightarrow> database \<Rightarrow> database" where
  "update_table t f d = d\<lparr>db_tables := map (\<lambda>(n, tab). (n, if n = t then f tab else tab)) (db_tables d)\<rparr>"

definition create_table :: "string \<Rightarrow> column list \<Rightarrow> database \<Rightarrow> database res" where
  "create_table t cs d =
     (if has_table t d then operational_error ''Table already exists''
      else if \<not> distinct (map column_name cs) then operational_error ''Duplicate column name''
      else Inr (d\<lparr>db_tables := db_tables d @ [(t, \<lparr>table_columns = cs, table_rows = []\<rparr>)]\<rparr>))"

text \<open>Dropping a table drops its indexes and triggers.\<close>

definition drop_table :: "string \<Rightarrow> database \<Rightarrow> database res" where
  "drop_table t d =
     (if \<not> has_table t d then operational_error ''Unknown table''
      else Inr (d\<lparr>db_tables := filter (\<lambda>(n, _). n \<noteq> t) (db_tables d),
                  db_indexes := filter (\<lambda>(_, n, _). n \<noteq> t) (db_indexes d),
                  db_triggers := filter (\<lambda>tr. trigger_table tr \<noteq> t) (db_triggers d)\<rparr>))"

text \<open>
  The value existing rows get in a new column: the default or \<open>NULL\<close>.  None of the
  migrations adds a required column without a default or one whose default is the
  clock; such an operation fails here.
\<close>

definition backfill :: "column \<Rightarrow> pyval option" where
  "backfill c =
     (case server_default c of
        Some (DefaultText s) \<Rightarrow> Some (PStr s)
      | Some DefaultNow \<Rightarrow> None
      | None \<Rightarrow> (if is_nullable c then Some PNone else None))"

definition extend_table :: "column \<Rightarrow> pyval \<Rightarrow> db_table \<Rightarrow> db_table" where
  "extend_table c v tab =
     \<lparr>table_columns = table_columns tab @ [c], table_rows = map (\<lambda>r. r @ [(column_name c, v)]) (table_rows tab)\<rparr>"

definition add_column :: "string \<Rightarrow> column \<Rightarrow> database \<Rightarrow> database res" where
  "add_column t c d =
     (if \<not> has_table t d then operational_error ''Unknown table''
      else if column_name c \<in> set (columns_of t d) then operational_error ''Duplicate column name''
      else case backfill c of
        None \<Rightarrow> operational_error ''No default for existing rows''
      | Some v \<Rightarrow> Inr (update_table t (extend_table c v) d))"

definition restrict_table :: "string \<Rightarrow> db_table \<Rightarrow> db_table" where
  "restrict_table c tab =
     \<lparr>table_columns = filter (\<lambda>k. column_name k \<noteq> c) (table_columns tab),
      table_rows = map (filter (\<lambda>(k, _). k \<noteq> c)) (table_rows tab)\<rparr>"

text \<open>Dropping a column removes it from the indexes of the table.\<close>

definition drop_column :: "string \<Rightarrow> string \<Rightarrow> database \<Rightarrow> database res" where
  "drop_column t c d =
     (if c \<notin> set (columns_of t d) then operational_error ''Can't DROP; check that column exists''
      else Inr (update_table t (restrict_table c)
        (d\<lparr>db_indexes := map (\<lambda>(i, n, cs). (i, n, if n = t then filter (\<lambda>k. k \<noteq> c) cs else cs)) (db_indexes d)\<rparr>)))"

definition create_index :: "string \<Rightarrow> string \<Rightarrow> string list \<Rightarrow> database \<Rightarrow> database res" where
  "create_index i t cs d =
     (if list_ex (\<lambda>(j, n, _). j = i \<and> n = t) (db_indexes d) then operational_error ''Duplicate key name''
      else if \<not> set cs \<subseteq> set (columns_of t d) \<or> \<not> has_table t d then operational_error ''Key column doesn't exist in table''
      else Inr (d\<lparr>db_indexes := db_indexes d @ [(i, t, cs)]\<rparr>))"

definition drop_index :: "string \<Rightarrow> string \<Rightarrow> database \<Rightarrow> database res" where
  "drop_index i t d =
     (if list_ex (\<lambda>(j, n, _). j = i \<and> n = t) (db_indexes d)
      then Inr (d\<lparr>db_indexes := filter (\<lambda>(j, n, _). \<not> (j = i \<and> n = t)) (db_indexes d)\<rparr>)
      else operational_error ''Can't DROP; check that key exists'')"

definition create_trigger :: "trigger \<Rightarrow> database \<Rightarrow> database res" where
  "create_trigger tr d =
     (if trigger_name tr \<in> trigger_name ` set (db_triggers d) then operational_error ''Trigger already exists''
      else if \<not> has_table (trigger_table tr) d then operational_error ''Table doesn't exist''
      else Inr (d\<lparr>db_triggers := db_triggers d @ [tr]\<rparr>))"

definition drop_trigger_if_exists :: "string \<Rightarrow> database \<Rightarrow> database res" where
  "drop_trigger_if_exists i d = Inr (d\<lparr>db_triggers := filter (\<lambda>tr. trigger_name tr \<noteq> i) (db_triggers d)\<rparr>)"

text \<open>\<open>SELECT 1 FROM t WHERE c IS NOT NULL LIMIT 1\<close>.\<close>

definition any_not_null :: "string \<Rightarrow> string \<Rightarrow> database \<Rightarrow> bool res" where
  "any_not_null t c d =
     (if c \<notin> set (columns_of t d) then operational_error ''Unknown column''
      else case map_of (db_tables d) t of
        None \<Rightarrow> Inr False
      | Some tab \<Rightarrow> Inr (list_ex (\<lambda>r. dict_get r c \<noteq> PNone) (table_rows tab)))"

definition database_ops :: "database migration_ops" where
  "database_ops =
     \<lparr>op_create_table = (\<lambda>t cs. apply_effect (create_table t cs)),
      op_drop_table = (\<lambda>t. apply_effect (drop_table t)),
      op_add_column = (\<lambda>t c. apply_effect (add_column t c)),
      op_drop_column = (\<lambda>t c. apply_effect (drop_column t c)),
      op_create_index = (\<lambda>i t cs. apply_effect (create_index i t cs)),
      op_drop_index = (\<lambda>i t. apply_effect (drop_index i t)),
      op_create_trigger = (\<lambda>tr. apply_effect (create_trigger tr)),
      op_drop_trigger_if_exists = (\<lambda>i. apply_effect (drop_trigger_if_exists i)),
      op_dialect = (\<lambda>d. (Inr (dialect_name d), d)),
      op_any_not_null = (\<lambda>t c d. (any_not_null t c d, d))\<rparr>"

section \<open>Backends\<close>

text \<open>
  A computation on a backend simulates one on the explicit database: what returns
  there returns here, with the same value and the corresponding state.
\<close>

definition simulates :: "('s \<Rightarrow> 'd) \<Rightarrow> ('s, 'a) st \<Rightarrow> ('d, 'a) st \<Rightarrow> bool" where
  "simulates V m m' \<longleftrightarrow> (\<forall>s x s'. m s = (Inr x, s') \<longrightarrow> m' (V s) = (Inr x, V s'))"

text \<open>An operation moreover leaves the database alone when it raises.\<close>

definition implements :: "('s \<Rightarrow> 'd) \<Rightarrow> ('s, 'a) st \<Rightarrow> ('d, 'a) st \<Rightarrow> bool" where
  "implements V m m' \<longleftrightarrow> simulates V m m' \<and> (\<forall>s e s'. m s = (Inl e, s') \<longrightarrow> V s' = V s)"

locale ddl_backend =
  fixes B :: "'s migration_ops" and V :: "'s \<Rightarrow> database"
  assumes create_table: "implements V (op_create_table B t cs) (op_create_table database_ops t cs)"
    and drop_table: "implements V (op_drop_table B t) (op_drop_table database_ops t)"
    and add_column: "implements V (op_add_column B t c) (op_add_column database_ops t c)"
    and drop_column: "implements V (op_drop_column B t k) (op_drop_column database_ops t k)"
    and create_index: "implements V (op_create_index B i t ks) (op_create_index database_ops i t ks)"
    and drop_index: "implements V (op_drop_index B i t) (op_drop_index database_ops i t)"
    and create_trigger: "implements V (op_create_trigger B tr) (op_create_trigger database_ops tr)"
    and drop_trigger_if_exists:
      "implements V (op_drop_trigger_if_exists B i) (op_drop_trigger_if_exists database_ops i)"
    and dialect: "implements V (op_dialect B) (op_dialect database_ops)"
    and any_not_null: "implements V (op_any_not_null B t k) (op_any_not_null database_ops t k)"
begin

lemmas operations = create_table drop_table add_column drop_column create_index drop_index create_trigger
  drop_trigger_if_exists dialect any_not_null

lemmas simulated_operations = operations [unfolded implements_def, THEN conjunct1]

end

interpretation explicit: ddl_backend database_ops "\<lambda>d. d"
  by unfold_locales
    (auto simp: implements_def simulates_def database_ops_def apply_effect_def split: sum.splits)

lemma simulates_return: "simulates V (io_return x) (io_return x)"
  by (simp add: simulates_def)

lemma simulates_raise: "simulates V (io_lift (Inl e)) (io_lift (Inl e))"
  by (simp add: simulates_def)

lemma simulates_bind:
  "simulates V m m' \<Longrightarrow> (\<And>x. simulates V (f x) (f' x)) \<Longrightarrow> simulates V (io_bind m f) (io_bind m' f')"
  by (auto simp: simulates_def io_bind_Inr)

lemma simulates_if:
  "simulates V m m' \<Longrightarrow> simulates V n n' \<Longrightarrow> simulates V (if b then m else n) (if b then m' else n')"
  by simp

lemma simulates_each:
  "(\<And>x. x \<in> set xs \<Longrightarrow> simulates V (f x) (f' x)) \<Longrightarrow> simulates V (io_each f xs) (io_each f' xs)"
  by (induction xs) (auto intro!: simulates_return simulates_bind)

lemmas simulates_rules = simulates_return simulates_raise simulates_bind simulates_if simulates_each

lemma implements_keeps:
  assumes "implements V m m'" and "keeps R m'" and "\<And>d. R d d"
  shows "keeps (\<lambda>s s'. R (V s) (V s')) m"
  unfolding keeps_def
proof
  fix s
  obtain r s' where m: "m s = (r, s')" by (rule prod.exhaust)
  show "R (V s) (V (snd (m s)))"
  proof (cases r)
    case (Inl e)
    with m assms(1,3) show ?thesis by (simp add: implements_def)
  next
    case (Inr x)
    with m assms(1) have "m' (V s) = (Inr x, V s')" by (simp add: implements_def simulates_def)
    with assms(2) m show ?thesis using keepsD by fastforce
  qed
qed

section \<open>Well-formed databases\<close>

definition table_wf :: "db_table \<Rightarrow> bool" where
  "table_wf tab \<longleftrightarrow> distinct (map column_name (table_columns tab)) \<and>
     list_all (\<lambda>r. map fst r = map column_name (table_columns tab)) (table_rows tab)"

definition database_wf :: "database \<Rightarrow> bool" where
  "database_wf d \<longleftrightarrow> distinct (map fst (db_tables d)) \<and> list_all (\<lambda>(n, tab). table_wf tab) (db_tables d) \<and>
     list_all (\<lambda>(i, n, cs). has_table n d \<and> set cs \<subseteq> set (columns_of n d)) (db_indexes d) \<and>
     list_all (\<lambda>tr. has_table (trigger_table tr) d) (db_triggers d)"

text \<open>The second computation takes every outcome of the first back.\<close>

definition undoes :: "(database, unit) st \<Rightarrow> (database, unit) st \<Rightarrow> bool" where
  "undoes m m' \<longleftrightarrow>
     (\<forall>d d'. database_wf d \<longrightarrow> m d = (Inr (), d') \<longrightarrow> database_wf d' \<and> m' d' = (Inr (), d))"

lemma undoes_return: "undoes (io_return ()) (io_return ())"
  by (simp add: undoes_def)

lemma undoes_seq:
  assumes "undoes m m'" and "undoes n n'"
  shows "undoes (io_bind m (\<lambda>_. n)) (io_bind n' (\<lambda>_. m'))"
  unfolding undoes_def
proof (intro allI impI)
  fix d d'
  assume d: "database_wf d" "io_bind m (\<lambda>_. n) d = (Inr (), d')"
  then obtain d1 where d1: "m d = (Inr (), d1)" "n d1 = (Inr (), d')" by (auto simp: io_bind_Inr)
  with assms(1) d(1) have "database_wf d1" "m' d1 = (Inr (), d)" by (simp_all add: undoes_def)
  with assms(2) d1(2) show "database_wf d' \<and> io_bind n' (\<lambda>_. m') d' = (Inr (), d)"
    by (simp add: undoes_def io_bind_def)
qed

lemma undoes_effect:
  "undoes (apply_effect f) (apply_effect g) \<longleftrightarrow>
     (\<forall>d d'. database_wf d \<longrightarrow> f d = Inr d' \<longrightarrow> database_wf d' \<and> g d' = Inr d)"
proof -
  have "apply_effect h d = (Inr (), d') \<longleftrightarrow> h d = Inr d'" for h and d d' :: database
    by (simp add: apply_effect_def split: sum.split)
  then show ?thesis by (simp add: undoes_def)
qed

lemma tables_only [simp]:
  "has_table n (d\<lparr>db_indexes := x\<rparr>) = has_table n d" "has_table n (d\<lparr>db_triggers := y\<rparr>) = has_table n d"
  "columns_of n (d\<lparr>db_indexes := x\<rparr>) = columns_of n d" "columns_of n (d\<lparr>db_triggers := y\<rparr>) = columns_of n d"
  by (simp_all add: has_table_def columns_of_def)

lemma has_table_update [simp]: "has_table n (update_table t f d) = has_table n d"
  by (force simp: has_table_def update_table_def)

lemma map_of_update_table:
  "map_of (db_tables (update_table t f d)) n = map_option (\<lambda>tab. if n = t then f tab else tab) (map_of (db_tables d) n)"
proof -
  have "map_of (map (\<lambda>(n, tab). (n, if n = t then f tab else tab)) ts) n =
      map_option (\<lambda>tab. if n = t then f tab else tab) (map_of ts n)" for ts :: "(string \<times> db_table) list"
    by (induction ts) auto
  then show ?thesis by (simp add: update_table_def)
qed

lemma columns_of_update:
  "columns_of n (update_table t f d) =
     (if n = t then (case map_of (db_tables d) t of None \<Rightarrow> [] | Some tab \<Rightarrow> map column_name (table_columns (f tab)))
      else columns_of n d)"
  by (auto simp: columns_of_def map_of_update_table split: option.split)

lemma update_table_rest [simp]:
  "dialect_name (update_table t f d) = dialect_name d" "db_indexes (update_table t f d) = db_indexes d"
  "db_triggers (update_table t f d) = db_triggers d" "map fst (db_tables (update_table t f d)) = map fst (db_tables d)"
  by (auto simp: update_table_def)

lemma create_drop_table: "undoes (apply_effect (create_table t cs)) (apply_effect (drop_table t))"
  unfolding undoes_effect
proof (intro allI impI)
  fix d d'
  assume wf: "database_wf d" and c: "create_table t cs d = Inr d'"
  from c have n: "\<not> has_table t d" and k: "distinct (map column_name cs)"
    and d': "d' = d\<lparr>db_tables := db_tables d @ [(t, \<lparr>table_columns = cs, table_rows = []\<rparr>)]\<rparr>"
    by (auto simp: create_table_def operational_error_def split: if_splits)
  have h: "has_table m d'" if "has_table m d" for m using that d' by (auto simp: has_table_def)
  have co: "columns_of m d' = columns_of m d" if "has_table m d" for m
    using that n d' by (auto simp: columns_of_def has_table_def map_add_def split: option.split)
  have "database_wf d'"
    unfolding database_wf_def
  proof (intro conjI)
    show "distinct (map fst (db_tables d'))" using wf n by (simp add: d' database_wf_def has_table_def)
    show "list_all (\<lambda>(n, tab). table_wf tab) (db_tables d')" using wf k by (simp add: d' database_wf_def table_wf_def)
    show "list_all (\<lambda>(i, n, cs). has_table n d' \<and> set cs \<subseteq> set (columns_of n d')) (db_indexes d')"
      using wf h co unfolding database_wf_def list_all_iff by (fastforce simp: d')
    show "list_all (\<lambda>tr. has_table (trigger_table tr) d') (db_triggers d')"
      using wf h unfolding database_wf_def list_all_iff by (simp add: d')
  qed
  moreover have "filter (\<lambda>(m, _). m \<noteq> t) (db_tables d) = db_tables d"
    using n by (intro filter_True) (force simp: has_table_def)
  moreover have "filter (\<lambda>(_, m, _). m \<noteq> t) (db_indexes d) = db_indexes d"
    using wf n by (intro filter_True) (auto simp: database_wf_def list_all_iff)
  moreover have "filter (\<lambda>tr. trigger_table tr \<noteq> t) (db_triggers d) = db_triggers d"
    using wf n by (intro filter_True) (auto simp: database_wf_def list_all_iff)
  moreover have "has_table t d'" by (simp add: d' has_table_def)
  ultimately show "database_wf d' \<and> drop_table t d' = Inr d" by (simp add: drop_table_def d')
qed

lemma extend_restrict:
  assumes "table_wf tab" and "column_name c \<notin> set (map column_name (table_columns tab))"
  shows "restrict_table (column_name c) (extend_table c v tab) = tab" and "table_wf (extend_table c v tab)"
proof -
  have r: "filter (\<lambda>(k, _). k \<noteq> column_name c) r = r" if "r \<in> set (table_rows tab)" for r
  proof (rule filter_True)
    have "map fst r = map column_name (table_columns tab)" using assms(1) that by (simp add: table_wf_def list_all_iff)
    then have "fst ` set r = set (map column_name (table_columns tab))" by (metis list.set_map)
    then have "column_name c \<notin> fst ` set r" using assms(2) by simp
    then show "\<forall>x \<in> set r. case x of (k, _) \<Rightarrow> k \<noteq> column_name c" by force
  qed
  have "filter (\<lambda>k. column_name k \<noteq> column_name c) (table_columns tab) = table_columns tab"
    using assms(2) by (intro filter_True) (metis image_eqI list.set_map)
  moreover have "map (\<lambda>x. filter (\<lambda>(k, _). k \<noteq> column_name c) x) (table_rows tab) = table_rows tab"
    using r by (intro map_idI) auto
  ultimately show "restrict_table (column_name c) (extend_table c v tab) = tab"
    by (simp add: restrict_table_def extend_table_def comp_def)
  show "table_wf (extend_table c v tab)"
    using assms by (auto simp: table_wf_def extend_table_def list_all_iff)
qed

lemma add_drop_column: "undoes (apply_effect (add_column t c)) (apply_effect (drop_column t (column_name c)))"
  unfolding undoes_effect
proof (intro allI impI)
  fix d d'
  assume wf: "database_wf d" and a: "add_column t c d = Inr d'"
  from a obtain v where n: "has_table t d" "column_name c \<notin> set (columns_of t d)" and d': "d' = update_table t (extend_table c v) d"
    by (auto simp: add_column_def operational_error_def split: if_splits option.splits)
  obtain tab where tab: "map_of (db_tables d) t = Some tab"
    using n(1) by (auto simp: has_table_def dest: weak_map_of_SomeI)
  have fresh: "column_name c \<notin> set (map column_name (table_columns u))" if "(t, u) \<in> set (db_tables d)" for u
    using that n(2) tab wf by (auto simp: columns_of_def database_wf_def dest: map_of_is_SomeI)
  have twf: "table_wf u" if "(m, u) \<in> set (db_tables d)" for m u
    using that wf by (auto simp: database_wf_def list_all_iff)
  have cols: "set (columns_of m d) \<subseteq> set (columns_of m d')" for m
    using tab by (auto simp: d' columns_of_update) (auto simp: columns_of_def extend_table_def)
  have "list_all (\<lambda>(m, u). table_wf u) (db_tables d')"
    unfolding list_all_iff d' update_table_def using twf fresh extend_restrict(2) by (fastforce split: if_splits)
  then have "database_wf d'"
    using wf cols unfolding database_wf_def by (fastforce simp: list_all_iff d')
  moreover have "column_name c \<in> set (columns_of t d')"
    using tab by (simp add: d' columns_of_update extend_table_def)
  moreover have "map (\<lambda>(i, m, cs). (i, m, if m = t then filter (\<lambda>k. k \<noteq> column_name c) cs else cs)) (db_indexes d) = db_indexes d"
  proof (rule map_idI)
    fix x assume "x \<in> set (db_indexes d)"
    moreover obtain i m cs where "x = (i, m, cs)" by (cases x)
    ultimately show "(case x of (i, m, cs) \<Rightarrow> (i, m, if m = t then filter (\<lambda>k. k \<noteq> column_name c) cs else cs)) = x"
      using wf n(2) by (auto simp: database_wf_def list_all_iff filter_id_conv)
  qed
  moreover have "map (\<lambda>(m, u). (m, if m = t then restrict_table (column_name c) u else u))
      (map (\<lambda>(m, u). (m, if m = t then extend_table c v u else u)) (db_tables d)) = db_tables d"
    using twf fresh extend_restrict(1) by (auto intro!: map_idI)
  ultimately show "database_wf d' \<and> drop_column t (column_name c) d' = Inr d"
    by (simp add: drop_column_def d' update_table_def)
qed

lemma create_drop_index: "undoes (apply_effect (create_index i t cs)) (apply_effect (drop_index i t))"
  unfolding undoes_effect
proof (intro allI impI)
  fix d d'
  assume wf: "database_wf d" and c: "create_index i t cs d = Inr d'"
  then have n: "\<not> list_ex (\<lambda>(j, m, _). j = i \<and> m = t) (db_indexes d)" "set cs \<subseteq> set (columns_of t d)" "has_table t d"
    and d': "d' = d\<lparr>db_indexes := db_indexes d @ [(i, t, cs)]\<rparr>"
    by (auto simp: create_index_def operational_error_def split: if_splits)
  have "filter (\<lambda>(j, m, _). \<not> (j = i \<and> m = t)) (db_indexes d) = db_indexes d"
    using n(1) by (intro filter_True) (auto simp: list_ex_iff)
  moreover have "database_wf d'"
    using wf n by (auto simp: database_wf_def d' list_all_iff)
  ultimately show "database_wf d' \<and> drop_index i t d' = Inr d" by (simp add: drop_index_def d')
qed

lemma create_drop_trigger:
  "undoes (apply_effect (create_trigger tr)) (apply_effect (drop_trigger_if_exists (trigger_name tr)))"
  unfolding undoes_effect
proof (intro allI impI)
  fix d d'
  assume wf: "database_wf d" and c: "create_trigger tr d = Inr d'"
  then have n: "trigger_name tr \<notin> trigger_name ` set (db_triggers d)" "has_table (trigger_table tr) d"
    and d': "d' = d\<lparr>db_triggers := db_triggers d @ [tr]\<rparr>"
    by (auto simp: create_trigger_def operational_error_def split: if_splits)
  have "filter (\<lambda>u. trigger_name u \<noteq> trigger_name tr) (db_triggers d) = db_triggers d"
    using n(1) by (intro filter_True) (metis image_eqI)
  moreover have "database_wf d'"
    using wf n by (auto simp: database_wf_def d' list_all_iff)
  ultimately show "database_wf d' \<and> drop_trigger_if_exists (trigger_name tr) d' = Inr d"
    by (simp add: drop_trigger_if_exists_def d')
qed

end
