(* ===== verification/Audit_Query.thy ===== *)
theory Audit_Query
  imports Jwt_Access Audit_Models "HOL-Library.Product_Lexorder" "HOL-Library.Multiset"
begin

text \<open>
  The read side: \<open>audit/source_semantics.py\<close>, \<open>schemas/audit.py\<close>,
  \<open>services/audit_query_service.py\<close>, \<open>api/routes_audit_events.py\<close> and
  \<open>api/routes_audit_safe.py\<close>.  A database session is the contents of
  \<open>audit_events\<close> at the time of the request, or the exception the queries raise.
  How the database compares texts is a parameter, its collation key: two texts
  are equal to it when their keys are.
\<close>

section \<open>Source evidence\<close>

datatype source_availability = AVAILABLE | UNAVAILABLE | PARTIAL | AVAILABILITY_UNKNOWN
datatype freshness_status = CURRENT | STALE | FRESHNESS_UNKNOWN
datatype retention_status = KNOWN | RETENTION_UNKNOWN

record retention_evidence =
  ret_status :: retention_status
  retention_days :: "int option"
  oldest_available_event_at :: "datetime option"

record freshness_evidence =
  fresh_status :: freshness_status
  last_persisted_event_at :: "datetime option"
  ingestion_lag_seconds :: "rat option"

record source_evidence =
  availability :: source_availability
  generated_at :: datetime
  source_checked_at :: datetime
  freshness :: freshness_evidence
  retention :: retention_evidence
  source_warnings :: "string list"

definition source_evidence_at :: "datetime \<Rightarrow> source_availability \<Rightarrow> string list \<Rightarrow> source_evidence" where
  "source_evidence_at now av ws =
     \<lparr>availability = av, generated_at = now, source_checked_at = now,
      freshness = \<lparr>fresh_status = FRESHNESS_UNKNOWN, last_persisted_event_at = None, ingestion_lag_seconds = None\<rparr>,
      retention = \<lparr>ret_status = RETENTION_UNKNOWN, retention_days = None, oldest_available_event_at = None\<rparr>,
      source_warnings = ws\<rparr>"

definition available_query_evidence :: "datetime \<Rightarrow> source_evidence" where
  "available_query_evidence now = source_evidence_at now AVAILABLE
     [''freshness_unknown'', ''retention_unknown'', ''ingestion_lag_unknown'']"

definition unavailable_query_evidence :: "datetime \<Rightarrow> source_evidence" where
  "unavailable_query_evidence now = source_evidence_at now UNAVAILABLE [''durable_query_unavailable'']"

fun availability_value :: "source_availability \<Rightarrow> string" where
  "availability_value AVAILABLE = ''AVAILABLE''"
| "availability_value UNAVAILABLE = ''UNAVAILABLE''"
| "availability_value PARTIAL = ''PARTIAL''"
| "availability_value AVAILABILITY_UNKNOWN = ''UNKNOWN''"

section \<open>Queries\<close>

type_synonym collation = "string \<Rightarrow> string"

record event_query =
  by_user_id :: "string option"
  by_organization_id :: "string option"
  by_service :: "string option"
  by_event_type :: "string option"
  by_decision :: "string option"
  from_timestamp :: "datetime option"
  to_timestamp :: "datetime option"
  by_integrity_status :: "string option"

text \<open>\<open>WHERE column = value\<close>: a null column matches nothing.\<close>

definition column_eq :: "collation \<Rightarrow> string option \<Rightarrow> string \<Rightarrow> bool" where
  "column_eq col x v = (case x of None \<Rightarrow> False | Some s \<Rightarrow> col s = col v)"

definition where_eq ::
    "collation \<Rightarrow> (audit_row \<Rightarrow> string option) \<Rightarrow> string option \<Rightarrow> audit_row list \<Rightarrow> audit_row list" where
  "where_eq col column v rows =
     (case v of None \<Rightarrow> rows | Some x \<Rightarrow> filter (\<lambda>r. column_eq col (column r) x) rows)"

definition where_from :: "datetime option \<Rightarrow> audit_row list \<Rightarrow> audit_row list" where
  "where_from v rows = (case v of None \<Rightarrow> rows | Some t \<Rightarrow> filter (\<lambda>r. wall (timestamp r) \<ge> wall t) rows)"

definition where_to :: "datetime option \<Rightarrow> audit_row list \<Rightarrow> audit_row list" where
  "where_to v rows = (case v of None \<Rightarrow> rows | Some t \<Rightarrow> filter (\<lambda>r. wall (timestamp r) \<le> wall t) rows)"

text \<open>\<open>ORDER BY timestamp DESC, event_id DESC\<close>.\<close>

definition newest_first :: "collation \<Rightarrow> audit_row list \<Rightarrow> audit_row list" where
  "newest_first col rows = rev (sort_key (\<lambda>r. (wall (timestamp r), col (event_id r))) rows)"

definition page_of :: "int \<Rightarrow> int \<Rightarrow> 'a list \<Rightarrow> 'a list" where
  "page_of page psize rows = take (nat psize) (drop (nat ((page - 1) * psize)) rows)"

definition select_events :: "collation \<Rightarrow> event_query \<Rightarrow> audit_row list \<Rightarrow> audit_row list" where
  "select_events col q rows =
     where_eq col (\<lambda>r. Some (integrity_status r)) (by_integrity_status q)
     (where_to (to_timestamp q)
     (where_from (from_timestamp q)
     (where_eq col decision (by_decision q)
     (where_eq col (\<lambda>r. Some (event_type r)) (by_event_type q)
     (where_eq col (\<lambda>r. Some (service r)) (by_service q)
     (where_eq col organization_id (by_organization_id q)
     (where_eq col user_id (by_user_id q) rows)))))))"

definition list_audit_events ::
    "collation \<Rightarrow> audit_row list res \<Rightarrow> int \<Rightarrow> int \<Rightarrow> event_query \<Rightarrow> (audit_row list \<times> int) res" where
  "list_audit_events col db page psize q =
     bind_res db (\<lambda>rows.
     let found = select_events col q rows
     in Inr (page_of page psize (newest_first col found), int (length found)))"

definition SAFE_METADATA_KEYS :: "string list" where
  "SAFE_METADATA_KEYS =
     [''trace_id'', ''request_id'', ''workflow_id'', ''run_id'', ''resource_type'', ''resource_id'', ''backend'']"

definition project_safe_metadata :: "audit_row \<Rightarrow> pydict" where
  "project_safe_metadata r =
     (let ctx = (case event_context r of PDict d \<Rightarrow> d | _ \<Rightarrow> [])
      in List.map_filter (\<lambda>k. map_option (Pair k) (map_of ctx k)) SAFE_METADATA_KEYS)"

definition select_safe_events ::
    "collation \<Rightarrow> bool \<Rightarrow> event_query \<Rightarrow> audit_row list \<Rightarrow> audit_row list" where
  "select_safe_events col wide q rows =
     where_to (to_timestamp q)
     (where_from (from_timestamp q)
     (where_eq col (\<lambda>r. Some (integrity_status r)) (by_integrity_status q)
     (where_eq col decision (by_decision q)
     (where_eq col (\<lambda>r. Some (event_type r)) (by_event_type q)
     (where_eq col (\<lambda>r. Some (service r)) (by_service q)
     (where_eq col user_id (by_user_id q)
     (if \<not> wide
      then filter (\<lambda>r. (case by_organization_id q of None \<Rightarrow> organization_id r = None
                        | Some x \<Rightarrow> column_eq col (organization_id r) x) \<and>
                       column_eq col (Some (tenant_scope r)) ''organization'') rows
      else where_eq col organization_id (by_organization_id q) rows)))))))"

definition list_safe_audit_events ::
    "collation \<Rightarrow> audit_row list res \<Rightarrow> int \<Rightarrow> int \<Rightarrow> bool \<Rightarrow> event_query \<Rightarrow> (audit_row list \<times> int) res" where
  "list_safe_audit_events col db page psize wide q =
     bind_res db (\<lambda>rows.
     let found = select_safe_events col wide q rows
     in Inr (page_of page psize (newest_first col found), int (length found)))"

section \<open>Routes\<close>

text \<open>A list response, or the 503 body when the source is unavailable.\<close>

record 'i event_page =
  page_items :: "'i list"
  page_total :: int
  page_number :: int
  page_size :: int
  page_count :: int
  page_source :: string
  page_evidence :: source_evidence

datatype 'i reply = Reply "'i event_page" | Unavailable pydict

definition total_pages :: "int \<Rightarrow> int \<Rightarrow> int" where
  "total_pages n psize = (if n \<noteq> 0 then (n + psize - 1) div psize else 0)"

definition unavailable_body :: "source_evidence \<Rightarrow> pydict" where
  "unavailable_body ev =
     [(''error'', PStr ''AUDIT_SOURCE_UNAVAILABLE''), (''source'', PStr ''security_audit''),
      (''source_availability'', PStr (availability_value (availability ev))),
      (''generated_at'', PStr (isoformat ''T'' (generated_at ev))),
      (''source_checked_at'', PStr (isoformat ''T'' (source_checked_at ev))),
      (''warnings'', PList (map PStr (source_warnings ev)))]"

definition reply_page :: "datetime \<Rightarrow> int \<Rightarrow> int \<Rightarrow> int \<Rightarrow> 'i list \<Rightarrow> 'i reply" where
  "reply_page now page psize n items =
     Reply \<lparr>page_items = items, page_total = n, page_number = page, page_size = psize,
            page_count = total_pages n psize, page_source = ''security_audit'',
            page_evidence = available_query_evidence now\<rparr>"

definition unprocessable :: "'a res" where
  "unprocessable = raise (HTTPException 422) ''validation error''"

text \<open>\<open>page\<close> at least 1, \<open>page_size\<close> from 1 to 100: the bounds of the two \<open>Query\<close> parameters.\<close>

definition page_params_ok :: "int \<Rightarrow> int \<Rightarrow> bool" where
  "page_params_ok page psize \<longleftrightarrow> 1 \<le> page \<and> 1 \<le> psize \<and> psize \<le> 100"

text \<open>
  \<open>AuditEventOut\<close> of a row: the row's own columns, which must have the declared
  types (\<open>created_at\<close> present, \<open>context\<close> a dictionary), with the context reduced.
\<close>

record event_out = audit_event +
  out_integrity_status :: string
  out_created_at :: datetime

definition event_out_of :: "audit_row \<Rightarrow> event_out res" where
  "event_out_of r =
     (case (event_context r, created_at r) of
        (PDict d, Some c) \<Rightarrow>
          Inr \<lparr>event_id = event_id r, timestamp = timestamp r, service = service r, event_type = event_type r,
               user_id = user_id r, organization_id = organization_id r, tenant_scope = tenant_scope r,
               action = action r, resource = resource r, decision = decision r, reason = reason r,
               trace_id = trace_id r, event_context = PDict (project_safe_metadata r),
               out_integrity_status = integrity_status r, out_created_at = c\<rparr>
      | _ \<Rightarrow> raise ValidationError ''AuditEventOut'')"

definition list_audit_events_route ::
    "jwt_env \<Rightarrow> collation \<Rightarrow> audit_row list res \<Rightarrow> datetime \<Rightarrow> string option \<Rightarrow> int \<Rightarrow> int \<Rightarrow> event_query
      \<Rightarrow> event_out reply res" where
  "list_audit_events_route J col db now authorization page psize q =
     bind_res (require_platform_admin J authorization) (\<lambda>_.
     if \<not> page_params_ok page psize then unprocessable
     else case list_audit_events col db page psize (q\<lparr>by_organization_id := None\<rparr>) of
       Inl e \<Rightarrow> (if is_sqlalchemy_error e then Inr (Unavailable (unavailable_body (unavailable_query_evidence now)))
                 else Inl e)
     | Inr (rows, n) \<Rightarrow>
         bind_res (map_res event_out_of rows) (\<lambda>items. Inr (reply_page now page psize n items)))"

text \<open>\<open>a > b\<close> of two \<open>datetime\<close> values: an aware and a naive one do not compare.\<close>

definition datetime_gt :: "datetime \<Rightarrow> datetime \<Rightarrow> bool res" where
  "datetime_gt a b =
     (case (tz a, tz b) of
        (None, None) \<Rightarrow> Inr (wall a > wall b)
      | (Some x, Some y) \<Rightarrow> Inr (wall a - x > wall b - y)
      | _ \<Rightarrow> raise TypeError ''cannot compare offset-naive and offset-aware datetimes'')"

definition max_length_ok :: "nat \<Rightarrow> string option \<Rightarrow> bool" where
  "max_length_ok n v = (case v of None \<Rightarrow> True | Some s \<Rightarrow> length (utf8_dec s) \<le> n)"

definition safe_params_ok :: "int \<Rightarrow> int \<Rightarrow> event_query \<Rightarrow> bool" where
  "safe_params_ok page psize q \<longleftrightarrow>
     page_params_ok page psize \<and> max_length_ok 255 (by_user_id q) \<and> max_length_ok 255 (by_service q) \<and>
     max_length_ok 255 (by_event_type q) \<and> max_length_ok 64 (by_decision q) \<and>
     by_integrity_status q \<in> {None, Some ''valid'', Some ''invalid'', Some ''unsigned'', Some ''unknown''} \<and>
     max_length_ok 255 (by_organization_id q)"

record safe_event =
  safe_event_id :: string
  safe_timestamp :: datetime
  safe_organization_id :: "string option"
  safe_tenant_scope :: string
  safe_actor :: "string option"
  safe_event_type :: string
  safe_action :: string
  safe_decision :: "string option"
  safe_integrity :: string
  safe_metadata :: pydict

definition safe_event_of :: "audit_row \<Rightarrow> safe_event" where
  "safe_event_of r =
     \<lparr>safe_event_id = event_id r, safe_timestamp = timestamp r, safe_organization_id = organization_id r,
      safe_tenant_scope = (if tenant_scope r = [] then ''unknown'' else tenant_scope r),
      safe_actor = user_id r, safe_event_type = event_type r, safe_action = action r, safe_decision = decision r,
      safe_integrity = (if integrity_status r \<in> {''valid'', ''invalid'', ''unsigned'', ''unknown''}
                        then integrity_status r else ''unknown''),
      safe_metadata = project_safe_metadata r\<rparr>"

definition list_safe_audit_events_route ::
    "jwt_env \<Rightarrow> collation \<Rightarrow> audit_row list res \<Rightarrow> datetime \<Rightarrow> string option \<Rightarrow> int \<Rightarrow> int \<Rightarrow> event_query
      \<Rightarrow> safe_event reply res" where
  "list_safe_audit_events_route J col db now authorization page psize q =
     bind_res (require_audit_read_access J authorization) (\<lambda>access.
     if \<not> safe_params_ok page psize q then unprocessable
     else
       bind_res (case (from_timestamp q, to_timestamp q) of
           (Some f, Some t) \<Rightarrow> datetime_gt f t | _ \<Rightarrow> Inr False) (\<lambda>reversed.
       if reversed then raise (HTTPException 422) ''from_timestamp must not be after to_timestamp''
       else if \<not> platform_wide access \<and> by_organization_id q \<noteq> None \<and>
               by_organization_id q \<noteq> access_organization_id access
       then raise (HTTPException 403) ''organization_id is outside verified scope''
       else
         let effective_org = (if platform_wide access then by_organization_id q
                              else access_organization_id access)
         in case list_safe_audit_events col db page psize (platform_wide access)
                   (q\<lparr>by_organization_id := effective_org\<rparr>) of
              Inl e \<Rightarrow> (if is_sqlalchemy_error e
                        then Inr (Unavailable (unavailable_body (unavailable_query_evidence now))) else Inl e)
            | Inr (rows, n) \<Rightarrow> Inr (reply_page now page psize n (map safe_event_of rows))))"

section \<open>What the queries select\<close>

definition opt_match :: "('v \<Rightarrow> bool) \<Rightarrow> 'v option \<Rightarrow> bool" where
  "opt_match f v = (case v of None \<Rightarrow> True | Some x \<Rightarrow> f x)"

text \<open>The conditions both queries share: all but the organization.\<close>

definition matches_common :: "collation \<Rightarrow> event_query \<Rightarrow> audit_row \<Rightarrow> bool" where
  "matches_common col q r \<longleftrightarrow>
     opt_match (column_eq col (user_id r)) (by_user_id q) \<and>
     opt_match (column_eq col (Some (service r))) (by_service q) \<and>
     opt_match (column_eq col (Some (event_type r))) (by_event_type q) \<and>
     opt_match (column_eq col (decision r)) (by_decision q) \<and>
     opt_match (column_eq col (Some (integrity_status r))) (by_integrity_status q) \<and>
     opt_match (\<lambda>t. wall t \<le> wall (timestamp r)) (from_timestamp q) \<and>
     opt_match (\<lambda>t. wall (timestamp r) \<le> wall t) (to_timestamp q)"

definition matches :: "collation \<Rightarrow> event_query \<Rightarrow> audit_row \<Rightarrow> bool" where
  "matches col q r \<longleftrightarrow>
     opt_match (column_eq col (organization_id r)) (by_organization_id q) \<and> matches_common col q r"

text \<open>A row of an organization: its ID and its scope both say so.\<close>

definition own_row :: "collation \<Rightarrow> string option \<Rightarrow> audit_row \<Rightarrow> bool" where
  "own_row col org r \<longleftrightarrow>
     (case org of None \<Rightarrow> organization_id r = None | Some x \<Rightarrow> column_eq col (organization_id r) x) \<and>
     column_eq col (Some (tenant_scope r)) ''organization''"

definition matches_safe :: "collation \<Rightarrow> bool \<Rightarrow> event_query \<Rightarrow> audit_row \<Rightarrow> bool" where
  "matches_safe col wide q r \<longleftrightarrow>
     (if wide then matches col q r
      else own_row col (by_organization_id q) r \<and> matches_common col q r)"

lemma where_eq_filter: "where_eq col column v rows = filter (\<lambda>r. opt_match (column_eq col (column r)) v) rows"
  by (cases v) (simp_all add: where_eq_def opt_match_def)

lemma where_from_filter: "where_from v rows = filter (\<lambda>r. opt_match (\<lambda>t. wall t \<le> wall (timestamp r)) v) rows"
  by (cases v) (simp_all add: where_from_def opt_match_def)

lemma where_to_filter: "where_to v rows = filter (\<lambda>r. opt_match (\<lambda>t. wall (timestamp r) \<le> wall t) v) rows"
  by (cases v) (simp_all add: where_to_def opt_match_def)

lemmas where_filters = where_eq_filter where_from_filter where_to_filter

lemma select_events_filter: "select_events col q rows = filter (matches col q) rows"
  unfolding select_events_def where_filters filter_filter
  by (rule filter_cong) (auto simp: matches_def matches_common_def)

lemma select_safe_events_filter:
  "select_safe_events col wide q rows = filter (matches_safe col wide q) rows"
  unfolding select_safe_events_def where_filters
  by (cases wide)
    (auto simp: matches_safe_def matches_def matches_common_def own_row_def intro!: filter_cong)

section \<open>Pagination\<close>

lemma newest_first_mset: "mset (newest_first col rows) = mset rows"
  by (simp add: newest_first_def)

definition not_older :: "collation \<Rightarrow> audit_row \<Rightarrow> audit_row \<Rightarrow> bool" where
  "not_older col a b \<longleftrightarrow> (wall (timestamp a), col (event_id a)) \<ge> (wall (timestamp b), col (event_id b))"

lemma newest_first_ordered: "sorted_wrt (not_older col) (newest_first col rows)"
proof -
  let ?k = "\<lambda>r. (wall (timestamp r), col (event_id r))"
  have "sorted (map ?k (sort_key ?k rows))" by simp
  then show ?thesis
    unfolding newest_first_def sorted_wrt_rev not_older_def sorted_wrt_map .
qed

lemma length_page_of: "length (page_of p n xs) \<le> nat n"
  by (simp add: page_of_def)

lemma pages_prefix:
  assumes "0 \<le> k" and "0 \<le> n"
  shows "concat (map (\<lambda>p. page_of p n xs) [1..k]) = take (nat (k * n)) xs"
  using assms(1)
proof (induction k rule: int_ge_induct)
  case (step k)
  have "[1..k + 1] = [1..k] @ [k + 1]" using step.hyps by (simp add: upto_rec2)
  moreover have "nat ((k + 1) * n) = nat (k * n) + nat n"
    using step.hyps assms(2) by (simp add: algebra_simps nat_add_distrib)
  ultimately show ?case using step.IH by (simp add: page_of_def take_add)
qed simp

lemma total_pages_enough:
  assumes "1 \<le> n" and "0 \<le> t"
  shows "0 \<le> total_pages t n" and "t \<le> total_pages t n * n" and "(total_pages t n - 1) * n < t \<or> t = 0"
proof -
  let ?a = "t + n - 1"
  obtain d m where a: "?a = d * n + m" "?a div n = d" "0 \<le> m" "m < n"
    using assms(1) that [of "?a div n" "?a mod n"] by simp
  have ge: "0 \<le> ?a div n" using assms by (simp add: pos_imp_zdiv_nonneg_iff)
  have "t \<le> ?a div n * n" "(?a div n - 1) * n < t" using a by (simp_all add: left_diff_distrib)
  then show "0 \<le> total_pages t n" "t \<le> total_pages t n * n" "(total_pages t n - 1) * n < t \<or> t = 0"
    using ge by (auto simp: total_pages_def)
qed

text \<open>
  A paged listing: a request for a page answers a part of one list that does not
  depend on the page, and the length of that list.
\<close>

locale paged_listing =
  fixes fetch :: "'t res \<Rightarrow> int \<Rightarrow> int \<Rightarrow> 'q \<Rightarrow> ('r list \<times> int) res"
    and listing :: "'t \<Rightarrow> 'q \<Rightarrow> 'r list"
  assumes fetch_ok: "fetch (Inr t) p n q = Inr (page_of p n (listing t q), int (length (listing t q)))"
    and fetch_failed: "fetch (Inl e) p n q = Inl e"
begin

lemma pages_cover:
  assumes "1 \<le> n"
  shows "concat (map (\<lambda>p. fst (projr (fetch (Inr t) p n q))) [1..total_pages (int (length (listing t q))) n]) =
    listing t q"
  using total_pages_enough [OF assms, of "int (length (listing t q))"] assms
  by (simp add: fetch_ok pages_prefix nat_le_iff)

lemma on_some_page:
  assumes "1 \<le> n" and "r \<in> set (listing t q)"
  shows "\<exists>p rows. 1 \<le> p \<and> p \<le> total_pages (int (length (listing t q))) n \<and>
    fetch (Inr t) p n q = Inr (rows, int (length (listing t q))) \<and> r \<in> set rows"
proof -
  have "r \<in> set (concat (map (\<lambda>p. fst (projr (fetch (Inr t) p n q))) [1..total_pages (int (length (listing t q))) n]))"
    unfolding pages_cover [OF assms(1)] by (rule assms(2))
  then show ?thesis by (auto simp: fetch_ok)
qed

lemma fetched_from:
  assumes "fetch db p n q = Inr (rows, t)"
  shows "\<exists>table. db = Inr table \<and> set rows \<subseteq> set (listing table q) \<and> length rows \<le> nat n \<and>
    t = int (length (listing table q))"
proof (cases db)
  case (Inr table)
  with assms show ?thesis
    by (auto simp: fetch_ok length_page_of page_of_def dest: in_set_takeD in_set_dropD)
qed (use assms in \<open>simp add: fetch_failed\<close>)

end

interpretation events: paged_listing "list_audit_events col" "\<lambda>rows q. newest_first col (filter (matches col q) rows)"
  for col
  by unfold_locales
    (simp_all add: list_audit_events_def select_events_filter newest_first_def Let_def)

interpretation safe_events: paged_listing "\<lambda>db p n (wide, q). list_safe_audit_events col db p n wide q"
  "\<lambda>rows (wide, q). newest_first col (filter (matches_safe col wide q) rows)"
  for col
  by unfold_locales
    (auto simp: list_safe_audit_events_def select_safe_events_filter newest_first_def Let_def)

text \<open>
  C35: going through the pages 1 to \<open>total_pages\<close> of the tenant-safe listing gives
  every matching row exactly once and nothing else, newest first; no page is
  longer than \<open>page_size\<close>.  (Rows written between the requests aside.)
\<close>

theorem safe_pages_complete:
  fixes col rows wide q
  defines "page \<equiv> (\<lambda>n p. fst (projr (list_safe_audit_events col (Inr rows) p n wide q)))"
  assumes "1 \<le> n"
  shows "let everything = concat (map (page n) [1..total_pages (int (length (filter (matches_safe col wide q) rows))) n])
    in mset everything = mset (filter (matches_safe col wide q) rows) \<and>
       sorted_wrt (not_older col) everything \<and>
       length (page n p) \<le> nat n"
proof -
  have "concat (map (page n) [1..total_pages (int (length (filter (matches_safe col wide q) rows))) n]) =
      newest_first col (filter (matches_safe col wide q) rows)"
    using safe_events.pages_cover [OF assms(2), of col rows "(wide, q)"]
    by (simp add: page_def newest_first_def)
  moreover have "length (page n p) \<le> nat n"
    using safe_events.fetch_ok [of col rows p n "(wide, q)"] by (simp add: page_def length_page_of)
  ultimately show ?thesis by (simp add: Let_def newest_first_mset newest_first_ordered)
qed

text \<open>Rows and a query without conditions, for the examples.\<close>

definition org_row :: "string \<Rightarrow> string \<Rightarrow> int \<Rightarrow> audit_row" where
  "org_row eid org t =
     \<lparr>event_id = eid, timestamp = DateTime t None, service = ''tes'', event_type = ''submit'', user_id = Some ''7'',
      organization_id = Some org, tenant_scope = ''organization'', action = ''run'', resource = None, decision = None,
      reason = None, trace_id = None, event_context = PDict [(''run_id'', PInt 4), (''token'', PStr ''x'')],
      integrity_status = ''valid'', record_integrity_hash = None, integrity_key_id = None,
      created_at = Some (DateTime t None)\<rparr>"

definition any_event :: event_query where
  "any_event = \<lparr>by_user_id = None, by_organization_id = None, by_service = None, by_event_type = None,
     by_decision = None, from_timestamp = None, to_timestamp = None, by_integrity_status = None\<rparr>"

lemma any_event_simps [simp]:
  "matches_common col any_event r" "by_organization_id any_event = None"
  "from_timestamp any_event = None" "to_timestamp any_event = None"
  "matches_common col (any_event\<lparr>by_organization_id := v\<rparr>) r"
  by (simp_all add: any_event_def matches_common_def opt_match_def)

theorem safe_pages_complete_witness:
  "let rows = [org_row ''a'' ''589'' 1, org_row ''b'' ''590'' 2, org_row ''c'' ''589'' 3];
       everything = concat (map (\<lambda>p. fst (projr (list_safe_audit_events id (Inr rows) p 1 False
         (any_event\<lparr>by_organization_id := Some ''589''\<rparr>)))) [1..total_pages 2 1])
   in mset everything = {#org_row ''a'' ''589'' 1, org_row ''c'' ''589'' 3#}"
  using safe_pages_complete [of 1 id
      "[org_row ''a'' ''589'' 1, org_row ''b'' ''590'' 2, org_row ''c'' ''589'' 3]" False
      "any_event\<lparr>by_organization_id := Some ''589''\<rparr>"]
  by (simp add: matches_safe_def own_row_def column_eq_def org_row_def Let_def)

section \<open>What a reply of the tenant-safe route may contain\<close>

lemma project_safe_metadata_keys: "fst ` set (project_safe_metadata r) \<subseteq> set SAFE_METADATA_KEYS"
  by (auto simp: project_safe_metadata_def Let_def map_filter_def)

lemma non_wide_access:
  assumes "require_audit_read_access J authorization = Inr access" and "\<not> platform_wide access"
  shows "\<exists>org. access_organization_id access = Some org"
proof -
  obtain p where v: "verified_payload J authorization = Inr p"
    using assms(1) by (auto simp: require_audit_read_access_def)
  with assms show ?thesis
    by (cases "dict_get p ''org_id''")
      (auto simp: require_audit_read_access_def simp del: py_in.simps split: if_splits)
qed

text \<open>The effective query of a request that passes the checks of the route.\<close>

definition effective_query :: "audit_access \<Rightarrow> event_query \<Rightarrow> event_query" where
  "effective_query access q =
     q\<lparr>by_organization_id := if platform_wide access then by_organization_id q else access_organization_id access\<rparr>"

lemma list_safe_route_Reply:
  assumes "list_safe_audit_events_route J col db now authorization p n q = Inr (Reply pg)"
  shows "\<exists>access table. require_audit_read_access J authorization = Inr access \<and> db = Inr table \<and>
    safe_params_ok p n q \<and>
    pg = (case reply_page now p n (int (length (filter (matches_safe col (platform_wide access) (effective_query access q)) table)))
            (map safe_event_of (page_of p n (newest_first col
              (filter (matches_safe col (platform_wide access) (effective_query access q)) table))))
          of Reply x \<Rightarrow> x)"
  using assms safe_events.fetch_failed [of col _ p n "(_, _)"]
  by (cases db; cases "require_audit_read_access J authorization")
    (auto simp: list_safe_audit_events_route_def unprocessable_def reply_page_def Let_def effective_query_def
        list_safe_audit_events_def select_safe_events_filter newest_first_def
      split: if_splits)

text \<open>
  C34: a reply of the tenant-safe route holds no more rows than asked for (100 at
  most), each of them a stored row; for a caller that is not platform-wide each is
  a row of the organization of the verified token; and the metadata of an item has
  only the allow-listed keys.
\<close>

theorem safe_reply_contents:
  assumes "list_safe_audit_events_route J col db now authorization p n q = Inr (Reply pg)"
  shows "\<exists>access table. require_audit_read_access J authorization = Inr access \<and> db = Inr table \<and>
    length (page_items pg) \<le> nat n \<and> n \<le> 100 \<and>
    (\<forall>item \<in> set (page_items pg). fst ` set (safe_metadata item) \<subseteq> set SAFE_METADATA_KEYS \<and>
      (\<exists>r \<in> set table. item = safe_event_of r \<and>
         (platform_wide access \<or> own_row col (access_organization_id access) r)))"
proof -
  obtain access table where a: "require_audit_read_access J authorization = Inr access" "db = Inr table"
      "safe_params_ok p n q"
    and items: "page_items pg = map safe_event_of (page_of p n (newest_first col
              (filter (matches_safe col (platform_wide access) (effective_query access q)) table)))"
    using list_safe_route_Reply [OF assms] by (auto simp: reply_page_def)
  have sub: "set (page_of p n (newest_first col xs)) \<subseteq> set xs" for xs
    by (auto simp: page_of_def newest_first_def dest!: in_set_takeD in_set_dropD)
  have own: "r \<in> set table \<and> (platform_wide access \<or> own_row col (access_organization_id access) r)"
    if "r \<in> set (page_of p n (newest_first col
          (filter (matches_safe col (platform_wide access) (effective_query access q)) table)))" for r
    using subsetD [OF sub that] by (auto simp: matches_safe_def effective_query_def split: if_splits)
  have "length (page_items pg) \<le> nat n" "n \<le> 100"
    using a(3) by (simp_all add: items length_page_of safe_params_ok_def page_params_ok_def)
  moreover have "fst ` set (safe_metadata item) \<subseteq> set SAFE_METADATA_KEYS \<and>
      (\<exists>r \<in> set table. item = safe_event_of r \<and>
         (platform_wide access \<or> own_row col (access_organization_id access) r))"
    if "item \<in> set (page_items pg)" for item
  proof -
    from that obtain r where r: "item = safe_event_of r" "r \<in> set (page_of p n (newest_first col
          (filter (matches_safe col (platform_wide access) (effective_query access q)) table)))"
      unfolding items by auto
    have "safe_metadata item = project_safe_metadata r" by (simp add: r(1) safe_event_of_def)
    then show ?thesis using own [OF r(2)] r(1) project_safe_metadata_keys [of r] by auto
  qed
  ultimately show ?thesis using a by blast
qed

text \<open>
  C24: tenants do not interfere.  For a caller that is not platform-wide, two tables
  that hold the same rows of the caller's organization give the same reply,
  whatever else they hold: not the items, not the total, not the number of pages
  depend on the rows of another tenant.
\<close>

theorem tenant_noninterference:
  assumes "require_audit_read_access J authorization = Inr access" and "\<not> platform_wide access"
    and "filter (own_row col (access_organization_id access)) rows =
         filter (own_row col (access_organization_id access)) rows'"
  shows "list_safe_audit_events_route J col (Inr rows) now authorization p n q =
         list_safe_audit_events_route J col (Inr rows') now authorization p n q"
proof -
  let ?q = "effective_query access q"
  have w: "platform_wide access = False" using assms(2) by simp
  have own: "filter (matches_safe col False ?q) xs =
      filter (matches_common col ?q) (filter (own_row col (access_organization_id access)) xs)" for xs
    using assms(2) by (auto simp: matches_safe_def effective_query_def intro!: filter_cong)
  have "list_safe_audit_events col (Inr rows) p n False ?q = list_safe_audit_events col (Inr rows') p n False ?q"
    using safe_events.fetch_ok [of col rows p n "(False, ?q)"] safe_events.fetch_ok [of col rows' p n "(False, ?q)"]
    unfolding split own assms(3) by simp
  then show ?thesis
    unfolding list_safe_audit_events_route_def effective_query_def assms(1) Let_def bind_res.simps(2) w
    by (simp cong: if_cong)
qed

text \<open>Every row of the caller's organization is on some page of the listing without conditions.\<close>

lemma own_row_listed:
  assumes "require_audit_read_access J authorization = Inr access" and "\<not> platform_wide access"
    and "1 \<le> n" and "n \<le> 100" and "r \<in> set rows" and "own_row col (access_organization_id access) r"
  shows "\<exists>p pg. 1 \<le> p \<and> p \<le> page_count pg \<and> safe_event_of r \<in> set (page_items pg) \<and>
    list_safe_audit_events_route J col (Inr rows) now authorization p n any_event = Inr (Reply pg)"
proof -
  let ?q = "any_event\<lparr>by_organization_id := access_organization_id access\<rparr>"
  let ?N = "int (length (newest_first col (filter (matches_safe col False ?q) rows)))"
  have "r \<in> set (newest_first col (filter (matches_safe col False ?q) rows))"
    using assms(5,6) by (simp add: newest_first_def matches_safe_def matches_common_def opt_match_def any_event_def)
  from safe_events.on_some_page [where q = "(False, ?q)", unfolded split, OF assms(3) this] obtain p page where
    p: "1 \<le> p" "p \<le> total_pages ?N n" "list_safe_audit_events col (Inr rows) p n False ?q = Inr (page, ?N)" "r \<in> set page"
    by blast
  have "safe_params_ok p n any_event" using assms(3,4) p(1)
    by (simp add: safe_params_ok_def page_params_ok_def max_length_ok_def any_event_def)
  then have "list_safe_audit_events_route J col (Inr rows) now authorization p n any_event =
      Inr (reply_page now p n ?N (map safe_event_of page))"
    unfolding list_safe_audit_events_route_def assms(1)
    using assms(2) p(3) by (simp add: any_event_def)
  with p(1,2,4) show ?thesis by (fastforce simp: reply_page_def)
qed

lemma example_reader:
  "require_audit_read_access
     (example_jwt [(''sub'', PStr ''7''), (''org_role'', PList [PStr ''org_admin'']), (''org_id'', PStr ''589'')])
     (Some ''Bearer s3cret'') = Inr \<lparr>platform_wide = False, access_organization_id = Some ''589''\<rparr>"
proof -
  have "verified_payload (example_jwt [(''sub'', PStr ''7''), (''org_role'', PList [PStr ''org_admin'']),
      (''org_id'', PStr ''589'')]) (Some ''Bearer s3cret'') =
      Inr [(''sub'', PStr ''7''), (''org_role'', PList [PStr ''org_admin'']), (''org_id'', PStr ''589'')]"
    by (rule example_jwt_payload) (simp_all add: dict_get_def)
  then show ?thesis
    by (simp add: require_audit_read_access_def py_or_def dict_get_def PLATFORM_WIDE_PERMISSION_def
        ORGANIZATION_READ_ROLE_def)
qed

theorem tenant_noninterference_witness:
  "let J = example_jwt [(''sub'', PStr ''7''), (''org_role'', PList [PStr ''org_admin'']), (''org_id'', PStr ''589'')]
   in list_safe_audit_events_route J id (Inr [org_row ''a'' ''589'' 1, org_row ''b'' ''590'' 2])
        (DateTime 5 (Some 0)) (Some ''Bearer s3cret'') 1 20 any_event =
      list_safe_audit_events_route J id (Inr [org_row ''a'' ''589'' 1])
        (DateTime 5 (Some 0)) (Some ''Bearer s3cret'') 1 20 any_event"
  unfolding Let_def
  by (rule tenant_noninterference [OF example_reader])
    (simp_all add: own_row_def column_eq_def org_row_def)

theorem safe_reply_contents_witness:
  "let J = example_jwt [(''sub'', PStr ''7''), (''org_role'', PList [PStr ''org_admin'']), (''org_id'', PStr ''589'')]
   in \<exists>pg. list_safe_audit_events_route J id (Inr [org_row ''a'' ''589'' 1, org_row ''b'' ''590'' 2])
        (DateTime 5 (Some 0)) (Some ''Bearer s3cret'') 1 20 any_event = Inr (Reply pg) \<and>
      page_total pg = 1 \<and> (\<forall>item \<in> set (page_items pg). fst ` set (safe_metadata item) \<subseteq> set SAFE_METADATA_KEYS)"
proof -
  define J where "J = example_jwt
    [(''sub'', PStr ''7''), (''org_role'', PList [PStr ''org_admin'']), (''org_id'', PStr ''589'')]"
  have "\<exists>pg. list_safe_audit_events_route J id (Inr [org_row ''a'' ''589'' 1, org_row ''b'' ''590'' 2])
        (DateTime 5 (Some 0)) (Some ''Bearer s3cret'') 1 20 any_event = Inr (Reply pg) \<and> page_total pg = 1"
    using example_reader
    by (simp add: J_def list_safe_audit_events_route_def list_safe_audit_events_def select_safe_events_filter
        safe_params_ok_def page_params_ok_def max_length_ok_def any_event_def matches_safe_def own_row_def
        column_eq_def matches_common_def opt_match_def org_row_def reply_page_def)
  then show ?thesis using safe_reply_contents unfolding J_def [symmetric] Let_def by blast
qed

section \<open>Failures of the source\<close>

text \<open>
  C40: a failed query never looks like an empty result.  When the database raises,
  neither route replies with a page; for an authorized request with valid
  parameters a database error becomes the 503 body, marked unavailable.
\<close>

theorem failed_source_never_a_page:
  "list_safe_audit_events_route J col (Inl e) now authorization p n q \<noteq> Inr (Reply pg) \<and>
   list_audit_events_route J col (Inl e) now authorization p n q \<noteq> Inr (Reply pg') \<and>
   (is_sqlalchemy_error e \<and> require_platform_admin J authorization = Inr payload \<and> page_params_ok p n \<longrightarrow>
     (\<exists>body. list_audit_events_route J col (Inl e) now authorization p n q = Inr (Unavailable body) \<and>
        map_of body ''source_availability'' = Some (PStr ''UNAVAILABLE'')))"
proof (intro conjI impI)
  show "list_safe_audit_events_route J col (Inl e) now authorization p n q \<noteq> Inr (Reply pg)"
    using list_safe_route_Reply [of J col "Inl e" now authorization p n q pg] by blast
  show "list_audit_events_route J col (Inl e) now authorization p n q \<noteq> Inr (Reply pg')"
    by (cases "require_platform_admin J authorization")
      (auto simp: list_audit_events_route_def list_audit_events_def unprocessable_def)
  assume "is_sqlalchemy_error e \<and> require_platform_admin J authorization = Inr payload \<and> page_params_ok p n"
  then show "\<exists>body. list_audit_events_route J col (Inl e) now authorization p n q = Inr (Unavailable body) \<and>
        map_of body ''source_availability'' = Some (PStr ''UNAVAILABLE'')"
    by (simp add: list_audit_events_route_def list_audit_events_def unavailable_body_def
        unavailable_query_evidence_def source_evidence_at_def)
qed

theorem failed_source_never_a_page_witness:
  "let J = example_jwt [(''sub'', PStr ''7''), (''roles'', PList [PStr ''platform_admin''])]
   in \<exists>body. list_audit_events_route J id (raise (SQLAlchemyError ''OperationalError'') ''gone away'') (DateTime 5 (Some 0))
        (Some ''Bearer s3cret'') 1 20 any_event = Inr (Unavailable body) \<and>
      map_of body ''source_availability'' = Some (PStr ''UNAVAILABLE'')"
proof -
  define p where "p = [(''sub'', PStr ''7''), (''roles'', PList [PStr ''platform_admin''])]"
  have "verified_payload (example_jwt p) (Some ''Bearer s3cret'') = Inr p"
    by (rule example_jwt_payload) (simp_all add: p_def dict_get_def)
  then have "require_platform_admin (example_jwt p) (Some ''Bearer s3cret'') = Inr p"
    by (simp add: require_platform_admin_def p_def py_or_def dict_get_def PLATFORM_ADMIN_ROLE_def)
  then show ?thesis
    using failed_source_never_a_page
    by (fastforce simp: p_def [symmetric] page_params_ok_def)
qed

text \<open>
  The window test of the tenant-safe route compares the two bounds as Python
  does: a window with one aware and one naive bound is neither accepted nor refused
  with a 422, the comparison raises \<open>TypeError\<close>.
\<close>

theorem mixed_window_raises:
  assumes "require_audit_read_access J authorization = Inr access" and "safe_params_ok p n q"
    and "from_timestamp q = Some f" and "to_timestamp q = Some t" and "(tz f = None) \<noteq> (tz t = None)"
  shows "\<exists>e. list_safe_audit_events_route J col db now authorization p n q = Inl e \<and> kind e = TypeError"
  using assms
  by (cases "tz f"; cases "tz t")
    (auto simp: list_safe_audit_events_route_def datetime_gt_def)

theorem mixed_window_raises_witness:
  "let J = example_jwt [(''sub'', PStr ''7''), (''org_role'', PList [PStr ''org_admin'']), (''org_id'', PStr ''589'')];
       q = any_event\<lparr>from_timestamp := Some (DateTime 0 (Some 0)), to_timestamp := Some (DateTime 9 None)\<rparr>
   in \<exists>e. list_safe_audit_events_route J id (Inr []) (DateTime 5 (Some 0)) (Some ''Bearer s3cret'') 1 20 q = Inl e \<and>
        kind e = TypeError"
  unfolding Let_def
  by (rule mixed_window_raises [OF example_reader, where f = "DateTime 0 (Some 0)" and t = "DateTime 9 None"])
    (simp_all add: safe_params_ok_def page_params_ok_def max_length_ok_def any_event_def)

end
