(* ===== verification/Integrity_Scan.thy ===== *)
theory Integrity_Scan
  imports Sinks
begin

text \<open>
  \<open>scripts/verify_audit_integrity.py\<close>: the verification of every stored row
  against its hash, the exit code and the status file.  The database and the file
  system are parameters; each operation may raise.  What the script prints is left
  out.
\<close>

section \<open>Files and tables the scripts use\<close>

record 'e script_ops =
  op_all_events :: "'e \<Rightarrow> audit_row list res \<times> 'e"
  op_all_quarantined :: "'e \<Rightarrow> quarantine_row list res \<times> 'e"
  op_write_text :: "string \<Rightarrow> string \<Rightarrow> 'e \<Rightarrow> unit res \<times> 'e"
  op_replace_file :: "string \<Rightarrow> string \<Rightarrow> 'e \<Rightarrow> unit res \<times> 'e"

text \<open>\<open>tmp_path.write_text(text); tmp_path.replace(path)\<close>, where \<open>tmp_path\<close> is \<open>path\<close> with the suffix \<open>.tmp\<close>.\<close>

definition status_path :: "string \<Rightarrow> string \<Rightarrow> string" where
  "status_path status_dir stem = status_dir @ ''/'' @ stem @ ''.env''"

definition replace_text :: "'e script_ops \<Rightarrow> string \<Rightarrow> string \<Rightarrow> string list \<Rightarrow> ('e, unit) io" where
  "replace_text Y status_dir stem lines =
     (let tmp_path = status_dir @ ''/'' @ stem @ ''.tmp''
      in io_bind (io_call (op_write_text Y tmp_path (join nl lines @ nl))) (\<lambda>_.
         io_call (op_replace_file Y tmp_path (status_path status_dir stem))))"

text \<open>\<open>os.environ.get(name)\<close> where an empty value counts as absent.\<close>

definition env_value :: "environ \<Rightarrow> string \<Rightarrow> string option" where
  "env_value osenv name = (case osenv name of Some [] \<Rightarrow> None | v \<Rightarrow> v)"

section \<open>Keys\<close>

datatype verification_keys = Keyring "(string \<times> string) list" | SingleKey string

definition legacy_id :: string where
  "legacy_id = ''__legacy__''"

definition resolve_keyring :: "environ \<Rightarrow> (string \<times> string) list res" where
  "resolve_keyring osenv =
     (let legacy = env_value osenv ''AUDIT_LEGACY_RECORD_VERIFY_KEY'';
          key_id = env_value osenv ''AUDIT_RECORD_INTEGRITY_KEY_ID'';
          current = env_value osenv ''AUDIT_RECORD_INTEGRITY_KEY'';
          keys = (case legacy of None \<Rightarrow> [] | Some l \<Rightarrow> [(legacy_id, l)]);
          keys' = (case (current, key_id) of (Some c, Some k) \<Rightarrow> dict_set k c keys | _ \<Rightarrow> keys)
      in case current of
           None \<Rightarrow> (if keys' = [] then raise (SystemExit 1) [] else Inr keys')
         | Some c \<Rightarrow>
             (case key_id of
                None \<Rightarrow> raise (SystemExit 1) []
              | Some k \<Rightarrow>
                  if k = legacy_id then raise (SystemExit 1) []
                  else bind_res (encode c) (\<lambda>b.
                    if length b < 32 \<or> \<not> key_id_format k then raise (SystemExit 1) []
                    else bind_res (case legacy of None \<Rightarrow> Inr False | Some l \<Rightarrow> compare_digest l c) (\<lambda>same.
                      if same then raise (SystemExit 1) [] else Inr keys'))))"

definition resolve_session :: "environ \<Rightarrow> string res" where
  "resolve_session osenv =
     (case env_value osenv ''AUDIT_READER_DATABASE_URL'' of
        Some u \<Rightarrow> Inr u
      | None \<Rightarrow> (case env_value osenv ''AUDIT_DATABASE_URL'' of
                   Some u \<Rightarrow> Inr u | None \<Rightarrow> raise (SystemExit 1) []))"

definition selected_record_key :: "pydict \<Rightarrow> verification_keys \<Rightarrow> string option \<times> string option" where
  "selected_record_key rec keys =
     (let key_id = (case dict_get rec ''integrity_key_id'' of PStr k \<Rightarrow> Some k | _ \<Rightarrow> None)
      in case keys of
           SingleKey k \<Rightarrow> (Some k, key_id)
         | Keyring ks \<Rightarrow>
             (case key_id of None \<Rightarrow> (map_of ks legacy_id, None) | Some k \<Rightarrow> (map_of ks k, Some k)))"

section \<open>The scan of a table\<close>

record scan_stats =
  checked :: nat
  valid_count :: nat
  invalid_ids :: "string list"
  unverifiable_ids :: "string list"
  no_baseline :: nat
  structural :: "string list"
  valid_legacy_tz :: nat

definition AUDIT_EVENT_REQUIRED :: "string list" where
  "AUDIT_EVENT_REQUIRED = [''event_id'', ''timestamp'', ''service'', ''event_type'', ''action'']"

definition QUARANTINE_REQUIRED :: "string list" where
  "QUARANTINE_REQUIRED = [''stream_message_id'', ''failure_category'', ''delivery_attempts'']"

definition missing_fields :: "string list \<Rightarrow> pydict \<Rightarrow> string list" where
  "missing_fields required row = filter (\<lambda>f. dict_get row f = PNone \<or> dict_get row f = PStr []) required"

text \<open>
  One row.  \<open>check\<close> is the verification of the table: whether the hash matches, and
  whether in the legacy form.  The state is the statistics and the IDs seen.
\<close>

type_synonym row_check = "pydict \<Rightarrow> string \<Rightarrow> string option \<Rightarrow> (bool \<times> bool) res"

definition scan_row ::
    "string \<Rightarrow> string list \<Rightarrow> row_check \<Rightarrow> verification_keys \<Rightarrow> pydict \<Rightarrow> scan_stats \<times> string list
      \<Rightarrow> (scan_stats \<times> string list) res" where
  "scan_row id_col required check keys row state =
     (let (stats, seen) = state;
          ident = py_str (dict_get row id_col);
          stats1 = stats\<lparr>checked := checked stats + 1,
            structural := structural stats
              @ (if ident \<in> set seen then [''duplicate '' @ id_col @ '': '' @ ident] else [])
              @ map (\<lambda>f. ident @ '': missing required field '' @ repr_str f) (missing_fields required row)\<rparr>
      in if \<not> truthy (dict_get row ''record_integrity_hash'')
         then Inr (stats1\<lparr>no_baseline := no_baseline stats1 + 1\<rparr>, ident # seen)
         else case selected_record_key row keys of
           (None, _) \<Rightarrow> Inr (stats1\<lparr>unverifiable_ids := unverifiable_ids stats1 @ [ident]\<rparr>, ident # seen)
         | (Some secret, key_id) \<Rightarrow>
             bind_res (check row secret key_id) (\<lambda>(ok, legacy).
             Inr (if ok
                  then stats1\<lparr>valid_count := valid_count stats1 + 1,
                         valid_legacy_tz := valid_legacy_tz stats1 + (if legacy then 1 else 0)\<rparr>
                  else stats1\<lparr>invalid_ids := invalid_ids stats1 @ [ident]\<rparr>, ident # seen)))"

definition no_stats :: scan_stats where
  "no_stats = \<lparr>checked = 0, valid_count = 0, invalid_ids = [], unverifiable_ids = [], no_baseline = 0,
     structural = [], valid_legacy_tz = 0\<rparr>"

definition scan_rows ::
    "string \<Rightarrow> string list \<Rightarrow> row_check \<Rightarrow> verification_keys \<Rightarrow> pydict list \<Rightarrow> scan_stats res" where
  "scan_rows id_col required check keys rows =
     bind_res (fold_res (scan_row id_col required check keys) rows (no_stats, [])) (\<lambda>s. Inr (fst s))"

definition check_event :: row_check where
  "check_event row secret key_id =
     bind_res (verify_audit_event_hash row secret key_id) (\<lambda>ok.
     if ok \<and> key_id = None
     then bind_res (audit_event_hash_matches_legacy_utc_form row secret) (\<lambda>legacy. Inr (True, legacy))
     else Inr (ok, False))"

definition check_quarantined :: row_check where
  "check_quarantined row secret key_id =
     bind_res (verify_quarantine_record_hash row secret key_id) (\<lambda>ok. Inr (ok, False))"

definition verify_audit_events :: "verification_keys \<Rightarrow> audit_row list \<Rightarrow> scan_stats res" where
  "verify_audit_events keys rows =
     scan_rows ''event_id'' AUDIT_EVENT_REQUIRED check_event keys (map event_fields rows)"

definition verify_quarantine_records :: "verification_keys \<Rightarrow> quarantine_row list \<Rightarrow> scan_stats res" where
  "verify_quarantine_records keys rows =
     scan_rows ''stream_message_id'' QUARANTINE_REQUIRED check_quarantined keys (map quarantine_fields rows)"

definition report :: "scan_stats \<Rightarrow> bool" where
  "report stats \<longleftrightarrow>
     invalid_ids stats = [] \<and> structural stats = [] \<and> unverifiable_ids stats = [] \<and> no_baseline stats = 0"

section \<open>The script\<close>

definition verification_lines :: "string \<Rightarrow> bool \<Rightarrow> scan_stats \<Rightarrow> scan_stats \<Rightarrow> string list" where
  "verification_lines now passed es qs =
     [''LAST_VERIFICATION_TS='' @ now,
      ''LAST_VERIFICATION_RESULT='' @ (if passed then ''pass'' else ''fail''),
      ''LAST_VERIFICATION_EVENTS_CHECKED='' @ show_nat (checked es),
      ''LAST_VERIFICATION_EVENTS_INVALID='' @ show_nat (length (invalid_ids es)),
      ''LAST_VERIFICATION_QUARANTINE_CHECKED='' @ show_nat (checked qs),
      ''LAST_VERIFICATION_QUARANTINE_INVALID='' @ show_nat (length (invalid_ids qs))]"

definition write_verification_status ::
    "'e ops \<Rightarrow> 'e script_ops \<Rightarrow> environ \<Rightarrow> bool \<Rightarrow> scan_stats \<Rightarrow> scan_stats \<Rightarrow> ('e, unit) io" where
  "write_verification_status X Y osenv passed es qs =
     (case env_value osenv ''AUDIT_HEALTH_STATUS_DIR'' of
        None \<Rightarrow> io_return ()
      | Some status_dir \<Rightarrow>
          io_bind (io_call (op_now X)) (\<lambda>now.
          replace_text Y status_dir ''audit-integrity-verification''
            (verification_lines (isoformat ''T'' (DateTime (wall now) (Some 0))) passed es qs)))"

definition verification_main :: "'e ops \<Rightarrow> 'e script_ops \<Rightarrow> environ \<Rightarrow> ('e, int) io" where
  "verification_main X Y osenv =
     io_bind (io_lift (resolve_keyring osenv)) (\<lambda>keys.
     io_bind (io_lift (resolve_session osenv)) (\<lambda>_.
     io_bind (io_call (op_all_events Y)) (\<lambda>events.
     io_bind (io_lift (verify_audit_events (Keyring keys) events)) (\<lambda>es.
     io_bind (io_call (op_all_quarantined Y)) (\<lambda>quarantined.
     io_bind (io_lift (verify_quarantine_records (Keyring keys) quarantined)) (\<lambda>qs.
     let passed = report es \<and> report qs
     in io_bind (write_verification_status X Y osenv passed es qs) (\<lambda>_.
        if passed then io_return 0
        else
          io_bind (emit_alert X osenv ''integrity_verification_failed'' ''critical'' ''integrity-verification''
             ''Stored audit record integrity verification found tampered, corrupted, or structurally invalid records''
             [(''events_invalid'', PInt (int (length (invalid_ids es)))),
              (''events_structural'', PInt (int (length (structural es)))),
              (''quarantine_invalid'', PInt (int (length (invalid_ids qs)))),
              (''quarantine_structural'', PInt (int (length (structural qs))))]) (\<lambda>_.
          io_return 1))))))))"

section \<open>What a scan decides\<close>

definition row_ok :: "string list \<Rightarrow> row_check \<Rightarrow> verification_keys \<Rightarrow> pydict \<Rightarrow> bool" where
  "row_ok required check keys row \<longleftrightarrow>
     missing_fields required row = [] \<and> truthy (dict_get row ''record_integrity_hash'') \<and>
     (case selected_record_key row keys of
        (None, _) \<Rightarrow> False
      | (Some secret, key_id) \<Rightarrow> (case check row secret key_id of Inl e \<Rightarrow> False | Inr (ok, _) \<Rightarrow> ok))"

definition scanned_total :: "scan_stats \<Rightarrow> nat" where
  "scanned_total st = valid_count st + length (invalid_ids st) + length (unverifiable_ids st) + no_baseline st"

lemma scan_row_step:
  assumes "scan_row id_col required check keys row (st, seen) = Inr (st', seen')"
  shows "seen' = py_str (dict_get row id_col) # seen" and "checked st' = checked st + 1"
    and "scanned_total st' = scanned_total st + 1"
    and "report st' \<longleftrightarrow> report st \<and> row_ok required check keys row \<and> py_str (dict_get row id_col) \<notin> set seen"
proof -
  obtain secret key_id where k: "selected_record_key row keys = (secret, key_id)" by fastforce
  note defs = scan_row_def scanned_total_def report_def row_ok_def Let_def k
  show "seen' = py_str (dict_get row id_col) # seen" "checked st' = checked st + 1"
    "scanned_total st' = scanned_total st + 1"
    using assms by (auto simp: defs split: if_splits option.splits)
  show "report st' \<longleftrightarrow> report st \<and> row_ok required check keys row \<and> py_str (dict_get row id_col) \<notin> set seen"
  proof (cases secret)
    case None
    with assms show ?thesis by (auto simp: defs split: if_splits)
  next
    case (Some s)
    show ?thesis
    proof (cases "check row s key_id")
      case (Inl e)
      with assms Some show ?thesis by (auto simp: defs split: if_splits)
    next
      case (Inr r)
      obtain ok legacy where "r = (ok, legacy)" by fastforce
      with assms Some Inr show ?thesis by (cases ok) (auto simp: defs split: if_splits)
    qed
  qed
qed

lemma fold_scan:
  "fold_res (scan_row id_col required check keys) rows (st, seen) = Inr (st', seen') \<Longrightarrow>
     checked st' = checked st + length rows \<and> scanned_total st' = scanned_total st + length rows \<and>
     (report st' \<longleftrightarrow> report st \<and> (\<forall>row \<in> set rows. row_ok required check keys row) \<and>
        distinct (map (\<lambda>row. py_str (dict_get row id_col)) rows) \<and>
        set (map (\<lambda>row. py_str (dict_get row id_col)) rows) \<inter> set seen = {})"
proof (induction rows arbitrary: st seen)
  case (Cons row rows)
  from Cons.prems obtain st1 seen1 where s: "scan_row id_col required check keys row (st, seen) = Inr (st1, seen1)"
    and f: "fold_res (scan_row id_col required check keys) rows (st1, seen1) = Inr (st', seen')" by auto
  from Cons.IH [OF f] scan_row_step [OF s] show ?case by auto
qed simp

lemma scan_rows_report:
  assumes "scan_rows id_col required check keys rows = Inr st"
  shows "checked st = length rows" and "scanned_total st = length rows"
    and "report st \<longleftrightarrow> (\<forall>row \<in> set rows. row_ok required check keys row) \<and>
       distinct (map (\<lambda>row. py_str (dict_get row id_col)) rows)"
proof -
  from assms obtain seen where "fold_res (scan_row id_col required check keys) rows (no_stats, []) = Inr (st, seen)"
    by (auto simp: scan_rows_def)
  from fold_scan [OF this] show "checked st = length rows" "scanned_total st = length rows"
    "report st \<longleftrightarrow> (\<forall>row \<in> set rows. row_ok required check keys row) \<and>
       distinct (map (\<lambda>row. py_str (dict_get row id_col)) rows)"
    by (simp_all add: no_stats_def report_def scanned_total_def)
qed

lemma scan_row_total:
  assumes "row_ok required check keys row"
  shows "\<exists>s. scan_row id_col required check keys row state = Inr s"
proof -
  obtain st seen where "state = (st, seen)" by fastforce
  moreover obtain secret key_id where "selected_record_key row keys = (secret, key_id)" by fastforce
  ultimately show ?thesis
    using assms by (auto simp: row_ok_def scan_row_def Let_def split: option.splits sum.splits)
qed

lemma scan_rows_total:
  assumes "\<forall>row \<in> set rows. row_ok required check keys row"
  shows "\<exists>st. scan_rows id_col required check keys rows = Inr st"
proof -
  have "\<exists>s. fold_res (scan_row id_col required check keys) rows state = Inr s" for state
    using assms
  proof (induction rows arbitrary: state)
    case (Cons row rows)
    from Cons.prems have "row_ok required check keys row" by simp
    then obtain s where "scan_row id_col required check keys row state = Inr s" using scan_row_total by blast
    with Cons show ?case by simp
  qed simp
  then obtain s where "fold_res (scan_row id_col required check keys) rows (no_stats, []) = Inr s" by blast
  then show ?thesis by (simp add: scan_rows_def)
qed

text \<open>The two tables.\<close>

definition event_ok :: "verification_keys \<Rightarrow> audit_row \<Rightarrow> bool" where
  "event_ok keys r \<longleftrightarrow> row_ok AUDIT_EVENT_REQUIRED check_event keys (event_fields r)"

definition quarantined_ok :: "verification_keys \<Rightarrow> quarantine_row \<Rightarrow> bool" where
  "quarantined_ok keys q \<longleftrightarrow> row_ok QUARANTINE_REQUIRED check_quarantined keys (quarantine_fields q)"

lemma row_idents:
  "py_str (dict_get (event_fields r) ''event_id'') = event_id r"
  "py_str (dict_get (quarantine_fields q) ''stream_message_id'') = stream_message_id q"
  by (simp_all add: dict_get_def event_fields_def quarantine_fields_def)

lemma verify_audit_events_report:
  "verify_audit_events keys rows = Inr st \<Longrightarrow>
     report st \<longleftrightarrow> (\<forall>r \<in> set rows. event_ok keys r) \<and> distinct (map event_id rows)"
  using scan_rows_report(3) [of "''event_id''" AUDIT_EVENT_REQUIRED check_event keys "map event_fields rows" st]
  by (simp add: verify_audit_events_def event_ok_def row_idents comp_def)

lemma verify_quarantine_records_report:
  "verify_quarantine_records keys rows = Inr st \<Longrightarrow>
     report st \<longleftrightarrow> (\<forall>q \<in> set rows. quarantined_ok keys q) \<and> distinct (map stream_message_id rows)"
  using scan_rows_report(3) [of "''stream_message_id''" QUARANTINE_REQUIRED check_quarantined keys
      "map quarantine_fields rows" st]
  by (simp add: verify_quarantine_records_def quarantined_ok_def row_idents comp_def)

text \<open>
  C10: the exit code of the verification.  If the script ends normally it exits
  with 0 exactly if, in both tables, every row is complete, carries a hash, has a
  configured key and verifies under it, and no ID occurs twice; otherwise with 1.
  Every row is counted, and each exactly once as valid, invalid, unverifiable or
  without a baseline.
\<close>

theorem verification_exit_code:
  assumes "resolve_keyring osenv = Inr keys"
    and "op_all_events Y (env w) = (Inr events, e1)" and "op_all_quarantined Y e1 = (Inr quarantined, e2)"
    and "verification_main X Y osenv w = (Inr exit_code, w')"
  shows "exit_code = (if (\<forall>r \<in> set events. event_ok (Keyring keys) r) \<and> distinct (map event_id events) \<and>
      (\<forall>q \<in> set quarantined. quarantined_ok (Keyring keys) q) \<and> distinct (map stream_message_id quarantined)
      then 0 else 1) \<and>
    (\<exists>es qs. verify_audit_events (Keyring keys) events = Inr es \<and> checked es = length events \<and>
       scanned_total es = length events \<and>
       verify_quarantine_records (Keyring keys) quarantined = Inr qs \<and> checked qs = length quarantined \<and>
       scanned_total qs = length quarantined)"
proof -
  obtain es where es: "verify_audit_events (Keyring keys) events = Inr es"
    using assms by (auto simp: verification_main_def io_bind_Inr io_call_def)
  obtain qs where qs: "verify_quarantine_records (Keyring keys) quarantined = Inr qs"
    using assms by (auto simp: verification_main_def io_bind_Inr io_call_def)
  have "exit_code = (if report es \<and> report qs then 0 else 1)"
    using assms es qs by (auto simp: verification_main_def io_bind_Inr io_call_def Let_def split: if_splits)
  moreover have "checked es = length events" "scanned_total es = length events"
    using scan_rows_report(1,2) [OF es [unfolded verify_audit_events_def]] by simp_all
  moreover have "checked qs = length quarantined" "scanned_total qs = length quarantined"
    using scan_rows_report(1,2) [OF qs [unfolded verify_quarantine_records_def]] by simp_all
  ultimately show ?thesis
    using es qs verify_audit_events_report [OF es] verify_quarantine_records_report [OF qs] by auto
qed

section \<open>Tables the worker wrote\<close>

definition written_event :: "config \<Rightarrow> audit_row \<Rightarrow> bool" where
  "written_event cfg r \<longleftrightarrow>
     (\<exists>ev status row d. sink_row cfg ev status = Inr row \<and> stored_as row r \<and>
        in_range (wall (timestamp ev)) \<and> event_context ev = PDict d)"

definition written_quarantined :: "config \<Rightarrow> quarantine_row \<Rightarrow> bool" where
  "written_quarantined cfg q \<longleftrightarrow>
     (\<exists>message_id fs n row. quarantine_sink_row cfg message_id fs n = Inr row \<and> quarantine_stored_as row q)"

lemma missing_event_fields:
  "missing_fields AUDIT_EVENT_REQUIRED (event_fields r) = [] \<longleftrightarrow>
     event_id r \<noteq> [] \<and> service r \<noteq> [] \<and> event_type r \<noteq> [] \<and> action r \<noteq> []"
  by (auto simp: missing_fields_def AUDIT_EVENT_REQUIRED_def event_fields_def dict_get_def)

lemma missing_quarantine_fields:
  "missing_fields QUARANTINE_REQUIRED (quarantine_fields q) = [] \<longleftrightarrow>
     stream_message_id q \<noteq> [] \<and> failure_category q \<noteq> []"
  by (auto simp: missing_fields_def QUARANTINE_REQUIRED_def quarantine_fields_def dict_get_def)

lemma keyring_has_current:
  assumes "resolve_keyring osenv = Inr keys" and "osenv ''AUDIT_RECORD_INTEGRITY_KEY'' = Some key"
    and "osenv ''AUDIT_RECORD_INTEGRITY_KEY_ID'' = Some kid" and "key \<noteq> []" and "kid \<noteq> []"
  shows "map_of keys kid = Some key"
proof -
  have e: "env_value osenv ''AUDIT_RECORD_INTEGRITY_KEY'' = Some key"
    "env_value osenv ''AUDIT_RECORD_INTEGRITY_KEY_ID'' = Some kid"
    using assms(2-5) by (auto simp: env_value_def split: list.splits)
  from assms(1) show ?thesis
    unfolding resolve_keyring_def e Let_def
    by (cases "env_value osenv ''AUDIT_LEGACY_RECORD_VERIFY_KEY''") (auto simp: map_of_dict_set split: if_splits)
qed

lemma written_event_checked:
  assumes "written_event cfg r" and "require_record_integrity_key cfg = Inr (key, kid)" and "map_of keys kid = Some key"
  shows "truthy (dict_get (event_fields r) ''record_integrity_hash'')"
    and "selected_record_key (event_fields r) (Keyring keys) = (Some key, Some kid)"
    and "check_event (event_fields r) key (Some kid) = Inr (True, False)"
proof -
  from assms(1) obtain ev status row d where row: "sink_row cfg ev status = Inr row" "stored_as row r"
    "in_range (wall (timestamp ev))" "event_context ev = PDict d" by (auto simp: written_event_def)
  have v: "verify_audit_event_hash (event_fields r) key (Some kid) = Inr True"
    by (rule sink_row_verifies [OF row(1) assms(2) row(3,4,2)])
  obtain kid' where k': "integrity_key_id row = Some kid'" "require_record_integrity_key cfg = Inr (key, kid')"
    using sink_row_Inr [OF row(1)] assms(2) by (metis Pair_inject sum.inject(2))
  then have kid: "integrity_key_id r = Some kid" using assms(2) row(2) by (auto simp: stored_as_def)
  show "truthy (dict_get (event_fields r) ''record_integrity_hash'')"
    using v by (auto simp: verify_audit_event_hash_def Let_def split: if_splits)
  show "selected_record_key (event_fields r) (Keyring keys) = (Some key, Some kid)"
    using assms(3) kid by (simp add: selected_record_key_def event_fields_get of_opt_def)
  show "check_event (event_fields r) key (Some kid) = Inr (True, False)"
    using v by (simp add: check_event_def)
qed

lemma written_event_ok:
  assumes "written_event cfg r" and "require_record_integrity_key cfg = Inr (key, kid)" and "map_of keys kid = Some key"
    and "event_id r \<noteq> []" and "service r \<noteq> []" and "event_type r \<noteq> []" and "action r \<noteq> []"
  shows "event_ok (Keyring keys) r"
  using written_event_checked [OF assms(1-3)] assms(4-7)
  by (simp add: event_ok_def row_ok_def missing_event_fields)

lemma written_quarantined_ok:
  assumes "written_quarantined cfg q" and "require_record_integrity_key cfg = Inr (key, kid)"
    and "map_of keys kid = Some key" and "stream_message_id q \<noteq> []"
  shows "quarantined_ok (Keyring keys) q"
proof -
  from assms(1) obtain message_id fs n row where row: "quarantine_sink_row cfg message_id fs n = Inr row"
    "quarantine_stored_as row q" by (auto simp: written_quarantined_def)
  have v: "verify_quarantine_record_hash (quarantine_fields q) key (Some kid) = Inr True"
    by (rule quarantine_row_verifies [OF row(1) assms(2) row(2)])
  obtain row0 h where "row = row0\<lparr>q_record_integrity_hash := Some h, q_integrity_key_id := Some kid\<rparr>"
    "classify_poison_reason (map_of fs ''data'') = (failure_category row, q_service row, failure_detail row)"
    using quarantine_sink_row_Inr [OF row(1)] assms(2) by (metis Pair_inject sum.inject(2))
  then have "q_integrity_key_id q = Some kid" "failure_category q \<noteq> []"
    using row(2) by (auto simp: quarantine_stored_as_def classify_poison_reason_def split: option.splits sum.splits pyval.splits)
  moreover have "truthy (dict_get (quarantine_fields q) ''record_integrity_hash'')"
    using v by (auto simp: verify_quarantine_record_hash_def Let_def split: if_splits)
  moreover have "dict_get (quarantine_fields q) ''integrity_key_id'' = of_opt (q_integrity_key_id q)"
    by (simp add: dict_get_def quarantine_fields_def)
  ultimately show ?thesis
    using v assms(3,4)
    by (simp add: quarantined_ok_def row_ok_def missing_quarantine_fields check_quarantined_def
        selected_record_key_def of_opt_def)
qed

lemma written_tables_clean:
  assumes "require_record_integrity_key cfg = Inr (key, kid)"
    and "osenv ''AUDIT_RECORD_INTEGRITY_KEY'' = Some key" and "osenv ''AUDIT_RECORD_INTEGRITY_KEY_ID'' = Some kid"
    and "resolve_keyring osenv = Inr keys"
    and "\<forall>r \<in> set events. written_event cfg r \<and> event_id r \<noteq> [] \<and> service r \<noteq> [] \<and> event_type r \<noteq> [] \<and> action r \<noteq> []"
    and "distinct (map event_id events)"
    and "\<forall>q \<in> set quarantined. written_quarantined cfg q \<and> stream_message_id q \<noteq> []"
    and "distinct (map stream_message_id quarantined)"
  shows "\<exists>es qs. verify_audit_events (Keyring keys) events = Inr es \<and> report es \<and>
    verify_quarantine_records (Keyring keys) quarantined = Inr qs \<and> report qs"
proof -
  have "key \<noteq> []" "kid \<noteq> []"
    using assms(1) by (auto simp: require_record_integrity_key_def split: option.splits if_splits)
  then have k: "map_of keys kid = Some key" using keyring_has_current [OF assms(4,2,3)] by blast
  have e: "\<forall>r \<in> set events. event_ok (Keyring keys) r" using written_event_ok [OF _ assms(1) k] assms(5) by blast
  have q: "\<forall>q \<in> set quarantined. quarantined_ok (Keyring keys) q"
    using written_quarantined_ok [OF _ assms(1) k] assms(7) by blast
  obtain es where es: "verify_audit_events (Keyring keys) events = Inr es"
    using scan_rows_total [of "map event_fields events" AUDIT_EVENT_REQUIRED check_event "Keyring keys" "''event_id''"] e
    unfolding verify_audit_events_def event_ok_def by auto
  obtain qs where qs: "verify_quarantine_records (Keyring keys) quarantined = Inr qs"
    using scan_rows_total [of "map quarantine_fields quarantined" QUARANTINE_REQUIRED check_quarantined
        "Keyring keys" "''stream_message_id''"] q
    unfolding verify_quarantine_records_def quarantined_ok_def by auto
  show ?thesis
    using es qs e q assms(6,8) verify_audit_events_report [OF es] verify_quarantine_records_report [OF qs] by blast
qed

text \<open>Writing the status file, where one is configured, with a clock and files that work.\<close>

definition status_works :: "'e ops \<Rightarrow> 'e script_ops \<Rightarrow> environ \<Rightarrow> bool" where
  "status_works X Y osenv \<longleftrightarrow> env_value osenv ''AUDIT_HEALTH_STATUS_DIR'' = None \<or>
     (\<forall>e. is_ok (fst (op_now X e))) \<and> (\<forall>p t e. is_ok (fst (op_write_text Y p t e))) \<and>
     (\<forall>p q e. is_ok (fst (op_replace_file Y p q e)))"

lemma call_ok: "\<forall>e. is_ok (fst (f e)) \<Longrightarrow> \<exists>x w'. io_call f w = (Inr x, w') \<and> history w' = history w"
  by (cases "f (env w)") (auto simp: io_call_def is_ok_iff dest!: spec [of _ "env w"])

lemma status_written:
  assumes "status_works X Y osenv"
  shows "\<exists>w'. write_verification_status X Y osenv passed es qs w = (Inr (), w') \<and> history w' = history w"
proof (cases "env_value osenv ''AUDIT_HEALTH_STATUS_DIR''")
  case None
  then show ?thesis by (simp add: write_verification_status_def)
next
  case (Some d)
  with assms have ok: "\<forall>e. is_ok (fst (op_now X e))" "\<forall>e. is_ok (fst (op_write_text Y p t e))"
    "\<forall>e. is_ok (fst (op_replace_file Y p q e))" for p t q by (auto simp: status_works_def)
  obtain now w1 where n: "io_call (op_now X) w = (Inr now, w1)" "history w1 = history w"
    using call_ok [OF ok(1)] by blast
  let ?lines = "verification_lines (isoformat ''T'' (DateTime (wall now) (Some 0))) passed es qs"
  obtain w2 where t: "io_call (op_write_text Y (d @ ''/'' @ ''audit-integrity-verification'' @ ''.tmp'') (join nl ?lines @ nl)) w1
      = (Inr (), w2)" "history w2 = history w1"
    using call_ok [OF ok(2), where w = w1] by auto
  obtain w3 where r: "io_call (op_replace_file Y (d @ ''/'' @ ''audit-integrity-verification'' @ ''.tmp'')
      (status_path d ''audit-integrity-verification'')) w2 = (Inr (), w3)" "history w3 = history w2"
    using call_ok [OF ok(3), where w = w2] by auto
  have "write_verification_status X Y osenv passed es qs w = (Inr (), w3)"
    using Some by (simp add: write_verification_status_def replace_text_def Let_def io_bind_step(1) n t r del: append.simps)
  with n t r show ?thesis by simp
qed

lemma written_tables_exit:
  assumes "require_record_integrity_key cfg = Inr (key, kid)"
    and "osenv ''AUDIT_RECORD_INTEGRITY_KEY'' = Some key" and "osenv ''AUDIT_RECORD_INTEGRITY_KEY_ID'' = Some kid"
    and "resolve_keyring osenv = Inr keys" and "is_ok (resolve_session osenv)" and "status_works X Y osenv"
    and "op_all_events Y (env w) = (Inr events, e1)" and "op_all_quarantined Y e1 = (Inr quarantined, e2)"
    and "\<forall>r \<in> set events. written_event cfg r \<and> event_id r \<noteq> [] \<and> service r \<noteq> [] \<and> event_type r \<noteq> [] \<and> action r \<noteq> []"
    and "distinct (map event_id events)"
    and "\<forall>q \<in> set quarantined. written_quarantined cfg q \<and> stream_message_id q \<noteq> []"
    and "distinct (map stream_message_id quarantined)"
  shows "\<exists>w'. verification_main X Y osenv w = (Inr 0, w') \<and> history w' = history w"
proof -
  obtain es qs where s: "verify_audit_events (Keyring keys) events = Inr es" "report es"
    "verify_quarantine_records (Keyring keys) quarantined = Inr qs" "report qs"
    using written_tables_clean [OF assms(1-4,9-12)] by blast
  obtain url where u: "resolve_session osenv = Inr url" using assms(5) by (auto simp: is_ok_iff)
  let ?w1 = "w\<lparr>env := e1\<rparr>"
  let ?w2 = "w\<lparr>env := e2\<rparr>"
  have c: "io_call (op_all_events Y) w = (Inr events, ?w1)" "io_call (op_all_quarantined Y) ?w1 = (Inr quarantined, ?w2)"
    using assms(7,8) by (simp_all add: io_call_def)
  obtain w3 where w: "write_verification_status X Y osenv True es qs ?w2 = (Inr (), w3)" "history w3 = history ?w2"
    using status_written [OF assms(6)] by blast
  have "verification_main X Y osenv w = (Inr 0, w3)"
    by (simp add: verification_main_def assms(4) u io_bind_step(1) c s w(1) Let_def)
  with w(2) show ?thesis by simp
qed


text \<open>A row as the example store keeps it.\<close>

definition verification_osenv :: environ where
  "verification_osenv = [''AUDIT_RECORD_INTEGRITY_KEY'' \<mapsto> ''0123456789abcdef0123456789abcdef'',
     ''AUDIT_RECORD_INTEGRITY_KEY_ID'' \<mapsto> ''key-1'', ''AUDIT_DATABASE_URL'' \<mapsto> ''db'']"

lemma example_keyring:
  "resolve_keyring verification_osenv = Inr [(''key-1'', ''0123456789abcdef0123456789abcdef'')]"
  by code_simp

lemma example_stored:
  assumes "is_ascii a"
  shows "\<exists>row r. sink_row example_config (example_event\<lparr>action := a\<rparr>) ''unsigned'' = Inr row \<and> stored_as row r \<and>
    event_id r = ''e1'' \<and> service r = ''tes'' \<and> event_type r = ''submit'' \<and> action r = a"
proof -
  obtain row where row: "sink_row example_config (example_event\<lparr>action := a\<rparr>) ''unsigned'' = Inr row"
    using example_sink_row_action [OF assms] by blast
  have "\<exists>e'. op_commit_event mem_ops row (mem_init []) = (Inr (), e')" by (simp add: mem_ops_def mem_init_def)
  then obtain r where r: "stored_as row r"
    using mem_store_ok unfolding store_ok_def commits_ok_def by blast
  obtain ts where "audit_event.truncate row = example_event\<lparr>action := a, timestamp := ts\<rparr>"
    using sink_row_Inr [OF row] by metis
  then have "event_id row = ''e1''" "service row = ''tes''" "event_type row = ''submit''" "action row = a"
    by (simp_all add: audit_event.defs example_event_def)
  with r have "event_id r = ''e1''" "service r = ''tes''" "event_type r = ''submit''" "action r = a"
    by (auto simp: stored_as_def)
  with row r show ?thesis by blast
qed

lemma example_written:
  assumes "sink_row example_config (example_event\<lparr>action := a\<rparr>) ''unsigned'' = Inr row" and "stored_as row r"
  shows "written_event example_config r"
  unfolding written_event_def
  by (rule exI [of _ "example_event\<lparr>action := a\<rparr>"])
    (use assms in \<open>auto simp: example_event_def in_range_def max_wall_def usec_day_def usec_def\<close>)

text \<open>A script environment without files: the two tables are fixed.\<close>

definition example_scripts :: "audit_row list \<Rightarrow> quarantine_row list \<Rightarrow> mem script_ops" where
  "example_scripts events quarantined =
     \<lparr>op_all_events = (\<lambda>e. (Inr events, e)), op_all_quarantined = (\<lambda>e. (Inr quarantined, e)),
      op_write_text = (\<lambda>p t e. (Inr (), e)), op_replace_file = (\<lambda>p q e. (Inr (), e))\<rparr>"

text \<open>One row, written and read back, in the table of events.\<close>

lemma example_written_row:
  obtains r where "written_event example_config r" "event_id r \<noteq> []" "service r \<noteq> []" "event_type r \<noteq> []" "action r \<noteq> []"
proof -
  obtain row r where r: "sink_row example_config (example_event\<lparr>action := ''run''\<rparr>) ''unsigned'' = Inr row"
    "stored_as row r" "event_id r = ''e1''" "service r = ''tes''" "event_type r = ''submit''" "action r = ''run''"
    using example_stored [of "''run''"] by (auto simp: code_def)
  show thesis by (rule that [OF example_written [OF r(1,2)]]) (simp_all add: r)
qed

lemma example_environment:
  "verification_osenv ''AUDIT_RECORD_INTEGRITY_KEY'' = Some ''0123456789abcdef0123456789abcdef''"
  "verification_osenv ''AUDIT_RECORD_INTEGRITY_KEY_ID'' = Some ''key-1''"
  "is_ok (resolve_session verification_osenv)" "status_works X Y verification_osenv"
  by (simp_all add: verification_osenv_def resolve_session_def env_value_def status_works_def)


text \<open>
  C22: an event without an action spoils the verification for good.  The envelope
  accepts a payload that has no \<open>action\<close> and stores the empty text; the
  verification counts an empty \<open>action\<close> as a missing required field, so no table
  that holds such a row is ever reported clean.
\<close>

theorem actionless_event_fails_verification:
  assumes "audit_event_init P uuid now d = Inr ev" and "map_of d ''action'' = None"
    and "sink_row cfg ev status = Inr row" and "stored_as row r" and "r \<in> set events"
    and "verify_audit_events keys events = Inr st"
  shows "\<not> report st"
proof -
  have "action ev = []"
    using assms(1,2) by (auto simp: audit_event_init_def get_default_def validate_tenant_scope_def Let_def split: if_splits)
  moreover obtain ts where "audit_event.truncate row = ev\<lparr>timestamp := ts\<rparr>" using sink_row_Inr [OF assms(3)] by metis
  ultimately have "action row = []" by (cases ev) (simp add: audit_event.defs)
  then have "action r = []" using assms(4) by (auto simp: stored_as_def)
  then have "\<not> event_ok keys r" by (simp add: event_ok_def row_ok_def missing_event_fields)
  then show ?thesis using verify_audit_events_report [OF assms(6)] assms(5) by blast
qed

theorem actionless_event_fails_verification_witness:
  "\<exists>ev row r st. audit_event_init strict_pydantic ''u'' (DateTime 0 None)
       [(''event_id'', PStr ''e1''), (''timestamp'', PDatetime (DateTime 63870000000600000 (Some 3600000000))),
        (''service'', PStr ''tes''), (''event_type'', PStr ''submit''), (''user_id'', PStr ''u1''),
        (''organization_id'', PStr ''589''), (''decision'', PStr ''allow''),
        (''context'', PDict [(''b'', PInt 2), (''a'', PInt 1)])] = Inr ev \<and>
     sink_row example_config ev ''unsigned'' = Inr row \<and> stored_as row r \<and>
     verify_audit_events (Keyring [(''key-1'', ''0123456789abcdef0123456789abcdef'')]) [r] = Inr st \<and> \<not> report st"
proof -
  let ?d = "[(''event_id'', PStr ''e1''), (''timestamp'', PDatetime (DateTime 63870000000600000 (Some 3600000000))),
        (''service'', PStr ''tes''), (''event_type'', PStr ''submit''), (''user_id'', PStr ''u1''),
        (''organization_id'', PStr ''589''), (''decision'', PStr ''allow''),
        (''context'', PDict [(''b'', PInt 2), (''a'', PInt 1)])]"
  have ev: "audit_event_init strict_pydantic ''u'' (DateTime 0 None) ?d = Inr (example_event\<lparr>action := []\<rparr>)"
    by (simp add: audit_event_init_def get_default_def get_required_def get_optional_def strict_pydantic_def
        validate_tenant_scope_def example_event_def)
  obtain row r where r: "sink_row example_config (example_event\<lparr>action := []\<rparr>) ''unsigned'' = Inr row" "stored_as row r"
    using example_stored [of "[]"] by auto
  let ?keys = "[(''key-1'', ''0123456789abcdef0123456789abcdef'')]"
  have "map_of ?keys ''key-1'' = Some ''0123456789abcdef0123456789abcdef''" by simp
  note checked = written_event_checked [OF example_written [OF r] example_config_key this]
  have "\<exists>s. scan_row ''event_id'' AUDIT_EVENT_REQUIRED check_event (Keyring ?keys) (event_fields r) (no_stats, []) = Inr s"
    using checked by (simp add: scan_row_def Let_def)
  then obtain st where st: "verify_audit_events (Keyring ?keys) [r] = Inr st"
    by (auto simp: verify_audit_events_def scan_rows_def)
  have "\<not> report st" by (rule actionless_event_fails_verification [OF ev _ r _ st]) simp_all
  with ev r st show ?thesis by blast
qed

theorem verification_exit_code_witness:
  "\<exists>r w' es. verification_main mem_ops (example_scripts [r] []) verification_osenv (world_init (mem_init [])) = (Inr 0, w') \<and>
     event_ok (Keyring [(''key-1'', ''0123456789abcdef0123456789abcdef'')]) r \<and>
     verify_audit_events (Keyring [(''key-1'', ''0123456789abcdef0123456789abcdef'')]) [r] = Inr es \<and>
     checked es = 1 \<and> scanned_total es = 1"
proof -
  obtain r where r: "written_event example_config r" "event_id r \<noteq> []" "service r \<noteq> []" "event_type r \<noteq> []" "action r \<noteq> []"
    by (rule example_written_row)
  let ?w = "world_init (mem_init [])"
  have q: "op_all_events (example_scripts [r] []) (env ?w) = (Inr [r], mem_init [])"
    "op_all_quarantined (example_scripts [r] []) (mem_init []) = (Inr [], mem_init [])"
    by (simp_all add: example_scripts_def world_init_def)
  have "\<exists>w'. verification_main mem_ops (example_scripts [r] []) verification_osenv ?w = (Inr 0, w') \<and> history w' = history ?w"
    by (rule written_tables_exit [OF example_config_key example_environment(1,2) example_keyring example_environment(3,4) q])
      (simp_all add: r)
  then obtain w' where c: "verification_main mem_ops (example_scripts [r] []) verification_osenv ?w = (Inr 0, w')" by blast
  from verification_exit_code [OF example_keyring q c] have
    "event_ok (Keyring [(''key-1'', ''0123456789abcdef0123456789abcdef'')]) r"
    "\<exists>es. verify_audit_events (Keyring [(''key-1'', ''0123456789abcdef0123456789abcdef'')]) [r] = Inr es \<and>
       checked es = 1 \<and> scanned_total es = 1"
    by (auto split: if_splits)
  with c show ?thesis by blast
qed

end
