(* ===== verification/Retention.thy ===== *)
theory Retention
  imports Audit_Query Integrity_Scan
begin

text \<open>
  The append-only tables and the retention clean-up:
  \<open>alembic/versions/0005_retention_immutability.py\<close> (the triggers) and
  \<open>scripts/audit_retention_cleanup.py\<close>.  The tables are explicit; SQL comparison
  of texts goes through the collation of the database, a parameter.  Every call to
  the database may fail at any moment, a failing commit with or without effect:
  which calls fail is a parameter too.
\<close>

section \<open>Tables and triggers\<close>

record tables =
  t_events :: "audit_row list"
  t_quarantined :: "quarantine_row list"
  t_holds :: "legal_hold list"

definition MAINTENANCE_USER :: string where
  "MAINTENANCE_USER = ''audit_maintenance''"

text \<open>\<open>SIGNAL SQLSTATE '45000'\<close>, as the driver reports it.\<close>

definition signal_sqlstate :: "string \<Rightarrow> 'a res" where
  "signal_sqlstate m = raise (SQLAlchemyError ''OperationalError'') m"

definition held :: "collation \<Rightarrow> legal_hold list \<Rightarrow> string \<Rightarrow> string \<Rightarrow> bool" where
  "held col holds table key \<longleftrightarrow>
     list_ex (\<lambda>h. col (record_table h) = col table \<and> col (record_key h) = col key) holds"

text \<open>The two \<open>BEFORE DELETE\<close> triggers; \<open>user\<close> is \<open>USER()\<close>, of the form \<open>name@host\<close>.\<close>

definition trg_no_delete :: "collation \<Rightarrow> string \<Rightarrow> legal_hold list \<Rightarrow> string \<Rightarrow> string \<Rightarrow> unit res" where
  "trg_no_delete col user holds table key =
     (if col (takeWhile (\<lambda>c. c \<noteq> CHR ''@'') user) \<noteq> col MAINTENANCE_USER
      then signal_sqlstate (table @ '' delete requires the audit_maintenance identity'')
      else if held col holds table key
      then signal_sqlstate (table @ '' row is under legal hold, delete denied'')
      else Inr ())"

text \<open>A statement acts on all matching rows or, when a trigger signals, on none.\<close>

definition delete_rows ::
    "collation \<Rightarrow> string \<Rightarrow> legal_hold list \<Rightarrow> string \<Rightarrow> ('r \<Rightarrow> string) \<Rightarrow> ('r \<Rightarrow> bool) \<Rightarrow> 'r list \<Rightarrow> (int \<times> 'r list) res" where
  "delete_rows col user holds table key p rows =
     bind_res (map_res (\<lambda>r. trg_no_delete col user holds table (key r)) (filter p rows)) (\<lambda>_.
     Inr (int (length (filter p rows)), filter (\<lambda>r. \<not> p r) rows))"

definition update_rows :: "string \<Rightarrow> ('r \<Rightarrow> bool) \<Rightarrow> ('r \<Rightarrow> 'r) \<Rightarrow> 'r list \<Rightarrow> 'r list res" where
  "update_rows denial p f rows =
     (if list_ex p rows then signal_sqlstate denial
      else Inr (map (\<lambda>r. if p r then f r else r) rows))"

definition insert_row :: "('r \<Rightarrow> string list) \<Rightarrow> 'r \<Rightarrow> 'r list \<Rightarrow> 'r list res" where
  "insert_row key r rows =
     (if list_ex (\<lambda>x. key x = key r) rows then raise IntegrityError ''Duplicate entry'' else Inr (rows @ [r]))"

datatype sql =
    InsertEvent audit_row
  | InsertQuarantined quarantine_row
  | InsertHold legal_hold
  | UpdateEvents "audit_row \<Rightarrow> bool" "audit_row \<Rightarrow> audit_row"
  | UpdateQuarantined "quarantine_row \<Rightarrow> bool" "quarantine_row \<Rightarrow> quarantine_row"
  | UpdateHolds "legal_hold \<Rightarrow> bool" "legal_hold \<Rightarrow> legal_hold"
  | DeleteEvents "audit_row \<Rightarrow> bool"
  | DeleteQuarantined "quarantine_row \<Rightarrow> bool"
  | DeleteHolds "legal_hold \<Rightarrow> bool"

text \<open>One statement of a user: the tables afterwards, or the error and no change.\<close>

fun execute_sql :: "collation \<Rightarrow> string \<Rightarrow> sql \<Rightarrow> tables \<Rightarrow> tables res" where
  "execute_sql col user (InsertEvent r) t =
     bind_res (insert_row (\<lambda>x. [col (event_id x)]) r (t_events t)) (\<lambda>rs. Inr (t\<lparr>t_events := rs\<rparr>))"
| "execute_sql col user (InsertQuarantined q) t =
     bind_res (insert_row (\<lambda>x. [col (stream_message_id x)]) q (t_quarantined t)) (\<lambda>rs. Inr (t\<lparr>t_quarantined := rs\<rparr>))"
| "execute_sql col user (InsertHold h) t =
     bind_res (insert_row (\<lambda>x. [col (record_table x), col (record_key x)]) h (t_holds t)) (\<lambda>rs. Inr (t\<lparr>t_holds := rs\<rparr>))"
| "execute_sql col user (UpdateEvents p f) t =
     bind_res (update_rows ''audit_events is append-only: UPDATE denied by trigger'' p f (t_events t)) (\<lambda>rs. Inr (t\<lparr>t_events := rs\<rparr>))"
| "execute_sql col user (UpdateQuarantined p f) t =
     bind_res (update_rows ''quarantined_audit_events is append-only: UPDATE denied by trigger'' p f (t_quarantined t)) (\<lambda>rs. Inr (t\<lparr>t_quarantined := rs\<rparr>))"
| "execute_sql col user (UpdateHolds p f) t =
     bind_res (update_rows
       ''audit_legal_holds is append-only: UPDATE denied by trigger -- delete and re-insert instead'' p f (t_holds t)) (\<lambda>rs. Inr (t\<lparr>t_holds := rs\<rparr>))"
| "execute_sql col user (DeleteEvents p) t =
     bind_res (delete_rows col user (t_holds t) ''audit_events'' event_id p (t_events t)) (\<lambda>(n, rs).
     Inr (t\<lparr>t_events := rs\<rparr>))"
| "execute_sql col user (DeleteQuarantined p) t =
     bind_res (delete_rows col user (t_holds t) ''quarantined_audit_events'' stream_message_id p (t_quarantined t)) (\<lambda>(n, rs).
     Inr (t\<lparr>t_quarantined := rs\<rparr>))"
| "execute_sql col user (DeleteHolds p) t = Inr (t\<lparr>t_holds := filter (\<lambda>h. \<not> p h) (t_holds t)\<rparr>)"

section \<open>Connections\<close>

text \<open>
  The committed tables, the tables as the open transaction sees them, and the
  number of database calls so far.  \<open>fault n\<close> is what the \<open>n\<close>-th call raises, if it
  fails, with whether a commit took effect nevertheless.
\<close>

record dbstate =
  stored :: tables
  work :: tables
  calls :: nat

type_synonym faults = "nat \<Rightarrow> (exn \<times> bool) option"
type_synonym 'a dbio = "(dbstate, 'a) st"

definition db_call :: "faults \<Rightarrow> (dbstate \<Rightarrow> 'a res \<times> dbstate) \<Rightarrow> 'a dbio" where
  "db_call fault f d =
     (case fault (calls d) of
        Some (e, _) \<Rightarrow> (Inl e, d\<lparr>calls := calls d + 1\<rparr>)
      | None \<Rightarrow> f (d\<lparr>calls := calls d + 1\<rparr>))"

definition db_connect :: "faults \<Rightarrow> unit dbio" where
  "db_connect fault = db_call fault (\<lambda>d. (Inr (), d\<lparr>work := stored d\<rparr>))"

definition db_commit :: "faults \<Rightarrow> unit dbio" where
  "db_commit fault d =
     (case fault (calls d) of
        Some (e, applied) \<Rightarrow>
          (Inl e, d\<lparr>stored := (if applied then work d else stored d), calls := calls d + 1\<rparr>)
      | None \<Rightarrow> (Inr (), d\<lparr>stored := work d, calls := calls d + 1\<rparr>))"

section \<open>The script\<close>

datatype retention_table = EventsTable | QuarantinedTable

definition RETENTION_TABLES :: "retention_table list" where
  "RETENTION_TABLES = [EventsTable, QuarantinedTable]"

fun table_name :: "retention_table \<Rightarrow> string" where
  "table_name EventsTable = ''audit_events''"
| "table_name QuarantinedTable = ''quarantined_audit_events''"

definition cutoff :: "datetime \<Rightarrow> int \<Rightarrow> datetime res" where
  "cutoff now days =
     (if 999999999 < days then raise OverflowError ''days out of range''
      else mk_datetime (wall now - days * usec_day) (Some 0))"

text \<open>The \<open>WHERE\<close> clause: older than the cutoff, and no legal hold.\<close>

definition eligible ::
    "collation \<Rightarrow> legal_hold list \<Rightarrow> datetime \<Rightarrow> string \<Rightarrow> ('r \<Rightarrow> string) \<Rightarrow> ('r \<Rightarrow> datetime option) \<Rightarrow> 'r \<Rightarrow> bool" where
  "eligible col holds limit table key date r \<longleftrightarrow>
     (case date r of None \<Rightarrow> False | Some t \<Rightarrow> wall t < wall limit) \<and> \<not> held col holds table (key r)"

abbreviation eligible_event :: "collation \<Rightarrow> legal_hold list \<Rightarrow> datetime \<Rightarrow> audit_row \<Rightarrow> bool" where
  "eligible_event col holds limit \<equiv> eligible col holds limit ''audit_events'' event_id (\<lambda>r. Some (timestamp r))"

abbreviation eligible_quarantined :: "collation \<Rightarrow> legal_hold list \<Rightarrow> datetime \<Rightarrow> quarantine_row \<Rightarrow> bool" where
  "eligible_quarantined col holds limit \<equiv>
     eligible col holds limit ''quarantined_audit_events'' stream_message_id quarantined_at"

text \<open>The two statements on the tables of a connection: the number of eligible rows, and their deletion.\<close>

definition select_count :: "collation \<Rightarrow> datetime \<Rightarrow> retention_table \<Rightarrow> tables \<Rightarrow> int" where
  "select_count col limit table t =
     (case table of
        EventsTable \<Rightarrow> int (length (filter (eligible_event col (t_holds t) limit) (t_events t)))
      | QuarantinedTable \<Rightarrow> int (length (filter (eligible_quarantined col (t_holds t) limit) (t_quarantined t))))"

definition delete_from :: "collation \<Rightarrow> string \<Rightarrow> datetime \<Rightarrow> retention_table \<Rightarrow> tables \<Rightarrow> (int \<times> tables) res" where
  "delete_from col user limit table t =
     (case table of
        EventsTable \<Rightarrow>
          bind_res (delete_rows col user (t_holds t) ''audit_events'' event_id
            (eligible_event col (t_holds t) limit) (t_events t)) (\<lambda>(n, rs). Inr (n, t\<lparr>t_events := rs\<rparr>))
      | QuarantinedTable \<Rightarrow>
          bind_res (delete_rows col user (t_holds t) ''quarantined_audit_events'' stream_message_id
            (eligible_quarantined col (t_holds t) limit) (t_quarantined t)) (\<lambda>(n, rs). Inr (n, t\<lparr>t_quarantined := rs\<rparr>)))"

definition count_eligible :: "collation \<Rightarrow> faults \<Rightarrow> retention_table \<Rightarrow> datetime \<Rightarrow> int dbio" where
  "count_eligible col fault table limit = db_call fault (\<lambda>d. (Inr (select_count col limit table (work d)), d))"

definition delete_eligible ::
    "collation \<Rightarrow> string \<Rightarrow> faults \<Rightarrow> retention_table \<Rightarrow> datetime \<Rightarrow> int dbio" where
  "delete_eligible col user fault table limit = db_call fault (\<lambda>d.
     case delete_from col user limit table (work d) of
       Inl e \<Rightarrow> (Inl e, d)
     | Inr (n, t) \<Rightarrow> (Inr n, d\<lparr>work := t\<rparr>))"

datatype table_result = DryRun int | Success int | Partial int int | Failed string

definition clean_table ::
    "collation \<Rightarrow> string \<Rightarrow> faults \<Rightarrow> bool \<Rightarrow> datetime \<Rightarrow> retention_table \<Rightarrow> table_result dbio" where
  "clean_table col user fault execute limit table =
     io_try
       (io_bind (db_connect fault) (\<lambda>_.
        io_bind (count_eligible col fault table limit) (\<lambda>n.
        if \<not> execute then io_return (DryRun n)
        else if n = 0 then io_return (Success 0)
        else
          io_bind (delete_eligible col user fault table limit) (\<lambda>deleted.
          io_bind (db_commit fault) (\<lambda>_.
          io_return (if deleted \<noteq> n then Partial n deleted else Success deleted))))))
       (\<lambda>e. io_return (Failed (type_name (kind e))))"

fun result_status :: "table_result \<Rightarrow> string" where
  "result_status (DryRun n) = ''dry_run''"
| "result_status (Success n) = ''success''"
| "result_status (Partial n m) = ''partial''"
| "result_status (Failed t) = ''failed''"

fun result_ok :: "table_result \<Rightarrow> bool" where
  "result_ok (DryRun n) = True"
| "result_ok (Success n) = True"
| "result_ok (Partial n m) = False"
| "result_ok (Failed t) = False"

fun deleted_count :: "table_result \<Rightarrow> int" where
  "deleted_count (Success n) = n"
| "deleted_count _ = 0"

definition retention_lines :: "string \<Rightarrow> string \<Rightarrow> bool \<Rightarrow> table_result list \<Rightarrow> string list" where
  "retention_lines now mode overall_ok results =
     [''LAST_RETENTION_RUN_TS='' @ now,
      ''LAST_RETENTION_RUN_MODE='' @ mode,
      ''LAST_RETENTION_RUN_RESULT='' @ (if overall_ok then ''success'' else ''failed_or_partial''),
      ''LAST_RETENTION_RUN_DELETED_TOTAL='' @ show_int (sum_list (map deleted_count results))]"

definition write_retention_status ::
    "'e ops \<Rightarrow> 'e script_ops \<Rightarrow> environ \<Rightarrow> string \<Rightarrow> bool \<Rightarrow> table_result list \<Rightarrow> ('e, unit) io" where
  "write_retention_status X Y osenv mode overall_ok results =
     (case env_value osenv ''AUDIT_HEALTH_STATUS_DIR'' of
        None \<Rightarrow> io_return ()
      | Some status_dir \<Rightarrow>
          io_bind (io_call (op_now X)) (\<lambda>now.
          replace_text Y status_dir ''audit-retention-run''
            (retention_lines (isoformat ''T'' (DateTime (wall now) (Some 0))) mode overall_ok results)))"

text \<open>The script acts on the world and on the database.\<close>

definition on_world :: "('e, 'a) io \<Rightarrow> ('e world \<times> dbstate, 'a) st" where
  "on_world m s = (case m (fst s) of (r, w) \<Rightarrow> (r, (w, snd s)))"

definition on_db :: "'a dbio \<Rightarrow> ('e world \<times> dbstate, 'a) st" where
  "on_db m s = (case m (snd s) of (r, d) \<Rightarrow> (r, (fst s, d)))"

definition parse_days :: "string \<Rightarrow> int option" where
  "parse_days raw = (case py_int raw of Inl e \<Rightarrow> None | Inr n \<Rightarrow> (if n \<le> 0 then None else Some n))"

definition retention_main ::
    "'e ops \<Rightarrow> 'e script_ops \<Rightarrow> collation \<Rightarrow> (string \<Rightarrow> string res) \<Rightarrow> faults \<Rightarrow> environ \<Rightarrow> bool \<Rightarrow> bool
      \<Rightarrow> ('e world \<times> dbstate, int) st" where
  "retention_main X Y col create_engine fault osenv execute dry_run =
     (if dry_run \<and> execute then io_lift (raise (SystemExit 2) [])
      else case env_value osenv ''AUDIT_RETENTION_DAYS'' of
        None \<Rightarrow> io_return 0
      | Some raw \<Rightarrow>
          (case parse_days raw of
             None \<Rightarrow> io_return 1
           | Some days \<Rightarrow>
               (case env_value osenv ''AUDIT_MAINTENANCE_DATABASE_URL'' of
                  None \<Rightarrow> io_return 1
                | Some maintenance_url \<Rightarrow>
                    io_bind (on_world (io_call (op_now X))) (\<lambda>now.
                    io_bind (io_lift (cutoff now days)) (\<lambda>limit.
                    io_bind (io_lift (create_engine maintenance_url)) (\<lambda>user.
                    io_bind (io_map (\<lambda>table. on_db (clean_table col user fault execute limit table)) RETENTION_TABLES) (\<lambda>results.
                    let overall_ok = list_all result_ok results;
                        mode = (if execute then ''execute'' else ''dry_run'')
                    in io_bind (on_world (write_retention_status X Y osenv mode overall_ok results)) (\<lambda>_.
                       if overall_ok then io_return 0
                       else
                         io_bind (on_world (emit_alert X osenv ''retention_cleanup_failed''
                            (if list_ex (\<lambda>r. result_status r = ''failed'') results then ''critical'' else ''warning'')
                            ''retention-cleanup'' ''Audit retention cleanup completed with partial or failed results''
                            [(''mode'', PStr mode),
                             (''results'', PDict (map2 (\<lambda>t r. (table_name t, PStr (result_status r))) RETENTION_TABLES results))])) (\<lambda>_.
                         io_return 1)))))))))"

section \<open>The tables under the triggers\<close>

definition is_maintenance :: "collation \<Rightarrow> string \<Rightarrow> bool" where
  "is_maintenance col user \<longleftrightarrow> col (takeWhile (\<lambda>c. c \<noteq> CHR ''@'') user) = col MAINTENANCE_USER"

lemma trg_no_delete_iff:
  "trg_no_delete col user holds table key = Inr u \<longleftrightarrow> is_maintenance col user \<and> \<not> held col holds table key"
  by (auto simp: trg_no_delete_def is_maintenance_def signal_sqlstate_def)

lemma map_res_unit_iff: "(\<exists>us. map_res f xs = Inr us) \<longleftrightarrow> (\<forall>x \<in> set xs. \<exists>u. f x = Inr u)"
  by (induction xs) auto

lemma delete_rows_iff:
  "delete_rows col user holds table key p rows = Inr (n, rs) \<longleftrightarrow>
     n = int (length (filter p rows)) \<and> rs = filter (\<lambda>r. \<not> p r) rows \<and>
     (\<forall>r \<in> set rows. p r \<longrightarrow> is_maintenance col user \<and> \<not> held col holds table (key r))"
  using map_res_unit_iff [of "\<lambda>r. trg_no_delete col user holds table (key r)" "filter p rows"]
  by (auto simp: delete_rows_def trg_no_delete_iff)

lemma update_rows_iff: "update_rows table p f rows = Inr rs \<longleftrightarrow> rs = rows \<and> \<not> list_ex p rows"
proof -
  have "\<not> list_ex p rows \<Longrightarrow> map (\<lambda>r. if p r then f r else r) rows = rows"
    by (induction rows) auto
  then show ?thesis by (auto simp: update_rows_def signal_sqlstate_def)
qed

lemma insert_row_iff: "insert_row key r rows = Inr rs \<longleftrightarrow> rs = rows @ [r] \<and> \<not> list_ex (\<lambda>x. key x = key r) rows"
  by (auto simp: insert_row_def)

lemmas row_iffs = delete_rows_iff update_rows_iff insert_row_iff

text \<open>What the tables can become when only some statements of some users are executed.\<close>

inductive reaches :: "collation \<Rightarrow> (string \<Rightarrow> sql \<Rightarrow> bool) \<Rightarrow> tables \<Rightarrow> tables \<Rightarrow> bool"
  for col and allowed where
  start: "reaches col allowed t t"
| step: "reaches col allowed t u \<Longrightarrow> allowed user stmt \<Longrightarrow> execute_sql col user stmt u = Inr v \<Longrightarrow> reaches col allowed t v"

lemma execute_keeps:
  assumes "execute_sql col user stmt u = Inr v"
  shows "\<lbrakk>r \<in> set (t_events u); r \<notin> set (t_events v)\<rbrakk> \<Longrightarrow>
      is_maintenance col user \<and> \<not> held col (t_holds u) ''audit_events'' (event_id r)"
    and "\<lbrakk>q \<in> set (t_quarantined u); q \<notin> set (t_quarantined v)\<rbrakk> \<Longrightarrow>
      is_maintenance col user \<and> \<not> held col (t_holds u) ''quarantined_audit_events'' (stream_message_id q)"
    and "(\<forall>p. stmt \<noteq> DeleteHolds p) \<Longrightarrow> set (t_holds u) \<subseteq> set (t_holds v)"
  using assms by (cases stmt; auto simp: row_iffs)+

lemma held_mono: "set holds \<subseteq> set holds' \<Longrightarrow> held col holds table key \<Longrightarrow> held col holds' table key"
  by (auto simp: held_def list_ex_iff)

text \<open>
  C3: stored rows are immutable.  Whatever statements anyone executes, a row that is
  in one of the two tables is never changed, and it stays as long as nobody acts as
  the maintenance user; and a row under legal hold stays, whoever acts, as long as
  no hold is released.
\<close>

theorem stored_rows_immutable:
  assumes "reaches col allowed t u"
    and "(\<forall>user stmt. allowed user stmt \<longrightarrow> \<not> is_maintenance col user) \<or>
         (\<forall>user stmt. allowed user stmt \<longrightarrow> (\<forall>p. stmt \<noteq> DeleteHolds p)) \<and>
         (\<forall>r \<in> set es. held col (t_holds t) ''audit_events'' (event_id r)) \<and>
         (\<forall>q \<in> set qs. held col (t_holds t) ''quarantined_audit_events'' (stream_message_id q))"
    and "set es \<subseteq> set (t_events t)" and "set qs \<subseteq> set (t_quarantined t)"
  shows "set es \<subseteq> set (t_events u) \<and> set qs \<subseteq> set (t_quarantined u)"
proof -
  have "set es \<subseteq> set (t_events u) \<and> set qs \<subseteq> set (t_quarantined u) \<and>
      ((\<forall>user stmt. allowed user stmt \<longrightarrow> (\<forall>p. stmt \<noteq> DeleteHolds p)) \<longrightarrow> set (t_holds t) \<subseteq> set (t_holds u))"
    using assms
  proof (induction rule: reaches.induct)
    case (step t u user stmt v)
    then have IH: "set es \<subseteq> set (t_events u)" "set qs \<subseteq> set (t_quarantined u)"
      "(\<forall>user stmt. allowed user stmt \<longrightarrow> (\<forall>p. stmt \<noteq> DeleteHolds p)) \<longrightarrow> set (t_holds t) \<subseteq> set (t_holds u)"
      by blast+
    note k = execute_keeps [OF step.hyps(3)]
    have "r \<in> set (t_events v)" if "r \<in> set es" for r
      using k(1) [of r] that IH(1,3) step.prems(1) step.hyps(2) held_mono [of "t_holds t" "t_holds u"] by blast
    moreover have "q \<in> set (t_quarantined v)" if "q \<in> set qs" for q
      using k(2) [of q] that IH(2,3) step.prems(1) step.hyps(2) held_mono [of "t_holds t" "t_holds u"] by blast
    ultimately show ?case using IH(3) k(3) step.hyps(2) by blast
  qed simp
  then show ?thesis by blast
qed

theorem stored_rows_immutable_witness:
  "let t = \<lparr>t_events = [org_row ''a'' ''589'' 1], t_quarantined = [],
             t_holds = [\<lparr>record_table = ''audit_events'', record_key = ''a'', held_at = None, held_by = None, hold_reason = None\<rparr>]\<rparr>
   in \<exists>u. reaches id (\<lambda>user stmt. \<forall>p. stmt \<noteq> DeleteHolds p) t u \<and>
        t_events u = [org_row ''a'' ''589'' 1, org_row ''b'' ''589'' 2] \<and>
        set [org_row ''a'' ''589'' 1] \<subseteq> set (t_events u)"
proof -
  let ?t = "\<lparr>t_events = [org_row ''a'' ''589'' 1], t_quarantined = [],
             t_holds = [\<lparr>record_table = ''audit_events'', record_key = ''a'', held_at = None, held_by = None, hold_reason = None\<rparr>]\<rparr>"
  let ?u = "?t\<lparr>t_events := [org_row ''a'' ''589'' 1, org_row ''b'' ''589'' 2]\<rparr>"
  have "execute_sql id ''audit_writer@%'' (InsertEvent (org_row ''b'' ''589'' 2)) ?t = Inr ?u"
    by (simp add: insert_row_def org_row_def)
  then have r: "reaches id (\<lambda>user stmt. \<forall>p. stmt \<noteq> DeleteHolds p) ?t ?u"
    by (rule reaches.step [OF reaches.start, rotated]) simp
  have "set [org_row ''a'' ''589'' 1] \<subseteq> set (t_events ?u) \<and> set [] \<subseteq> set (t_quarantined ?u)"
    by (rule stored_rows_immutable [OF r]) (simp_all add: held_def org_row_def)
  with r show ?thesis unfolding Let_def by auto
qed

section \<open>What a run of the clean-up does\<close>

text \<open>The reference: the eligible rows of one table are gone, nothing else has changed.\<close>

definition cleaned :: "collation \<Rightarrow> datetime \<Rightarrow> retention_table \<Rightarrow> tables \<Rightarrow> tables" where
  "cleaned col limit table t =
     (case table of
        EventsTable \<Rightarrow> t\<lparr>t_events := filter (\<lambda>r. \<not> eligible_event col (t_holds t) limit r) (t_events t)\<rparr>
      | QuarantinedTable \<Rightarrow>
          t\<lparr>t_quarantined := filter (\<lambda>q. \<not> eligible_quarantined col (t_holds t) limit q) (t_quarantined t)\<rparr>)"

lemma filter_none: "filter p xs = [] \<Longrightarrow> filter (\<lambda>x. \<not> p x) xs = xs"
  by (induction xs) (auto split: if_splits)

lemma cleaned_none: "select_count col limit table t = 0 \<Longrightarrow> cleaned col limit table t = t"
  by (cases table) (simp_all add: select_count_def cleaned_def filter_none)

lemma delete_from_Inr:
  assumes "delete_from col user limit table t = Inr (n, t')"
  shows "n = select_count col limit table t" and "t' = cleaned col limit table t"
    and "n \<noteq> 0 \<Longrightarrow> is_maintenance col user"
proof -
  have d: "n = select_count col limit table t \<and> t' = cleaned col limit table t \<and> (n \<noteq> 0 \<longrightarrow> is_maintenance col user)"
  proof (cases table)
    case EventsTable
    with assms have "delete_rows col user (t_holds t) ''audit_events'' event_id
        (eligible_event col (t_holds t) limit) (t_events t) = Inr (n, t_events t')" "t' = t\<lparr>t_events := t_events t'\<rparr>"
      by (auto simp: delete_from_def)
    then show ?thesis
      using EventsTable filter_empty_conv [of "eligible_event col (t_holds t) limit" "t_events t"]
      unfolding delete_rows_iff by (auto simp: select_count_def cleaned_def)
  next
    case QuarantinedTable
    with assms have "delete_rows col user (t_holds t) ''quarantined_audit_events'' stream_message_id
        (eligible_quarantined col (t_holds t) limit) (t_quarantined t) = Inr (n, t_quarantined t')"
      "t' = t\<lparr>t_quarantined := t_quarantined t'\<rparr>"
      by (auto simp: delete_from_def)
    then show ?thesis
      using QuarantinedTable filter_empty_conv [of "eligible_quarantined col (t_holds t) limit" "t_quarantined t"]
      unfolding delete_rows_iff by (auto simp: select_count_def cleaned_def)
  qed
  from d show "n = select_count col limit table t" "t' = cleaned col limit table t" "n \<noteq> 0 \<Longrightarrow> is_maintenance col user"
    by blast+
qed

text \<open>One table: it is left alone or cleaned, the latter by the maintenance user only; it is cleaned when the result says so.\<close>

lemma clean_table_outcome:
  assumes "clean_table col user fault execute limit table d = (r, d')"
  shows "\<exists>res. r = Inr res \<and>
    (stored d' = stored d \<or> execute \<and> is_maintenance col user \<and> stored d' = cleaned col limit table (stored d)) \<and>
    (execute \<and> result_ok res \<longrightarrow> stored d' = cleaned col limit table (stored d)) \<and>
    (\<not> execute \<longrightarrow> stored d' = stored d)"
proof -
  let ?k = "calls d" and ?n = "select_count col limit table (stored d)"
  obtain f0 f1 f2 f3 where f: "fault ?k = f0" "fault (Suc ?k) = f1" "fault (Suc (Suc ?k)) = f2"
    "fault (Suc (Suc (Suc ?k))) = f3" by blast
  note defs = clean_table_def io_try_def io_bind_def db_connect_def db_call_def db_commit_def
    count_eligible_def delete_eligible_def f
  consider (err) e where "delete_from col user limit table (stored d) = Inl e"
    | (ok) t where "delete_from col user limit table (stored d) = Inr (?n, t)" "t = cleaned col limit table (stored d)"
        "?n \<noteq> 0 \<Longrightarrow> is_maintenance col user"
    using delete_from_Inr by (metis sum.exhaust surj_pair)
  then show ?thesis
  proof cases
    case err
    show ?thesis
    proof (cases "?n = 0")
      case True
      with assms show ?thesis by (cases f0; cases f1) (auto simp: defs cleaned_none split: if_splits)
    next
      case False
      with err assms show ?thesis by (cases f0; cases f1; cases f2) (auto simp: defs split: if_splits)
    qed
  next
    case ok
    show ?thesis
    proof (cases "?n = 0")
      case True
      with assms show ?thesis by (cases f0; cases f1) (auto simp: defs cleaned_none split: if_splits)
    next
      case False
      with ok(3) have "is_maintenance col user" by blast
      with False ok(1,2) assms show ?thesis
        by (cases f0; cases f1; cases f2; cases f3) (auto simp: defs split: if_splits)
    qed
  qed
qed

text \<open>A script that ends without touching the database, and one that comes to the tables.\<close>

lemma io_bind_outcome:
  "io_bind m f s = (r, s') \<Longrightarrow>
     (\<exists>e. m s = (Inl e, s') \<and> r = Inl e) \<or> (\<exists>x s1. m s = (Inr x, s1) \<and> f x s1 = (r, s'))"
  by (cases "m s") (auto simp: io_bind_def split: sum.splits)

lemma on_world_db: "on_world m s = (r, s') \<Longrightarrow> snd s' = snd s"
  by (auto simp: on_world_def split: prod.splits)

definition clean_tables ::
    "collation \<Rightarrow> string \<Rightarrow> faults \<Rightarrow> bool \<Rightarrow> datetime \<Rightarrow> ('e world \<times> dbstate, table_result list) st" where
  "clean_tables col user fault execute limit =
     io_map (\<lambda>table. on_db (clean_table col user fault execute limit table)) RETENTION_TABLES"

lemma cleaned_holds [simp]: "t_holds (cleaned col limit table t) = t_holds t"
  by (cases table) (simp_all add: cleaned_def)

lemma clean_tables_outcome:
  assumes "clean_tables col user fault execute limit s = (r, s')"
  shows "\<exists>r1 r2 tabs. r = Inr [r1, r2] \<and> fst s' = fst s \<and>
    stored (snd s') = fold (cleaned col limit) tabs (stored (snd s)) \<and> set tabs \<subseteq> set RETENTION_TABLES \<and>
    (tabs \<noteq> [] \<longrightarrow> execute \<and> is_maintenance col user) \<and>
    (execute \<and> result_ok r1 \<and> result_ok r2 \<longrightarrow>
       stored (snd s') = cleaned col limit QuarantinedTable (cleaned col limit EventsTable (stored (snd s))))"
proof -
  obtain x1 d1 where a: "clean_table col user fault execute limit EventsTable (snd s) = (x1, d1)" by fastforce
  obtain x2 d2 where b: "clean_table col user fault execute limit QuarantinedTable d1 = (x2, d2)" by fastforce
  obtain r1 where r1: "x1 = Inr r1"
    "stored d1 = stored (snd s) \<or> execute \<and> is_maintenance col user \<and> stored d1 = cleaned col limit EventsTable (stored (snd s))"
    "execute \<and> result_ok r1 \<longrightarrow> stored d1 = cleaned col limit EventsTable (stored (snd s))"
    using clean_table_outcome [OF a] by blast
  obtain r2 where r2: "x2 = Inr r2"
    "stored d2 = stored d1 \<or> execute \<and> is_maintenance col user \<and> stored d2 = cleaned col limit QuarantinedTable (stored d1)"
    "execute \<and> result_ok r2 \<longrightarrow> stored d2 = cleaned col limit QuarantinedTable (stored d1)"
    using clean_table_outcome [OF b] by blast
  have s': "r = Inr [r1, r2]" "s' = (fst s, d2)"
    using assms a b r1(1) r2(1) by (auto simp: clean_tables_def RETENTION_TABLES_def on_db_def io_bind_def)
  obtain t1 where t1: "stored d1 = fold (cleaned col limit) t1 (stored (snd s))" "set t1 \<subseteq> {EventsTable}"
    "t1 \<noteq> [] \<longrightarrow> execute \<and> is_maintenance col user"
  proof (cases "stored d1 = stored (snd s)")
    case True
    then show ?thesis using that [of "[]"] by simp
  next
    case False
    then show ?thesis using that [of "[EventsTable]"] r1(2) by simp
  qed
  obtain t2 where t2: "stored d2 = fold (cleaned col limit) t2 (stored d1)" "set t2 \<subseteq> {QuarantinedTable}"
    "t2 \<noteq> [] \<longrightarrow> execute \<and> is_maintenance col user"
  proof (cases "stored d2 = stored d1")
    case True
    then show ?thesis using that [of "[]"] by simp
  next
    case False
    then show ?thesis using that [of "[QuarantinedTable]"] r2(2) by simp
  qed
  have tabs: "stored (snd s') = fold (cleaned col limit) (t1 @ t2) (stored (snd s))"
    "set (t1 @ t2) \<subseteq> set RETENTION_TABLES" "t1 @ t2 \<noteq> [] \<longrightarrow> execute \<and> is_maintenance col user"
    using s' t1 t2 by (simp_all add: RETENTION_TABLES_def) auto
  moreover have "execute \<and> result_ok r1 \<and> result_ok r2 \<longrightarrow>
       stored (snd s') = cleaned col limit QuarantinedTable (cleaned col limit EventsTable (stored (snd s)))"
    using s' r1(3) r2(3) by simp
  moreover have "fst s' = fst s" using s' by simp
  ultimately show ?thesis using s'(1) by blast
qed

lemma retention_main_outcome:
  fixes s s' :: "'e world \<times> dbstate"
  assumes "retention_main X Y col create_engine fault osenv execute dry_run s = (r, s')"
  obtains (untouched) "snd s' = snd s"
      "(\<exists>e. r = Inl e) \<or> env_value osenv ''AUDIT_RETENTION_DAYS'' = None \<or> r = Inr 1"
  | (ran) raw days url user now limit results and s1 s2 :: "'e world \<times> dbstate" where
      "\<not> (dry_run \<and> execute)" "env_value osenv ''AUDIT_RETENTION_DAYS'' = Some raw" "parse_days raw = Some days"
      "env_value osenv ''AUDIT_MAINTENANCE_DATABASE_URL'' = Some url" "create_engine url = Inr user"
      "cutoff now days = Inr limit" "snd s1 = snd s" "\<exists>e'. op_now X (env (fst s)) = (Inr now, e')"
      "clean_tables col user fault execute limit s1 = (Inr results, s2)" "snd s' = snd s2"
      "r = Inr 0 \<longrightarrow> list_all result_ok results"
proof -
  consider (both) "dry_run \<and> execute" | (days) "\<not> (dry_run \<and> execute)" "env_value osenv ''AUDIT_RETENTION_DAYS'' = None"
    | (bad) raw where "\<not> (dry_run \<and> execute)" "env_value osenv ''AUDIT_RETENTION_DAYS'' = Some raw" "parse_days raw = None"
    | (url) raw days where "\<not> (dry_run \<and> execute)" "env_value osenv ''AUDIT_RETENTION_DAYS'' = Some raw"
        "parse_days raw = Some days" "env_value osenv ''AUDIT_MAINTENANCE_DATABASE_URL'' = None"
    | (go) raw days url where "\<not> (dry_run \<and> execute)" "env_value osenv ''AUDIT_RETENTION_DAYS'' = Some raw"
        "parse_days raw = Some days" "env_value osenv ''AUDIT_MAINTENANCE_DATABASE_URL'' = Some url"
    by (metis not_None_eq)
  then show ?thesis
  proof cases
    case go
    note main = assms [unfolded retention_main_def clean_tables_def [symmetric]]
    obtain x s1 where now: "on_world (io_call (op_now X)) s = (x, s1)" by (rule prod.exhaust)
    note w = on_world_db [OF now]
    show ?thesis
    proof (cases "(\<exists>now limit user. x = Inr now \<and> cutoff now days = Inr limit \<and> create_engine url = Inr user)")
      case False
      then have "snd s' = snd s \<and> (\<exists>e. r = Inl e)"
        using main go now w
        by (cases x; cases "cutoff (projr x) days"; cases "create_engine url") (auto simp: io_bind_def)
      then show ?thesis using untouched by blast
    next
      case True
      then obtain now' limit user where k: "x = Inr now'" "cutoff now' days = Inr limit" "create_engine url = Inr user"
        by blast
      obtain q s2 where q: "clean_tables col user fault execute limit s1 = (q, s2)" by (rule prod.exhaust)
      then obtain results where res: "q = Inr results" using clean_tables_outcome by blast
      have "snd s' = snd s2 \<and> (r = Inr 0 \<longrightarrow> list_all result_ok results)"
        using main go now k q res
        by (auto simp: io_bind_def on_world_def Let_def split: prod.splits sum.splits if_splits)
      moreover have "\<exists>e'. op_now X (env (fst s)) = (Inr now', e')"
        using now k(1) by (auto simp: on_world_def io_call_def split: prod.splits)
      ultimately show ?thesis using ran [OF go k(3) k(2) w _ q [unfolded res]] by blast
    qed
  qed (use assms untouched in \<open>auto simp: retention_main_def\<close>)
qed

lemma fold_cleaned_holds: "t_holds (fold (cleaned col limit) tabs t) = t_holds t"
  by (induction tabs arbitrary: t) simp_all

lemma cleaned_removes:
  "r \<in> set (t_events t) \<Longrightarrow> r \<notin> set (t_events (cleaned col limit table t)) \<Longrightarrow> eligible_event col (t_holds t) limit r"
  "q \<in> set (t_quarantined t) \<Longrightarrow> q \<notin> set (t_quarantined (cleaned col limit table t)) \<Longrightarrow>
     eligible_quarantined col (t_holds t) limit q"
  by (cases table; auto simp: cleaned_def)+

lemma fold_cleaned_removes:
  "r \<in> set (t_events t) \<Longrightarrow> r \<notin> set (t_events (fold (cleaned col limit) tabs t)) \<Longrightarrow> eligible_event col (t_holds t) limit r"
  "q \<in> set (t_quarantined t) \<Longrightarrow> q \<notin> set (t_quarantined (fold (cleaned col limit) tabs t)) \<Longrightarrow>
     eligible_quarantined col (t_holds t) limit q"
proof (induction tabs arbitrary: t)
  case (Cons table tabs)
  { case 1
    then show ?case
      using Cons.IH(1) [of "cleaned col limit table t"] cleaned_removes(1) [of r t col limit table] by auto
  next
    case 2
    then show ?case
      using Cons.IH(2) [of "cleaned col limit table t"] cleaned_removes(2) [of q t col limit table] by auto }
qed simp_all

text \<open>The age limit, in microseconds: 86400 seconds for each configured day before the clock reading.\<close>

lemma cutoff_wall: "cutoff now days = Inr limit \<Longrightarrow> wall limit = wall now - days * 86400000000"
  by (auto simp: cutoff_def mk_datetime_def usec_day_def usec_def split: if_splits)

lemma eligible_age:
  assumes "cutoff now days = Inr limit"
  shows "eligible_event col holds limit r \<longleftrightarrow>
      wall (timestamp r) < wall now - days * 86400000000 \<and> \<not> held col holds ''audit_events'' (event_id r)"
    and "eligible_quarantined col holds limit q \<longleftrightarrow>
      (\<exists>t. quarantined_at q = Some t \<and> wall t < wall now - days * 86400000000) \<and>
      \<not> held col holds ''quarantined_audit_events'' (stream_message_id q)"
  by (auto simp: eligible_def cutoff_wall [OF assms] split: option.split)

lemma parse_days_positive: "parse_days raw = Some days \<Longrightarrow> 0 < days"
  by (auto simp: parse_days_def split: sum.splits if_splits)

text \<open>
  C28: what the clean-up may remove.  However the run ends and whichever database
  calls fail, the legal holds are as before, and if the committed tables have changed,
  \<open>--execute\<close> was given, the connection was the maintenance user's, and every row that
  is missing was under no hold and more than the configured, positive number of days
  older than the clock reading the run started with.
\<close>

theorem retention_removes_only_eligible:
  assumes "retention_main X Y col create_engine fault osenv execute dry_run (w, d) = (res, (w', d'))"
  shows "t_holds (stored d') = t_holds (stored d) \<and>
    (stored d' = stored d \<or> (\<exists>raw days url user now e'.
       execute \<and> \<not> dry_run \<and> env_value osenv ''AUDIT_RETENTION_DAYS'' = Some raw \<and> parse_days raw = Some days \<and> 0 < days \<and>
       env_value osenv ''AUDIT_MAINTENANCE_DATABASE_URL'' = Some url \<and> create_engine url = Inr user \<and>
       is_maintenance col user \<and> op_now X (env w) = (Inr now, e') \<and>
       (\<forall>r \<in> set (t_events (stored d)) - set (t_events (stored d')).
          wall (timestamp r) < wall now - days * 86400000000 \<and>
          \<not> held col (t_holds (stored d)) ''audit_events'' (event_id r)) \<and>
       (\<forall>q \<in> set (t_quarantined (stored d)) - set (t_quarantined (stored d')).
          (\<exists>t. quarantined_at q = Some t \<and> wall t < wall now - days * 86400000000) \<and>
          \<not> held col (t_holds (stored d)) ''quarantined_audit_events'' (stream_message_id q))))"
  using assms
proof (cases rule: retention_main_outcome)
  case (ran raw days url user now limit results s1 s2)
  obtain tabs where tabs: "stored (snd s2) = fold (cleaned col limit) tabs (stored (snd s1))"
    "tabs \<noteq> [] \<longrightarrow> execute \<and> is_maintenance col user"
    using clean_tables_outcome [OF ran(9)] by blast
  have st: "stored d' = fold (cleaned col limit) tabs (stored d)" using tabs(1) ran(7,10) by simp
  show ?thesis
  proof (cases "tabs = []")
    case False
    then have x: "execute" "is_maintenance col user" "\<not> dry_run" using tabs(2) ran(1) by auto
    have "\<forall>r \<in> set (t_events (stored d)) - set (t_events (stored d')). eligible_event col (t_holds (stored d)) limit r"
      "\<forall>q \<in> set (t_quarantined (stored d)) - set (t_quarantined (stored d')).
          eligible_quarantined col (t_holds (stored d)) limit q"
      using fold_cleaned_removes unfolding st by blast+
    note removed = this [unfolded eligible_age [OF ran(6)]]
    obtain e' where now: "op_now X (env w) = (Inr now, e')" using ran(8) by auto
    have "t_holds (stored d') = t_holds (stored d)" by (simp add: st fold_cleaned_holds)
    with x ran(2-5) parse_days_positive [OF ran(3)] now removed show ?thesis by blast
  qed (use st in simp)
qed simp

text \<open>
  C27: a successful clean-up does exactly its job.  If retention is configured, the
  run was started with \<open>--execute\<close> and the script exits with 0, then the committed
  tables are the old ones without the rows that are under no hold and more than the
  configured number of days older than the clock reading the run started with: the
  run is equivalent to filtering both tables.
\<close>

theorem retention_success_exact:
  assumes "retention_main X Y col create_engine fault osenv True dry_run (w, d) = (Inr 0, (w', d'))"
    and "env_value osenv ''AUDIT_RETENTION_DAYS'' = Some raw"
  shows "\<exists>days now e'. parse_days raw = Some days \<and> 0 < days \<and> op_now X (env w) = (Inr now, e') \<and>
    stored d' = (stored d)
      \<lparr>t_events := filter (\<lambda>r. \<not> (wall (timestamp r) < wall now - days * 86400000000 \<and>
           \<not> held col (t_holds (stored d)) ''audit_events'' (event_id r))) (t_events (stored d)),
       t_quarantined := filter (\<lambda>q. \<not> ((\<exists>t. quarantined_at q = Some t \<and> wall t < wall now - days * 86400000000) \<and>
           \<not> held col (t_holds (stored d)) ''quarantined_audit_events'' (stream_message_id q))) (t_quarantined (stored d))\<rparr>"
  using assms(1)
proof (cases rule: retention_main_outcome)
  case untouched
  with assms(2) show ?thesis by auto
next
  case (ran raw' days url user now limit results s1 s2)
  obtain r1 r2 where r: "results = [r1, r2]" "result_ok r1 \<and> result_ok r2 \<longrightarrow>
       stored (snd s2) = cleaned col limit QuarantinedTable (cleaned col limit EventsTable (stored (snd s1)))"
    using clean_tables_outcome [OF ran(9)] by auto
  then have "stored (snd s2) = cleaned col limit QuarantinedTable (cleaned col limit EventsTable (stored (snd s1)))"
    using ran(11) by simp
  then have "stored d' = cleaned col limit QuarantinedTable (cleaned col limit EventsTable (stored d))"
    using ran(7,10) by simp
  then have "stored d' = (stored d)
      \<lparr>t_events := filter (\<lambda>r. \<not> eligible_event col (t_holds (stored d)) limit r) (t_events (stored d)),
       t_quarantined := filter (\<lambda>q. \<not> eligible_quarantined col (t_holds (stored d)) limit q) (t_quarantined (stored d))\<rparr>"
    by (simp add: cleaned_def)
  note filtered = this [unfolded eligible_age [OF ran(6)]]
  have raw: "raw' = raw" using ran(2) assms(2) by simp
  obtain e' where "op_now X (env w) = (Inr now, e')" using ran(8) by auto
  with filtered ran(3) parse_days_positive [OF ran(3)] show ?thesis unfolding raw by blast
qed

text \<open>An example run: one old row, one old row under hold, one recent row.\<close>

definition retention_osenv :: environ where
  "retention_osenv = [''AUDIT_RETENTION_DAYS'' \<mapsto> ''90'', ''AUDIT_MAINTENANCE_DATABASE_URL'' \<mapsto> ''db'']"

definition retention_tables :: tables where
  "retention_tables =
     \<lparr>t_events = [org_row ''a'' ''589'' 1, org_row ''b'' ''589'' 2, org_row ''c'' ''589'' 63870000000000000],
      t_quarantined = [],
      t_holds = [\<lparr>record_table = ''audit_events'', record_key = ''b'', held_at = None, held_by = None, hold_reason = None\<rparr>]\<rparr>"

definition retention_run :: "int res \<times> (mem world \<times> dbstate)" where
  "retention_run = retention_main mem_ops (example_scripts [] []) id (\<lambda>url. Inr ''audit_maintenance@h'') (\<lambda>n. None)
     retention_osenv True False (world_init (mem_init []), \<lparr>stored = retention_tables, work = retention_tables, calls = 0\<rparr>)"

lemma retention_run_result:
  "\<exists>w' d'. retention_run = (Inr 0, (w', d')) \<and>
     t_events (stored d') = [org_row ''b'' ''589'' 2, org_row ''c'' ''589'' 63870000000000000]"
proof -
  have p: "parse_days ''90'' = Some 90" by code_simp
  have c: "cutoff (DateTime 63870000000000000 None) 90 = Inr (DateTime 63862224000000000 (Some 0))"
    by (simp add: cutoff_def mk_datetime_def in_range_def max_wall_def usec_day_def usec_def)
  have m: "trg_no_delete id ''audit_maintenance@h'' (t_holds retention_tables) ''audit_events'' ''a'' = Inr ()"
    by code_simp
  show ?thesis
    unfolding retention_run_def retention_main_def
    using p c m
    by (simp add: retention_osenv_def env_value_def mem_ops_def world_init_def io_call_def on_world_def on_db_def io_bind_def
        RETENTION_TABLES_def clean_table_def db_connect_def db_call_def db_commit_def count_eligible_def delete_eligible_def
        select_count_def delete_from_def delete_rows_def eligible_def held_def retention_tables_def org_row_def
        io_try_def write_retention_status_def)
qed

theorem retention_removes_only_eligible_witness:
  "\<exists>w' d'. retention_run = (Inr 0, (w', d')) \<and> t_holds (stored d') = t_holds retention_tables \<and>
     org_row ''a'' ''589'' 1 \<notin> set (t_events (stored d')) \<and>
     (\<exists>days. parse_days ''90'' = Some days \<and> wall (timestamp (org_row ''a'' ''589'' 1)) < 63870000000000000 - days * 86400000000)"
proof -
  obtain w' d' where r: "retention_run = (Inr 0, (w', d'))"
    "t_events (stored d') = [org_row ''b'' ''589'' 2, org_row ''c'' ''589'' 63870000000000000]"
    using retention_run_result by blast
  have gone: "org_row ''a'' ''589'' 1 \<in> set (t_events retention_tables) - set (t_events (stored d'))"
    unfolding r(2) by (simp add: retention_tables_def org_row_def)
  note outcome = retention_removes_only_eligible [OF r(1) [unfolded retention_run_def]]
  have "stored d' \<noteq> retention_tables" using gone by auto
  with outcome obtain raw days now e' where o: "env_value retention_osenv ''AUDIT_RETENTION_DAYS'' = Some raw"
    "parse_days raw = Some days" "op_now mem_ops (env (world_init (mem_init []))) = (Inr now, e')"
    "\<forall>r \<in> set (t_events retention_tables) - set (t_events (stored d')). wall (timestamp r) < wall now - days * 86400000000"
    unfolding dbstate.select_convs by blast
  have "raw = ''90''" "wall now = 63870000000000000"
    using o(1,3) by (auto simp: retention_osenv_def env_value_def mem_ops_def)
  with o(2,4) gone have "parse_days ''90'' = Some days"
    "wall (timestamp (org_row ''a'' ''589'' 1)) < 63870000000000000 - days * 86400000000" by auto
  moreover have "t_holds (stored d') = t_holds retention_tables" using conjunct1 [OF outcome] by simp
  ultimately show ?thesis using r(1) gone by blast
qed

theorem retention_success_exact_witness:
  "\<exists>w' d' days. retention_run = (Inr 0, (w', d')) \<and> parse_days ''90'' = Some days \<and>
     t_events (stored d') = filter (\<lambda>r. \<not> (wall (timestamp r) < 63870000000000000 - days * 86400000000 \<and>
       \<not> held id (t_holds retention_tables) ''audit_events'' (event_id r))) (t_events retention_tables) \<and>
     t_events (stored d') = [org_row ''b'' ''589'' 2, org_row ''c'' ''589'' 63870000000000000]"
proof -
  obtain w' d' where r: "retention_run = (Inr 0, (w', d'))"
    "t_events (stored d') = [org_row ''b'' ''589'' 2, org_row ''c'' ''589'' 63870000000000000]"
    using retention_run_result by blast
  have "env_value retention_osenv ''AUDIT_RETENTION_DAYS'' = Some ''90''" by (simp add: retention_osenv_def env_value_def)
  from retention_success_exact [OF r(1) [unfolded retention_run_def] this] obtain days now e' where
    o: "parse_days ''90'' = Some days" "op_now mem_ops (env (world_init (mem_init []))) = (Inr now, e')"
      "t_events (stored d') = filter (\<lambda>r. \<not> (wall (timestamp r) < wall now - days * 86400000000 \<and>
         \<not> held id (t_holds retention_tables) ''audit_events'' (event_id r))) (t_events retention_tables)"
    by auto
  have "wall now = 63870000000000000" using o(2) by (auto simp: mem_ops_def)
  with o r show ?thesis by auto
qed

end
