(* ===== verification/Migrations.thy ===== *)
theory Migrations
  imports Schema Retention
begin

text \<open>
  The six migrations of \<open>alembic/versions\<close>, the tables that \<open>db/models.py\<close> declares, and
  the triggers of migration 0005 as programs.
\<close>

section \<open>Columns\<close>

text \<open>\<open>sa.Column\<close>; a primary key is not nullable.\<close>

definition primary_key_column :: "string \<Rightarrow> sql_type \<Rightarrow> column" where
  "primary_key_column n ty =
     \<lparr>column_name = n, column_type = ty, is_primary_key = True, is_nullable = False, server_default = None\<rparr>"

definition sa_column :: "string \<Rightarrow> sql_type \<Rightarrow> bool \<Rightarrow> sql_default option \<Rightarrow> column" where
  "sa_column n ty nullable dflt =
     \<lparr>column_name = n, column_type = ty, is_primary_key = False, is_nullable = nullable, server_default = dflt\<rparr>"

section \<open>The migrations\<close>

definition upgrade_0001 :: "'s migration_ops \<Rightarrow> ('s, unit) st" where
  "upgrade_0001 B = op_create_table B ''audit_events''
     [primary_key_column ''event_id'' (VarChar 64),
      sa_column ''timestamp'' DateTimeType False None,
      sa_column ''service'' (VarChar 255) False None,
      sa_column ''event_type'' (VarChar 255) False None,
      sa_column ''user_id'' (VarChar 255) True None,
      sa_column ''action'' (VarChar 255) False (Some (DefaultText [])),
      sa_column ''resource'' (VarChar 255) True None,
      sa_column ''decision'' (VarChar 64) True None,
      sa_column ''reason'' TextType True None,
      sa_column ''trace_id'' (VarChar 255) True None,
      sa_column ''context'' JsonType False None,
      sa_column ''created_at'' DateTimeType False (Some DefaultNow)]"

definition downgrade_0001 :: "'s migration_ops \<Rightarrow> ('s, unit) st" where
  "downgrade_0001 B = op_drop_table B ''audit_events''"

definition upgrade_0002 :: "'s migration_ops \<Rightarrow> ('s, unit) st" where
  "upgrade_0002 B = op_add_column B ''audit_events''
     (sa_column ''integrity_status'' (VarChar 16) False (Some (DefaultText ''unsigned'')))"

definition downgrade_0002 :: "'s migration_ops \<Rightarrow> ('s, unit) st" where
  "downgrade_0002 B = op_drop_column B ''audit_events'' ''integrity_status''"

definition upgrade_0003 :: "'s migration_ops \<Rightarrow> ('s, unit) st" where
  "upgrade_0003 B =
     io_bind (op_add_column B ''audit_events'' (sa_column ''organization_id'' (VarChar 255) True None)) (\<lambda>_.
     io_bind (op_add_column B ''audit_events''
       (sa_column ''tenant_scope'' (VarChar 16) False (Some (DefaultText ''unknown'')))) (\<lambda>_.
     op_create_index B ''ix_audit_events_org_timestamp_event'' ''audit_events''
       [''organization_id'', ''timestamp'', ''event_id'']))"

definition downgrade_0003 :: "'s migration_ops \<Rightarrow> ('s, unit) st" where
  "downgrade_0003 B =
     io_bind (op_drop_index B ''ix_audit_events_org_timestamp_event'' ''audit_events'') (\<lambda>_.
     io_bind (op_drop_column B ''audit_events'' ''tenant_scope'') (\<lambda>_.
     op_drop_column B ''audit_events'' ''organization_id''))"

definition upgrade_0004 :: "'s migration_ops \<Rightarrow> ('s, unit) st" where
  "upgrade_0004 B = op_create_table B ''quarantined_audit_events''
     [primary_key_column ''stream_message_id'' (VarChar 64),
      sa_column ''raw_data'' TextType True None,
      sa_column ''raw_signature'' TextType True None,
      sa_column ''service'' (VarChar 255) True None,
      sa_column ''failure_category'' (VarChar 32) False None,
      sa_column ''failure_detail'' (VarChar 255) True None,
      sa_column ''delivery_attempts'' IntegerType False None,
      sa_column ''quarantined_at'' DateTimeType False (Some DefaultNow)]"

definition downgrade_0004 :: "'s migration_ops \<Rightarrow> ('s, unit) st" where
  "downgrade_0004 B = op_drop_table B ''quarantined_audit_events''"

text \<open>The triggers of 0005, in the order of their creation.\<close>

definition retention_triggers :: "trigger list" where
  "retention_triggers =
     [Trigger ''trg_audit_events_no_update'' BeforeUpdate ''audit_events''
        (Signal ''audit_events is append-only: UPDATE denied by trigger''),
      Trigger ''trg_audit_events_no_delete'' BeforeDelete ''audit_events''
        (GuardDelete MAINTENANCE_USER ''audit_events delete requires the audit_maintenance identity''
           ''audit_events'' ''audit_events row is under legal hold, delete denied''),
      Trigger ''trg_quarantined_audit_events_no_update'' BeforeUpdate ''quarantined_audit_events''
        (Signal ''quarantined_audit_events is append-only: UPDATE denied by trigger''),
      Trigger ''trg_quarantined_audit_events_no_delete'' BeforeDelete ''quarantined_audit_events''
        (GuardDelete MAINTENANCE_USER ''quarantined_audit_events delete requires the audit_maintenance identity''
           ''quarantined_audit_events'' ''quarantined_audit_events row is under legal hold, delete denied''),
      Trigger ''trg_audit_legal_holds_no_update'' BeforeUpdate ''audit_legal_holds''
        (Signal ''audit_legal_holds is append-only: UPDATE denied by trigger -- delete and re-insert instead'')]"

definition upgrade_0005 :: "'s migration_ops \<Rightarrow> ('s, unit) st" where
  "upgrade_0005 B =
     io_bind (op_add_column B ''audit_events'' (sa_column ''record_integrity_hash'' (VarChar 64) True None)) (\<lambda>_.
     io_bind (op_add_column B ''quarantined_audit_events''
       (sa_column ''record_integrity_hash'' (VarChar 64) True None)) (\<lambda>_.
     io_bind (op_create_table B ''audit_legal_holds''
       [primary_key_column ''record_table'' (VarChar 32),
        primary_key_column ''record_key'' (VarChar 64),
        sa_column ''held_at'' DateTimeType False (Some DefaultNow),
        sa_column ''held_by'' (VarChar 255) True None,
        sa_column ''reason'' (VarChar 255) True None]) (\<lambda>_.
     io_bind (op_dialect B) (\<lambda>dialect.
     if dialect \<noteq> ''mysql'' then io_return () else io_each (op_create_trigger B) retention_triggers))))"

definition downgrade_0005 :: "'s migration_ops \<Rightarrow> ('s, unit) st" where
  "downgrade_0005 B =
     io_bind (op_dialect B) (\<lambda>dialect.
     io_bind (if dialect = ''mysql''
       then io_each (op_drop_trigger_if_exists B)
         [''trg_audit_legal_holds_no_update'', ''trg_quarantined_audit_events_no_delete'',
          ''trg_quarantined_audit_events_no_update'', ''trg_audit_events_no_delete'', ''trg_audit_events_no_update'']
       else io_return ()) (\<lambda>_.
     io_bind (op_drop_table B ''audit_legal_holds'') (\<lambda>_.
     io_bind (op_drop_column B ''quarantined_audit_events'' ''record_integrity_hash'') (\<lambda>_.
     op_drop_column B ''audit_events'' ''record_integrity_hash''))))"

definition upgrade_0006 :: "'s migration_ops \<Rightarrow> ('s, unit) st" where
  "upgrade_0006 B =
     io_bind (op_add_column B ''audit_events'' (sa_column ''integrity_key_id'' (VarChar 64) True None)) (\<lambda>_.
     op_add_column B ''quarantined_audit_events'' (sa_column ''integrity_key_id'' (VarChar 64) True None))"

definition refuse_versioned :: "'s migration_ops \<Rightarrow> string \<Rightarrow> ('s, unit) st" where
  "refuse_versioned B table =
     io_bind (op_any_not_null B table ''integrity_key_id'') (\<lambda>present.
     if present
     then io_lift (raise RuntimeError (''cannot downgrade while '' @ table @ '' contains versioned integrity records''))
     else io_return ())"

definition downgrade_0006 :: "'s migration_ops \<Rightarrow> ('s, unit) st" where
  "downgrade_0006 B =
     io_bind (io_each (refuse_versioned B) [''audit_events'', ''quarantined_audit_events'']) (\<lambda>_.
     io_bind (op_drop_column B ''quarantined_audit_events'' ''integrity_key_id'') (\<lambda>_.
     op_drop_column B ''audit_events'' ''integrity_key_id''))"

record 's migration =
  revision :: string
  down_revision :: "string option"
  upgrade :: "'s migration_ops \<Rightarrow> ('s, unit) st"
  downgrade :: "'s migration_ops \<Rightarrow> ('s, unit) st"

definition MIGRATIONS :: "'s migration list" where
  "MIGRATIONS =
     [\<lparr>revision = ''0001_audit_events'', down_revision = None,
       upgrade = upgrade_0001, downgrade = downgrade_0001\<rparr>,
      \<lparr>revision = ''0002_integrity_status'', down_revision = Some ''0001_audit_events'',
       upgrade = upgrade_0002, downgrade = downgrade_0002\<rparr>,
      \<lparr>revision = ''0003_tenant_contract'', down_revision = Some ''0002_integrity_status'',
       upgrade = upgrade_0003, downgrade = downgrade_0003\<rparr>,
      \<lparr>revision = ''0004_quarantined_audit_events'', down_revision = Some ''0003_tenant_contract'',
       upgrade = upgrade_0004, downgrade = downgrade_0004\<rparr>,
      \<lparr>revision = ''0005_retention_immutability'', down_revision = Some ''0004_quarantined_audit_events'',
       upgrade = upgrade_0005, downgrade = downgrade_0005\<rparr>,
      \<lparr>revision = ''0006_integrity_key_id'', down_revision = Some ''0005_retention_immutability'',
       upgrade = upgrade_0006, downgrade = downgrade_0006\<rparr>]"

text \<open>All upgrades, each on its predecessor, and all downgrades.\<close>

definition upgrade_head :: "'s migration_ops \<Rightarrow> ('s, unit) st" where
  "upgrade_head B = io_each (\<lambda>m. upgrade m B) MIGRATIONS"

definition downgrade_base :: "'s migration_ops \<Rightarrow> ('s, unit) st" where
  "downgrade_base B = io_each (\<lambda>m. downgrade m B) (rev MIGRATIONS)"

lemma linear_history: "map down_revision MIGRATIONS = None # map (Some \<circ> revision) (butlast MIGRATIONS)"
  by (simp add: MIGRATIONS_def)

section \<open>The tables the models declare\<close>

text \<open>\<open>Base.metadata\<close>; the column defaults of the client are not part of the schema.\<close>

definition audit_event_columns :: "column list" where
  "audit_event_columns =
     [primary_key_column ''event_id'' (VarChar 64),
      sa_column ''timestamp'' DateTimeType False None,
      sa_column ''service'' (VarChar 255) False None,
      sa_column ''event_type'' (VarChar 255) False None,
      sa_column ''user_id'' (VarChar 255) True None,
      sa_column ''organization_id'' (VarChar 255) True None,
      sa_column ''tenant_scope'' (VarChar 16) False (Some (DefaultText ''unknown'')),
      sa_column ''action'' (VarChar 255) False None,
      sa_column ''resource'' (VarChar 255) True None,
      sa_column ''decision'' (VarChar 64) True None,
      sa_column ''reason'' TextType True None,
      sa_column ''trace_id'' (VarChar 255) True None,
      sa_column ''context'' JsonType False None,
      sa_column ''integrity_status'' (VarChar 16) False (Some (DefaultText ''unsigned'')),
      sa_column ''created_at'' DateTimeType False (Some DefaultNow),
      sa_column ''record_integrity_hash'' (VarChar 64) True None,
      sa_column ''integrity_key_id'' (VarChar 64) True None]"

definition quarantined_columns :: "column list" where
  "quarantined_columns =
     [primary_key_column ''stream_message_id'' (VarChar 64),
      sa_column ''raw_data'' TextType True None,
      sa_column ''raw_signature'' TextType True None,
      sa_column ''service'' (VarChar 255) True None,
      sa_column ''failure_category'' (VarChar 32) False None,
      sa_column ''failure_detail'' (VarChar 255) True None,
      sa_column ''delivery_attempts'' IntegerType False None,
      sa_column ''quarantined_at'' DateTimeType False (Some DefaultNow),
      sa_column ''record_integrity_hash'' (VarChar 64) True None,
      sa_column ''integrity_key_id'' (VarChar 64) True None]"

definition legal_hold_columns :: "column list" where
  "legal_hold_columns =
     [primary_key_column ''record_table'' (VarChar 32),
      primary_key_column ''record_key'' (VarChar 64),
      sa_column ''held_at'' DateTimeType False (Some DefaultNow),
      sa_column ''held_by'' (VarChar 255) True None,
      sa_column ''reason'' (VarChar 255) True None]"

definition model_tables :: "(string \<times> column list) list" where
  "model_tables =
     [(''audit_events'', audit_event_columns), (''quarantined_audit_events'', quarantined_columns),
      (''audit_legal_holds'', legal_hold_columns)]"

definition model_indexes :: "(string \<times> string \<times> string list) list" where
  "model_indexes =
     [(''ix_audit_events_org_timestamp_event'', ''audit_events'', [''organization_id'', ''timestamp'', ''event_id''])]"

section \<open>Every backend runs them as the explicit database does\<close>

lemmas migration_defs = upgrade_0001_def upgrade_0002_def upgrade_0003_def upgrade_0004_def upgrade_0005_def
  upgrade_0006_def downgrade_0001_def downgrade_0002_def downgrade_0003_def downgrade_0004_def downgrade_0005_def
  downgrade_0006_def refuse_versioned_def

context ddl_backend begin

lemma simulated_upgrades:
  "simulates V (upgrade_0001 B) (upgrade_0001 database_ops)" "simulates V (upgrade_0002 B) (upgrade_0002 database_ops)"
  "simulates V (upgrade_0003 B) (upgrade_0003 database_ops)" "simulates V (upgrade_0004 B) (upgrade_0004 database_ops)"
  "simulates V (upgrade_0005 B) (upgrade_0005 database_ops)" "simulates V (upgrade_0006 B) (upgrade_0006 database_ops)"
  unfolding migration_defs by (intro simulates_rules simulated_operations)+

lemma simulated_downgrades:
  "simulates V (downgrade_0001 B) (downgrade_0001 database_ops)" "simulates V (downgrade_0002 B) (downgrade_0002 database_ops)"
  "simulates V (downgrade_0003 B) (downgrade_0003 database_ops)" "simulates V (downgrade_0004 B) (downgrade_0004 database_ops)"
  "simulates V (downgrade_0005 B) (downgrade_0005 database_ops)" "simulates V (downgrade_0006 B) (downgrade_0006 database_ops)"
  unfolding migration_defs by (intro simulates_rules simulated_operations)+

lemma simulated_upgrade_head: "simulates V (upgrade_head B) (upgrade_head database_ops)"
  unfolding upgrade_head_def MIGRATIONS_def io_each.simps migration.select_convs
  by (intro simulates_rules simulated_upgrades)

lemma simulated_downgrade_base: "simulates V (downgrade_base B) (downgrade_base database_ops)"
  unfolding downgrade_base_def MIGRATIONS_def rev.simps append.simps io_each.simps migration.select_convs
  by (intro simulates_rules simulated_downgrades)

end

section \<open>Running them from an empty database\<close>

definition empty_database :: "string \<Rightarrow> database" where
  "empty_database dialect = \<lparr>dialect_name = dialect, db_tables = [], db_indexes = [], db_triggers = []\<rparr>"

lemmas explicit_defs = database_ops_def apply_effect_def create_table_def add_column_def create_index_def create_trigger_def
  has_table_def columns_of_def update_table_def extend_table_def backfill_def primary_key_column_def sa_column_def

lemmas run_defs = upgrade_head_def MIGRATIONS_def migration_defs io_bind_def explicit_defs empty_database_def

text \<open>The dialect matters for the triggers only.\<close>

lemma upgraded_dialect:
  "snd (upgrade_head database_ops (empty_database dialect)) =
     (snd (upgrade_head database_ops (empty_database ''mysql'')))
       \<lparr>dialect_name := dialect, db_triggers := (if dialect = ''mysql'' then retention_triggers else [])\<rparr>"
  by (cases "dialect = ''mysql''") (simp_all add: run_defs retention_triggers_def)

lemma upgraded_returns: "fst (upgrade_head database_ops (empty_database dialect)) = Inr ()"
  by (cases "dialect = ''mysql''") (simp_all add: run_defs retention_triggers_def)

definition model_column :: "column \<Rightarrow> column" where
  "model_column c = (if column_name c = ''action'' then c\<lparr>server_default := Some (DefaultText [])\<rparr> else c)"

definition matches_models :: "database \<Rightarrow> bool" where
  "matches_models d \<longleftrightarrow> map fst (db_tables d) = map fst model_tables \<and> db_indexes d = model_indexes \<and>
     list_all (\<lambda>(t, cs). case map_of (db_tables d) t of
         None \<Rightarrow> False
       | Some tab \<Rightarrow> set (table_columns tab) = set (map model_column cs) \<and> table_wf tab) model_tables"

lemma upgraded_matches: "matches_models (snd (upgrade_head database_ops (empty_database ''mysql'')))"
  by code_simp

text \<open>
  C29: the migrations create the schema the models assume.  On every database, if the
  upgrades run from the empty database to the newest revision, the result has exactly
  the tables, the columns with their types, keys, nullability and defaults, and the
  index that \<open>db/models.py\<close> declares (\<open>action\<close> has a default of the server where the
  model has one of the client), every table is empty and well-formed, and the
  triggers are installed exactly on MySQL.
\<close>

theorem migrated_schema_matches_models:
  assumes "ddl_backend B V" and "V s = empty_database dialect" and "upgrade_head B s = (Inr (), s')"
  shows "map fst (db_tables (V s')) = map fst model_tables \<and> db_indexes (V s') = model_indexes \<and>
    db_triggers (V s') = (if dialect = ''mysql'' then retention_triggers else []) \<and>
    (\<forall>(t, cs) \<in> set model_tables. \<exists>tab. map_of (db_tables (V s')) t = Some tab \<and> table_wf tab \<and>
       set (table_columns tab) =
         set (map (\<lambda>c. if column_name c = ''action'' then c\<lparr>server_default := Some (DefaultText [])\<rparr> else c) cs))"
proof -
  have "upgrade_head database_ops (V s) = (Inr (), V s')"
    using ddl_backend.simulated_upgrade_head [OF assms(1)] assms(3) by (simp add: simulates_def)
  then have v: "V s' = (snd (upgrade_head database_ops (empty_database ''mysql'')))
       \<lparr>dialect_name := dialect, db_triggers := (if dialect = ''mysql'' then retention_triggers else [])\<rparr>"
    using upgraded_dialect [of dialect] assms(2) by simp
  have "matches_models (V s')" using upgraded_matches by (simp add: v matches_models_def)
  then have "\<exists>tab. map_of (db_tables (V s')) t = Some tab \<and> table_wf tab \<and> set (table_columns tab) = set (map model_column cs)"
    if x: "(t, cs) \<in> set model_tables" for t cs
    using x by (auto simp: matches_models_def list_all_iff split: option.splits)
  with \<open>matches_models (V s')\<close> v show ?thesis
    unfolding matches_models_def model_column_def by auto
qed

theorem migrated_schema_matches_models_witness:
  "\<exists>d'. upgrade_head database_ops (empty_database ''mysql'') = (Inr (), d') \<and>
     map fst (db_tables d') = [''audit_events'', ''quarantined_audit_events'', ''audit_legal_holds''] \<and>
     db_triggers d' = retention_triggers"
proof -
  obtain d' where d': "upgrade_head database_ops (empty_database ''mysql'') = (Inr (), d')"
    using upgraded_returns [of "''mysql''"] by (metis prod.collapse)
  have "ddl_backend database_ops (\<lambda>d. d)" by (rule explicit.ddl_backend_axioms)
  from migrated_schema_matches_models [OF this HOL.refl d'] d' show ?thesis by (simp add: model_tables_def)
qed

section \<open>Upgrades keep the rows\<close>

text \<open>The values upgrades give existing rows.\<close>

definition BACKFILLED :: "(string \<times> pyval) list" where
  "BACKFILLED = [(''integrity_status'', PStr ''unsigned''), (''organization_id'', PNone), (''tenant_scope'', PStr ''unknown''),
     (''record_integrity_hash'', PNone), (''integrity_key_id'', PNone)]"

definition row_extends :: "pydict \<Rightarrow> pydict \<Rightarrow> bool" where
  "row_extends r r' \<longleftrightarrow> (\<exists>x. r' = r @ x \<and> set x \<subseteq> set BACKFILLED)"

definition rows_extend :: "database \<Rightarrow> database \<Rightarrow> bool" where
  "rows_extend d d' \<longleftrightarrow> (\<forall>t tab. map_of (db_tables d) t = Some tab \<longrightarrow>
     (\<exists>tab'. map_of (db_tables d') t = Some tab' \<and> list_all2 row_extends (table_rows tab) (table_rows tab')))"

lemma row_extends_refl: "row_extends r r"
  by (simp add: row_extends_def)

lemma row_extends_trans: "row_extends a b \<Longrightarrow> row_extends b c \<Longrightarrow> row_extends a c"
  unfolding row_extends_def by force

interpretation re: step_relation rows_extend
proof
  fix u v w
  show "rows_extend w w" by (simp add: rows_extend_def list_all2_refl row_extends_refl)
  assume uv: "rows_extend u v" and vw: "rows_extend v w"
  show "rows_extend u w"
    unfolding rows_extend_def
  proof (intro allI impI)
    fix t tab assume "map_of (db_tables u) t = Some tab"
    then obtain tab1 where 1: "map_of (db_tables v) t = Some tab1" "list_all2 row_extends (table_rows tab) (table_rows tab1)"
      using uv by (auto simp: rows_extend_def)
    then obtain tab2 where 2: "map_of (db_tables w) t = Some tab2" "list_all2 row_extends (table_rows tab1) (table_rows tab2)"
      using vw by (auto simp: rows_extend_def)
    have "list_all2 row_extends (table_rows tab) (table_rows tab2)"
      by (rule list_all2_trans [OF row_extends_trans 1(2) 2(2)])
    with 2(1) show "\<exists>tab'. map_of (db_tables w) t = Some tab' \<and> list_all2 row_extends (table_rows tab) (table_rows tab')"
      by blast
  qed
qed

text \<open>The same relation seen through a backend.\<close>

interpretation rv: step_relation "\<lambda>s s'. rows_extend (V s) (V s')" for V
  by unfold_locales (auto intro: re.R_refl re.R_trans)

lemma keeps_apply_effect: "(\<And>d d'. f d = Inr d' \<Longrightarrow> rows_extend d d') \<Longrightarrow> keeps rows_extend (apply_effect f)"
  by (auto simp: keeps_def apply_effect_def re.R_refl split: sum.split)

lemma rows_extend_same: "db_tables d' = db_tables d \<Longrightarrow> rows_extend d d'"
  using re.R_refl [of d] by (simp add: rows_extend_def)

lemma keeps_create_table: "keeps rows_extend (op_create_table database_ops t cs)"
proof -
  have "rows_extend d d'" if "create_table t cs d = Inr d'" for d d'
    using that by (auto simp: create_table_def operational_error_def rows_extend_def list_all2_refl row_extends_refl split: if_splits)
  then show ?thesis by (simp add: database_ops_def keeps_apply_effect)
qed

lemma keeps_create_index: "keeps rows_extend (op_create_index database_ops i t ks)"
proof -
  have "rows_extend d d'" if "create_index i t ks d = Inr d'" for d d'
    using that by (intro rows_extend_same) (auto simp: create_index_def operational_error_def split: if_splits)
  then show ?thesis by (simp add: database_ops_def keeps_apply_effect)
qed

lemma keeps_create_trigger: "keeps rows_extend (op_create_trigger database_ops tr)"
proof -
  have "rows_extend d d'" if "create_trigger tr d = Inr d'" for d d'
    using that by (intro rows_extend_same) (auto simp: create_trigger_def operational_error_def split: if_splits)
  then show ?thesis by (simp add: database_ops_def keeps_apply_effect)
qed

lemma keeps_add_column:
  assumes "\<And>v. backfill c = Some v \<Longrightarrow> (column_name c, v) \<in> set BACKFILLED"
  shows "keeps rows_extend (op_add_column database_ops t c)"
proof -
  have "rows_extend d d'" if a: "add_column t c d = Inr d'" for d d'
  proof -
    obtain v where v: "backfill c = Some v" "d' = update_table t (extend_table c v) d"
      using a by (auto simp: add_column_def operational_error_def split: if_splits option.splits)
    have "row_extends r (r @ [(column_name c, v)])" for r using assms v(1) by (auto simp: row_extends_def)
    then show ?thesis
      unfolding rows_extend_def v(2) map_of_update_table
      by (auto simp: extend_table_def list_all2_map2 list_all2_refl row_extends_refl)
  qed
  then show ?thesis by (simp add: database_ops_def keeps_apply_effect)
qed

lemma keeps_dialect: "keeps rows_extend (op_dialect database_ops)"
  by (simp add: keeps_def database_ops_def re.R_refl)

context ddl_backend begin

lemma upgrades_keep_rows:
  "keeps (\<lambda>s s'. rows_extend (V s) (V s')) (upgrade_0001 B)" "keeps (\<lambda>s s'. rows_extend (V s) (V s')) (upgrade_0002 B)"
  "keeps (\<lambda>s s'. rows_extend (V s) (V s')) (upgrade_0003 B)" "keeps (\<lambda>s s'. rows_extend (V s) (V s')) (upgrade_0004 B)"
  "keeps (\<lambda>s s'. rows_extend (V s) (V s')) (upgrade_0005 B)" "keeps (\<lambda>s s'. rows_extend (V s) (V s')) (upgrade_0006 B)"
  unfolding migration_defs
  by (intro rv.keeps_rules implements_keeps [OF create_table] implements_keeps [OF add_column] implements_keeps [OF create_index]
      implements_keeps [OF create_trigger] implements_keeps [OF dialect] keeps_create_table keeps_add_column keeps_create_index
      keeps_create_trigger keeps_dialect re.R_refl; simp add: backfill_def sa_column_def BACKFILLED_def split: if_splits)+

end

text \<open>
  C30: upgrades never lose or change data.  Whatever a database holds and wherever an
  upgrade stops, every table that was there is there, with the same rows in the same
  order, each with its old values; what a row gained are the documented values only:
  it counts as unsigned and of unknown tenant, without organization, hash and key ID.
\<close>

theorem upgrades_preserve_rows:
  assumes "ddl_backend B V" and "m \<in> set MIGRATIONS" and "upgrade m B s = (r, s')"
    and "map_of (db_tables (V s)) t = Some tab"
  shows "\<exists>tab'. map_of (db_tables (V s')) t = Some tab' \<and>
    list_all2 (\<lambda>row row'. \<exists>new. row' = row @ new \<and> set new \<subseteq> set BACKFILLED) (table_rows tab) (table_rows tab')"
proof -
  have "keeps (\<lambda>s s'. rows_extend (V s) (V s')) (upgrade m B)"
    using assms(2) ddl_backend.upgrades_keep_rows [OF assms(1)] by (auto simp: MIGRATIONS_def)
  from keepsD [OF this assms(3)] assms(4) show ?thesis unfolding rows_extend_def row_extends_def by blast
qed

section \<open>Downgrades undo upgrades\<close>

lemma io_each_append: "io_each f (xs @ ys) = io_bind (io_each f xs) (\<lambda>_. io_each f ys)"
  by (induction xs) (simp_all add: io_bind_assoc del: io_basic)

lemma io_each_map: "io_each f (map h xs) = io_each (\<lambda>x. f (h x)) xs"
  by (induction xs) simp_all

lemma undoes_each:
  assumes "\<And>x. x \<in> set xs \<Longrightarrow> undoes (f x) (g x)"
  shows "undoes (io_each f xs) (io_each g (rev xs))"
  using assms
proof (induction xs)
  case (Cons x xs)
  have "undoes (io_bind (f x) (\<lambda>_. io_each f xs)) (io_bind (io_each g (rev xs)) (\<lambda>_. g x))"
    using Cons by (intro undoes_seq) simp_all
  moreover have "io_bind (g x) (\<lambda>_. io_return ()) = g x" by (auto simp: io_bind_def fun_eq_iff split: prod.splits sum.splits)
  ultimately show ?case by (simp add: io_each_append)
qed (simp add: undoes_return)

lemma undoes_checked:
  assumes "undoes m m'" and "\<And>d d'. database_wf d \<Longrightarrow> m d = (Inr (), d') \<Longrightarrow> check d' = (Inr (), d')"
  shows "undoes m (io_bind check (\<lambda>_. m'))"
  using assms by (simp add: undoes_def io_bind_def)

lemma undoes_dialect:
  assumes "\<And>x. undoes (f x) (g x)" and "\<And>x d d'. f x d = (Inr (), d') \<Longrightarrow> dialect_name d' = dialect_name d"
  shows "undoes (io_bind (op_dialect database_ops) f) (io_bind (op_dialect database_ops) g)"
  using assms by (simp add: undoes_def io_bind_def database_ops_def)

lemma undo_operations:
  "undoes (op_create_table database_ops t cs) (op_drop_table database_ops t)"
  "column_name c = k \<Longrightarrow> undoes (op_add_column database_ops t c) (op_drop_column database_ops t k)"
  "undoes (op_create_index database_ops i t ks) (op_drop_index database_ops i t)"
  "undoes (op_create_trigger database_ops tr) (op_drop_trigger_if_exists database_ops (trigger_name tr))"
  by (auto simp: database_ops_def intro: create_drop_table add_drop_column create_drop_index create_drop_trigger)

lemma undoes_0003: "undoes (upgrade_0003 database_ops) (downgrade_0003 database_ops)"
proof -
  have "undoes (upgrade_0003 database_ops)
      (io_bind (io_bind (op_drop_index database_ops ''ix_audit_events_org_timestamp_event'' ''audit_events'')
         (\<lambda>_. op_drop_column database_ops ''audit_events'' ''tenant_scope''))
         (\<lambda>_. op_drop_column database_ops ''audit_events'' ''organization_id''))"
    unfolding upgrade_0003_def by (intro undoes_seq undo_operations) (simp_all add: sa_column_def)
  then show ?thesis by (simp only: downgrade_0003_def io_bind_assoc)
qed

lemma create_triggers_dialect:
  "io_each (op_create_trigger database_ops) trs d = (Inr (), d') \<Longrightarrow> dialect_name d' = dialect_name d"
  by (induction trs arbitrary: d)
    (auto simp: io_bind_Inr database_ops_def apply_effect_def create_trigger_def operational_error_def split: sum.splits if_splits)

lemma undoes_triggers:
  "undoes (io_bind (op_dialect database_ops) (\<lambda>dialect.
       if dialect \<noteq> ''mysql'' then io_return () else io_each (op_create_trigger database_ops) retention_triggers))
     (io_bind (op_dialect database_ops) (\<lambda>dialect.
       if dialect = ''mysql'' then io_each (op_drop_trigger_if_exists database_ops)
         [''trg_audit_legal_holds_no_update'', ''trg_quarantined_audit_events_no_delete'',
          ''trg_quarantined_audit_events_no_update'', ''trg_audit_events_no_delete'', ''trg_audit_events_no_update'']
       else io_return ()))"
proof (rule undoes_dialect)
  have "undoes (io_each (op_create_trigger database_ops) retention_triggers)
      (io_each (\<lambda>tr. op_drop_trigger_if_exists database_ops (trigger_name tr)) (rev retention_triggers))"
    by (intro undoes_each undo_operations)
  then have "undoes (io_each (op_create_trigger database_ops) retention_triggers)
      (io_each (op_drop_trigger_if_exists database_ops) (map trigger_name (rev retention_triggers)))"
    by (simp only: io_each_map)
  then show "undoes (if x \<noteq> ''mysql'' then io_return () else io_each (op_create_trigger database_ops) retention_triggers)
     (if x = ''mysql'' then io_each (op_drop_trigger_if_exists database_ops)
         [''trg_audit_legal_holds_no_update'', ''trg_quarantined_audit_events_no_delete'',
          ''trg_quarantined_audit_events_no_update'', ''trg_audit_events_no_delete'', ''trg_audit_events_no_update'']
       else io_return ())" for x
    by (simp add: undoes_return retention_triggers_def del: io_each.simps)
  show "dialect_name d' = dialect_name d"
    if "(if x \<noteq> ''mysql'' then io_return () else io_each (op_create_trigger database_ops) retention_triggers) d = (Inr (), d')"
    for x d d'
    using that by (auto dest: create_triggers_dialect split: if_splits)
qed

lemma undoes_0005: "undoes (upgrade_0005 database_ops) (downgrade_0005 database_ops)"
proof -
  have "undoes (upgrade_0005 database_ops)
     (io_bind (io_bind (io_bind
       (io_bind (op_dialect database_ops) (\<lambda>dialect.
         if dialect = ''mysql'' then io_each (op_drop_trigger_if_exists database_ops)
           [''trg_audit_legal_holds_no_update'', ''trg_quarantined_audit_events_no_delete'',
            ''trg_quarantined_audit_events_no_update'', ''trg_audit_events_no_delete'', ''trg_audit_events_no_update'']
         else io_return ()))
       (\<lambda>_. op_drop_table database_ops ''audit_legal_holds''))
       (\<lambda>_. op_drop_column database_ops ''quarantined_audit_events'' ''record_integrity_hash''))
       (\<lambda>_. op_drop_column database_ops ''audit_events'' ''record_integrity_hash''))"
    unfolding upgrade_0005_def by (intro undoes_seq undo_operations undoes_triggers) (simp_all add: sa_column_def)
  then show ?thesis by (simp only: downgrade_0005_def io_bind_assoc)
qed

lemma add_column_Inr:
  assumes "add_column t c d = Inr d'"
  obtains v tab where "backfill c = Some v" "d' = update_table t (extend_table c v) d"
    "map_of (db_tables d) t = Some tab" "column_name c \<notin> set (map column_name (table_columns tab))"
proof -
  have h: "has_table t d" "column_name c \<notin> set (columns_of t d)"
    and v: "\<exists>v. backfill c = Some v \<and> d' = update_table t (extend_table c v) d"
    using assms by (auto simp: add_column_def operational_error_def split: if_splits option.splits)
  obtain tab where "map_of (db_tables d) t = Some tab" using h(1) by (auto simp: has_table_def dest: weak_map_of_SomeI)
  with h(2) v that show thesis by (auto simp: columns_of_def)
qed

lemma added_column_null:
  assumes "database_wf d" and "add_column t c d = Inr d'" and "backfill c = Some PNone"
  shows "any_not_null t (column_name c) d' = Inr False"
proof -
  obtain tab where d': "d' = update_table t (extend_table c PNone) d" and tab: "map_of (db_tables d) t = Some tab"
    and n: "column_name c \<notin> set (map column_name (table_columns tab))"
    using assms(2,3) by (auto elim: add_column_Inr)
  have "table_wf tab" using assms(1) tab by (auto simp: database_wf_def list_all_iff dest: map_of_SomeD)
  then have "column_name c \<notin> fst ` set r" if "r \<in> set (table_rows tab)" for r
    using that n by (metis (mono_tags, lifting) list.set_map list_all_iff table_wf_def)
  then have "dict_get (r @ [(column_name c, PNone)]) (column_name c) = PNone" if "r \<in> set (table_rows tab)" for r
    using that by (force simp: dict_get_def map_add_def split: option.split dest: map_of_SomeD)
  with tab show ?thesis
    by (auto simp: any_not_null_def d' columns_of_update map_of_update_table extend_table_def list_ex_iff)
qed

lemma any_not_null_other:
  "add_column t c d = Inr d' \<Longrightarrow> t' \<noteq> t \<Longrightarrow> any_not_null t' k d' = any_not_null t' k d"
  by (auto elim!: add_column_Inr simp: any_not_null_def columns_of_update map_of_update_table option.map_id0 option.map_ident
      split: option.split)

lemma undoes_0006: "undoes (upgrade_0006 database_ops) (downgrade_0006 database_ops)"
proof -
  let ?c = "sa_column ''integrity_key_id'' (VarChar 64) True None"
  have "undoes (upgrade_0006 database_ops)
      (io_bind (op_drop_column database_ops ''quarantined_audit_events'' ''integrity_key_id'')
         (\<lambda>_. op_drop_column database_ops ''audit_events'' ''integrity_key_id''))"
    unfolding upgrade_0006_def by (intro undoes_seq undo_operations) (simp_all add: sa_column_def)
  then show ?thesis
    unfolding downgrade_0006_def
  proof (rule undoes_checked)
    fix d d'
    assume wf: "database_wf d" and u: "upgrade_0006 database_ops d = (Inr (), d')"
    have eff: "apply_effect f e = (Inr (), e') \<longleftrightarrow> f e = Inr e'" for f and e e' :: database
      by (simp add: apply_effect_def split: sum.split)
    from u obtain d1 where 1: "add_column ''audit_events'' ?c d = Inr d1" and 2: "add_column ''quarantined_audit_events'' ?c d1 = Inr d'"
      by (auto simp: upgrade_0006_def io_bind_Inr database_ops_def eff)
    have wf1: "database_wf d1"
      using undo_operations(2) [of ?c _ "''audit_events''"] wf 1 by (simp add: undoes_def database_ops_def eff)
    have b: "backfill ?c = Some PNone" "column_name ?c = ''integrity_key_id''" by (simp_all add: backfill_def sa_column_def)
    have "any_not_null ''audit_events'' ''integrity_key_id'' d' = Inr False"
      using added_column_null [OF wf 1 b(1)] any_not_null_other [OF 2, of "''audit_events''"] b(2) by simp
    moreover have "any_not_null ''quarantined_audit_events'' ''integrity_key_id'' d' = Inr False"
      using added_column_null [OF wf1 2 b(1)] b(2) by simp
    ultimately show "io_each (refuse_versioned database_ops) [''audit_events'', ''quarantined_audit_events''] d' = (Inr (), d')"
      by (simp add: refuse_versioned_def database_ops_def io_bind_def)
  qed
qed

lemma undoes_migration:
  assumes "m \<in> set MIGRATIONS"
  shows "undoes (upgrade m database_ops) (downgrade m database_ops)"
proof -
  have "undoes (upgrade_0001 database_ops) (downgrade_0001 database_ops)" "undoes (upgrade_0002 database_ops) (downgrade_0002 database_ops)"
    "undoes (upgrade_0004 database_ops) (downgrade_0004 database_ops)"
    unfolding migration_defs by (intro undo_operations; simp add: sa_column_def)+
  with undoes_0003 undoes_0005 undoes_0006 assms show ?thesis by (auto simp: MIGRATIONS_def)
qed

text \<open>
  C31: every downgrade takes its upgrade back.  On every database, after an upgrade of
  a well-formed database to any of the six revisions, the downgrade of that revision
  is not refused, and if it returns the database is what it was before, with all
  tables, rows, indexes and triggers.
\<close>

theorem downgrade_inverts_upgrade:
  assumes "ddl_backend B V" and "i < length (MIGRATIONS :: 's migration list)" and "database_wf (V s)"
    and "upgrade ((MIGRATIONS :: 's migration list) ! i) B s = (Inr (), s')"
    and "downgrade (MIGRATIONS ! i) B s' = (r, s'')"
  shows "downgrade (MIGRATIONS ! i) database_ops (V s') = (Inr (), V s) \<and> (r = Inr () \<longrightarrow> V s'' = V s)"
proof -
  have l: "length (MIGRATIONS :: 's migration list) = 6" "length (MIGRATIONS :: database migration list) = 6"
    by (simp_all add: MIGRATIONS_def)
  have i: "i \<in> {0, 1, 2, 3, 4, 5}" using assms(2) l by auto
  note sims = ddl_backend.simulated_upgrades [OF assms(1)] ddl_backend.simulated_downgrades [OF assms(1)]
  have u: "simulates V (upgrade (MIGRATIONS ! i) B) (upgrade (MIGRATIONS ! i) database_ops)"
    and d: "simulates V (downgrade (MIGRATIONS ! i) B) (downgrade (MIGRATIONS ! i) database_ops)"
    using i sims by (auto simp: MIGRATIONS_def)
  have "undoes (upgrade (MIGRATIONS ! i) database_ops) (downgrade (MIGRATIONS ! i) database_ops)"
    using assms(2) l by (intro undoes_migration nth_mem) simp
  moreover have "upgrade (MIGRATIONS ! i) database_ops (V s) = (Inr (), V s')"
    using u assms(4) by (simp add: simulates_def)
  ultimately have g: "downgrade (MIGRATIONS ! i) database_ops (V s') = (Inr (), V s)"
    using assms(3) by (simp add: undoes_def)
  moreover have "downgrade (MIGRATIONS ! i) database_ops (V s') = (Inr (), V s'')" if "r = Inr ()"
    using d assms(5) that by (simp add: simulates_def)
  ultimately show ?thesis by auto
qed

lemma refuse_keeps:
  assumes "ddl_backend B V" and "refuse_versioned B t s = (r, s')"
  shows "V s' = V s"
proof -
  obtain x s1 where x: "op_any_not_null B t ''integrity_key_id'' s = (x, s1)" by (rule prod.exhaust)
  have "implements V (op_any_not_null B t ''integrity_key_id'') (op_any_not_null database_ops t ''integrity_key_id'')"
    by (rule ddl_backend.any_not_null [OF assms(1)])
  then have "V s1 = V s" using x by (cases x) (auto simp: implements_def simulates_def database_ops_def)
  moreover have "s' = s1" using assms(2) x by (cases x) (auto simp: refuse_versioned_def io_bind_def split: if_splits)
  ultimately show ?thesis by simp
qed

text \<open>
  C32: key IDs are not thrown away.  While some row of either table names the key of
  its hash, the downgrade of the newest revision raises and changes nothing; so it
  does from the first row on that the worker wrote, since every such row has a key ID.
\<close>

theorem versioned_rows_block_downgrade:
  assumes "ddl_backend B V" and "downgrade_0006 B s = (r, s')"
    and "t = ''audit_events'' \<or> t = ''quarantined_audit_events''" and "map_of (db_tables (V s)) t = Some tab"
    and "row \<in> set (table_rows tab)" and "dict_get row ''integrity_key_id'' \<noteq> PNone"
  shows "(\<exists>e. r = Inl e) \<and> V s' = V s"
proof -
  let ?check = "\<lambda>B. io_each (refuse_versioned B) [''audit_events'', ''quarantined_audit_events'']"
  obtain x s1 where x: "?check B s = (x, s1)" by (rule prod.exhaust)
  have sim: "simulates V (?check B) (?check database_ops)"
    unfolding refuse_versioned_def
    by (intro simulates_rules ddl_backend.simulated_operations [OF assms(1)])
  have "x \<noteq> Inr ()"
  proof
    assume "x = Inr ()"
    with sim x have "?check database_ops (V s) = (Inr (), V s1)" by (simp add: simulates_def)
    then have "any_not_null t ''integrity_key_id'' (V s) = Inr False"
      using assms(3) by (auto simp: refuse_versioned_def database_ops_def io_bind_Inr split: if_splits)
    then show False using assms(4-6) by (auto simp: any_not_null_def operational_error_def list_ex_iff split: if_splits)
  qed
  moreover have "V s1 = V s"
  proof -
    have s: "step_relation (\<lambda>s s'. V s' = V s)" by unfold_locales auto
    have "keeps (\<lambda>s s'. V s' = V s) (refuse_versioned B t)" for t
      using refuse_keeps [OF assms(1)] unfolding keeps_def by (metis prod.collapse)
    then have "keeps (\<lambda>s s'. V s' = V s) (?check B)" by (rule step_relation.keeps_each [OF s])
    then show ?thesis using x by (rule keepsD)
  qed
  ultimately show ?thesis
    using assms(2) x by (cases x) (auto simp: downgrade_0006_def io_bind_def)
qed

lemma written_rows_versioned:
  "sink_row cfg ev status = Inr row \<Longrightarrow> dict_get (event_fields row) ''integrity_key_id'' \<noteq> PNone"
  "quarantine_sink_row cfg i fs n = Inr q \<Longrightarrow> dict_get (quarantine_fields q) ''integrity_key_id'' \<noteq> PNone"
  by (auto simp: sink_row_def Let_def event_fields_def dict_get_def of_opt_def)
    (auto elim!: quarantine_sink_row_Inr simp: quarantine_fields_def dict_get_def of_opt_def)

section \<open>The installed triggers are the ones the tables rely on\<close>

fun run_body :: "collation \<Rightarrow> string \<Rightarrow> legal_hold list \<Rightarrow> string \<Rightarrow> trigger_body \<Rightarrow> unit res" where
  "run_body col user holds key (Signal m) = signal_sqlstate m"
| "run_body col user holds key (GuardDelete maintenance denial table denial_held) =
     (if col (takeWhile (\<lambda>c. c \<noteq> CHR ''@'') user) \<noteq> col maintenance then signal_sqlstate denial
      else if held col holds table key then signal_sqlstate denial_held
      else Inr ())"

text \<open>The triggers of a table for an event, on one row; the first that signals ends the statement.\<close>

definition fire :: "trigger list \<Rightarrow> trigger_event \<Rightarrow> string \<Rightarrow> collation \<Rightarrow> string \<Rightarrow> legal_hold list \<Rightarrow> string \<Rightarrow> unit res" where
  "fire trs ev table col user holds key =
     fold_res (\<lambda>tr _. run_body col user holds key (trigger_body tr))
       (filter (\<lambda>tr. trigger_event tr = ev \<and> trigger_table tr = table) trs) ()"

definition fire_all ::
    "trigger list \<Rightarrow> trigger_event \<Rightarrow> string \<Rightarrow> collation \<Rightarrow> string \<Rightarrow> legal_hold list \<Rightarrow> ('r \<Rightarrow> string) \<Rightarrow> 'r list \<Rightarrow> unit list res" where
  "fire_all trs ev table col user holds key rows = map_res (\<lambda>r. fire trs ev table col user holds (key r)) rows"

text \<open>A statement under a list of triggers.\<close>

fun triggered_sql :: "trigger list \<Rightarrow> collation \<Rightarrow> string \<Rightarrow> sql \<Rightarrow> tables \<Rightarrow> tables res" where
  "triggered_sql trs col user (UpdateEvents p f) t =
     bind_res (fire_all trs BeforeUpdate ''audit_events'' col user (t_holds t) event_id (filter p (t_events t))) (\<lambda>_.
     Inr (t\<lparr>t_events := map (\<lambda>r. if p r then f r else r) (t_events t)\<rparr>))"
| "triggered_sql trs col user (UpdateQuarantined p f) t =
     bind_res (fire_all trs BeforeUpdate ''quarantined_audit_events'' col user (t_holds t) stream_message_id
       (filter p (t_quarantined t))) (\<lambda>_.
     Inr (t\<lparr>t_quarantined := map (\<lambda>r. if p r then f r else r) (t_quarantined t)\<rparr>))"
| "triggered_sql trs col user (UpdateHolds p f) t =
     bind_res (fire_all trs BeforeUpdate ''audit_legal_holds'' col user (t_holds t) record_key (filter p (t_holds t))) (\<lambda>_.
     Inr (t\<lparr>t_holds := map (\<lambda>r. if p r then f r else r) (t_holds t)\<rparr>))"
| "triggered_sql trs col user (DeleteEvents p) t =
     bind_res (fire_all trs BeforeDelete ''audit_events'' col user (t_holds t) event_id (filter p (t_events t))) (\<lambda>_.
     Inr (t\<lparr>t_events := filter (\<lambda>r. \<not> p r) (t_events t)\<rparr>))"
| "triggered_sql trs col user (DeleteQuarantined p) t =
     bind_res (fire_all trs BeforeDelete ''quarantined_audit_events'' col user (t_holds t) stream_message_id
       (filter p (t_quarantined t))) (\<lambda>_.
     Inr (t\<lparr>t_quarantined := filter (\<lambda>r. \<not> p r) (t_quarantined t)\<rparr>))"
| "triggered_sql trs col user (DeleteHolds p) t =
     bind_res (fire_all trs BeforeDelete ''audit_legal_holds'' col user (t_holds t) record_key (filter p (t_holds t))) (\<lambda>_.
     Inr (t\<lparr>t_holds := filter (\<lambda>h. \<not> p h) (t_holds t)\<rparr>))"
| "triggered_sql trs col user stmt t = execute_sql col user stmt t"

lemma fire_retention:
  "fire retention_triggers BeforeUpdate ''audit_events'' col user holds key =
     signal_sqlstate ''audit_events is append-only: UPDATE denied by trigger''"
  "fire retention_triggers BeforeUpdate ''quarantined_audit_events'' col user holds key =
     signal_sqlstate ''quarantined_audit_events is append-only: UPDATE denied by trigger''"
  "fire retention_triggers BeforeUpdate ''audit_legal_holds'' col user holds key =
     signal_sqlstate ''audit_legal_holds is append-only: UPDATE denied by trigger -- delete and re-insert instead''"
  "fire retention_triggers BeforeDelete ''audit_events'' col user holds key = trg_no_delete col user holds ''audit_events'' key"
  "fire retention_triggers BeforeDelete ''quarantined_audit_events'' col user holds key =
     trg_no_delete col user holds ''quarantined_audit_events'' key"
  "fire retention_triggers BeforeDelete ''audit_legal_holds'' col user holds key = Inr ()"
  by (simp_all add: fire_def retention_triggers_def trg_no_delete_def signal_sqlstate_def)

lemma denied_rows:
  "bind_res (map_res (\<lambda>r. signal_sqlstate m :: unit res) (filter p rows)) (\<lambda>_. Inr (g (map (\<lambda>r. if p r then f r else r) rows))) =
     bind_res (update_rows m p f rows) (\<lambda>rs. Inr (g rs))"
proof (cases "filter p rows")
  case Nil
  then have "\<not> list_ex p rows" by (simp add: list_ex_iff filter_empty_conv)
  with Nil show ?thesis by (simp add: update_rows_def)
next
  case (Cons r rs)
  then have "r \<in> set (filter p rows)" by simp
  then have "list_ex p rows" by (auto simp: list_ex_iff)
  with Cons show ?thesis by (simp add: update_rows_def signal_sqlstate_def)
qed

lemma map_res_unit: "map_res (\<lambda>r. Inr ()) rows = Inr (map (\<lambda>r. ()) rows)"
  by (induction rows) simp_all

lemma triggered_retention: "triggered_sql retention_triggers col user stmt t = execute_sql col user stmt t"
proof (cases stmt)
  case (UpdateEvents p f)
  then show ?thesis using denied_rows [where g = "\<lambda>rs. t\<lparr>t_events := rs\<rparr>"] by (simp add: fire_all_def fire_retention)
next
  case (UpdateQuarantined p f)
  then show ?thesis using denied_rows [where g = "\<lambda>rs. t\<lparr>t_quarantined := rs\<rparr>"] by (simp add: fire_all_def fire_retention)
next
  case (UpdateHolds p f)
  then show ?thesis using denied_rows [where g = "\<lambda>rs. t\<lparr>t_holds := rs\<rparr>"] by (simp add: fire_all_def fire_retention)
next
  case (DeleteEvents p)
  then show ?thesis
    by (cases "map_res (\<lambda>r. trg_no_delete col user (t_holds t) ''audit_events'' (event_id r)) (filter p (t_events t))")
      (simp_all add: fire_all_def fire_retention delete_rows_def)
next
  case (DeleteQuarantined p)
  then show ?thesis
    by (cases "map_res (\<lambda>r. trg_no_delete col user (t_holds t) ''quarantined_audit_events'' (stream_message_id r))
        (filter p (t_quarantined t))") (simp_all add: fire_all_def fire_retention delete_rows_def)
next
  case (DeleteHolds p)
  then show ?thesis by (simp add: fire_all_def fire_retention map_res_unit)
qed simp_all

lemma migrated_triggers:
  assumes "ddl_backend B V" and "V s = empty_database ''mysql''" and "upgrade_head B s = (Inr (), s')"
  shows "db_triggers (V s') = retention_triggers"
proof -
  have "upgrade_head database_ops (V s) = (Inr (), V s')"
    using ddl_backend.simulated_upgrade_head [OF assms(1)] assms(3) by (simp add: simulates_def)
  then have "V s' = snd (upgrade_head database_ops (empty_database ''mysql''))" using assms(2) by simp
  then show ?thesis by (subst (asm) upgraded_dialect) simp
qed

text \<open>
  C4: the migrations install the protection the tables rely on.  After the upgrades
  ran on an empty MySQL database, every statement of every user, under the triggers
  that are then installed, acts exactly as the append-only tables are specified to
  act, errors and messages included.
\<close>

theorem installed_triggers_enforce:
  assumes "ddl_backend B V" and "V s = empty_database ''mysql''" and "upgrade_head B s = (Inr (), s')"
  shows "triggered_sql (db_triggers (V s')) col user stmt t = execute_sql col user stmt t"
  by (simp add: migrated_triggers [OF assms] triggered_retention)

theorem installed_triggers_enforce_witness:
  "\<exists>d'. upgrade_head database_ops (empty_database ''mysql'') = (Inr (), d') \<and>
     triggered_sql (db_triggers d') id ''audit_writer@%'' (DeleteEvents (\<lambda>r. True))
       \<lparr>t_events = [example_row], t_quarantined = [], t_holds = []\<rparr> =
     signal_sqlstate ''audit_events delete requires the audit_maintenance identity''"
proof -
  obtain d' where d': "upgrade_head database_ops (empty_database ''mysql'') = (Inr (), d')"
    using upgraded_returns [of "''mysql''"] by (metis prod.collapse)
  have "execute_sql id ''audit_writer@%'' (DeleteEvents (\<lambda>r. True)) \<lparr>t_events = [example_row], t_quarantined = [], t_holds = []\<rparr> =
      signal_sqlstate ''audit_events delete requires the audit_maintenance identity''"
    by (simp add: delete_rows_def trg_no_delete_def signal_sqlstate_def MAINTENANCE_USER_def)
  with d' show ?thesis
    using installed_triggers_enforce [OF explicit.ddl_backend_axioms HOL.refl d'] by metis
qed

section \<open>An example database\<close>

text \<open>A database of the fifth revision with one event.\<close>

definition demo_database :: database where
  "demo_database =
     \<lparr>dialect_name = ''sqlite'',
      db_tables =
        [(''audit_events'', \<lparr>table_columns = [primary_key_column ''event_id'' (VarChar 64)], table_rows = [[(''event_id'', PStr ''e1'')]]\<rparr>),
         (''quarantined_audit_events'', \<lparr>table_columns = [primary_key_column ''stream_message_id'' (VarChar 64)], table_rows = []\<rparr>)],
      db_indexes = [], db_triggers = []\<rparr>"

lemma demo_upgrade:
  "upgrade_0006 database_ops demo_database = (Inr (), snd (upgrade_0006 database_ops demo_database))"
  "map_of (db_tables (snd (upgrade_0006 database_ops demo_database))) ''audit_events'' =
     Some \<lparr>table_columns = [primary_key_column ''event_id'' (VarChar 64), sa_column ''integrity_key_id'' (VarChar 64) True None],
           table_rows = [[(''event_id'', PStr ''e1''), (''integrity_key_id'', PNone)]]\<rparr>"
  by (simp_all add: upgrade_0006_def io_bind_def explicit_defs demo_database_def)

theorem upgrades_preserve_rows_witness:
  "\<exists>tab'. map_of (db_tables (snd (upgrade_0006 database_ops demo_database))) ''audit_events'' = Some tab' \<and>
     list_all2 (\<lambda>row row'. \<exists>new. row' = row @ new \<and> set new \<subseteq> set BACKFILLED) [[(''event_id'', PStr ''e1'')]] (table_rows tab')"
proof -
  let ?m = "\<lparr>revision = ''0006_integrity_key_id'', down_revision = Some ''0005_retention_immutability'',
     upgrade = upgrade_0006, downgrade = downgrade_0006\<rparr> :: database migration"
  have m: "?m \<in> set MIGRATIONS" by (simp add: MIGRATIONS_def)
  have u: "upgrade ?m database_ops demo_database = (Inr (), snd (upgrade_0006 database_ops demo_database))"
    using demo_upgrade(1) by simp
  have t: "map_of (db_tables demo_database) ''audit_events'' =
      Some \<lparr>table_columns = [primary_key_column ''event_id'' (VarChar 64)], table_rows = [[(''event_id'', PStr ''e1'')]]\<rparr>"
    by (simp add: demo_database_def)
  show ?thesis using upgrades_preserve_rows [OF explicit.ddl_backend_axioms m u t] by simp
qed

theorem downgrade_inverts_upgrade_witness:
  "downgrade_0006 database_ops (snd (upgrade_0006 database_ops demo_database)) = (Inr (), demo_database)"
proof -
  have i: "5 < length (MIGRATIONS :: database migration list)" by (simp add: MIGRATIONS_def)
  have w: "database_wf demo_database"
    by (simp add: database_wf_def table_wf_def demo_database_def primary_key_column_def)
  have m: "upgrade ((MIGRATIONS :: database migration list) ! 5) = upgrade_0006" "downgrade ((MIGRATIONS :: database migration list) ! 5) = downgrade_0006"
    by (simp_all add: MIGRATIONS_def)
  have u: "upgrade ((MIGRATIONS :: database migration list) ! 5) database_ops demo_database = (Inr (), snd (upgrade_0006 database_ops demo_database))"
    using demo_upgrade(1) m by simp
  obtain r d'' where d: "downgrade ((MIGRATIONS :: database migration list) ! 5) database_ops (snd (upgrade_0006 database_ops demo_database)) = (r, d'')"
    by (rule prod.exhaust)
  show ?thesis using downgrade_inverts_upgrade [OF explicit.ddl_backend_axioms i w u d] m by simp
qed

theorem versioned_rows_block_downgrade_witness:
  "let d = update_table ''audit_events'' (\<lambda>tab. tab\<lparr>table_rows := [[(''event_id'', PStr ''e1''), (''integrity_key_id'', PStr ''k1'')]]\<rparr>)
     (snd (upgrade_0006 database_ops demo_database))
   in \<exists>e. downgrade_0006 database_ops d = (Inl e, d)"
proof -
  define d where "d = update_table ''audit_events'' (\<lambda>tab. tab\<lparr>table_rows := [[(''event_id'', PStr ''e1''), (''integrity_key_id'', PStr ''k1'')]]\<rparr>)
     (snd (upgrade_0006 database_ops demo_database))"
  obtain r d' where r: "downgrade_0006 database_ops d = (r, d')" by (rule prod.exhaust)
  obtain tab where t: "map_of (db_tables d) ''audit_events'' = Some tab" "table_rows tab = [[(''event_id'', PStr ''e1''), (''integrity_key_id'', PStr ''k1'')]]"
    by (simp add: d_def map_of_update_table demo_upgrade(2))
  have k: "dict_get [(''event_id'', PStr ''e1''), (''integrity_key_id'', PStr ''k1'')] ''integrity_key_id'' \<noteq> PNone"
    by (simp add: dict_get_def)
  have "(\<exists>e. r = Inl e) \<and> d' = d"
    by (rule versioned_rows_block_downgrade [OF explicit.ddl_backend_axioms r _ t(1) _ k]) (simp_all add: t(2))
  with r show ?thesis unfolding d_def [symmetric] Let_def by auto
qed

end
