(* ===== verification/Provisioning.thy ===== *)
theory Provisioning
  imports Retention
begin

text \<open>
  \<open>scripts/provision_audit_db_users.py\<close>: the three database accounts and their
  privileges.  The parser of database addresses and the connection are parameters;
  each of their operations may raise.  What the script prints is left out.
\<close>

section \<open>The connection\<close>

record db_url =
  url_host :: "string option"
  url_port :: "int option"
  url_username :: "string option"
  url_password :: "string option"
  url_database :: "string option"

text \<open>The arguments of \<open>pymysql.connect\<close>; \<open>autocommit\<close> is always on.\<close>

record connect_args =
  arg_host :: "string option"
  arg_port :: int
  arg_user :: "string option"
  arg_password :: string
  arg_database :: "string option"

record 'e admin_ops =
  make_url :: "string \<Rightarrow> db_url res"
  a_connect :: "connect_args \<Rightarrow> 'e \<Rightarrow> unit res \<times> 'e"
  a_execute :: "string \<Rightarrow> string list option \<Rightarrow> 'e \<Rightarrow> unit res \<times> 'e"
  a_close :: "'e \<Rightarrow> unit res \<times> 'e"

datatype admin_stmt =
    CreateUser string string
  | Grant "string list" string string string
  | FlushPrivileges

text \<open>
  What is done on the connection: a statement is recorded when it is sent, as the text
  and the parameters the driver is given.
\<close>

datatype admin_effect = AdminConnect connect_args | Submitted string "string list option" | AdminClose

record 'e admin =
  admin_env :: 'e
  admin_history :: "admin_effect list"

type_synonym ('e, 'a) adm = "('e admin, 'a) st"

definition adm_call :: "('e \<Rightarrow> 'a res \<times> 'e) \<Rightarrow> ('e, 'a) adm" where
  "adm_call f s = (let (r, e) = f (admin_env s) in (r, s\<lparr>admin_env := e\<rparr>))"

definition adm_log :: "admin_effect \<Rightarrow> ('e, unit) adm" where
  "adm_log a s = (Inr (), s\<lparr>admin_history := admin_history s @ [a]\<rparr>)"

section \<open>Statements\<close>

definition quoted :: "char \<Rightarrow> string \<Rightarrow> string" where
  "quoted q s = [q] @ s @ [q]"

definition account_text :: "string \<Rightarrow> string \<Rightarrow> string" where
  "account_text user host = quoted (CHR 0x27) user @ ''@'' @ quoted (CHR 0x27) host"

text \<open>
  The text and the bound parameters.  With parameters the driver substitutes
  \<open>%\<close>, so the wildcard host is written twice there and once elsewhere.
\<close>

fun statement_text :: "admin_stmt \<Rightarrow> string \<times> string list option" where
  "statement_text (CreateUser user password) =
     (''CREATE USER IF NOT EXISTS '' @ account_text user ''%%'' @ '' IDENTIFIED BY %s'', Some [password])"
| "statement_text (Grant privileges database table user) =
     (''GRANT '' @ join '', '' privileges @ '' ON '' @ quoted (CHR 0x60) database @ ''.'' @ quoted (CHR 0x60) table
        @ '' TO '' @ account_text user ''%'', None)"
| "statement_text FlushPrivileges = (''FLUSH PRIVILEGES'', None)"

definition execute_admin :: "'e admin_ops \<Rightarrow> admin_stmt \<Rightarrow> ('e, unit) adm" where
  "execute_admin A stmt =
     (case statement_text stmt of (t, ps) \<Rightarrow>
        io_bind (adm_log (Submitted t ps)) (\<lambda>_. adm_call (a_execute A t ps)))"

section \<open>The script\<close>

definition PROVISION_TABLES :: "string list" where
  "PROVISION_TABLES = [''audit_events'', ''quarantined_audit_events'']"

definition required_env :: "environ \<Rightarrow> string \<Rightarrow> string res" where
  "required_env osenv name = (case env_value osenv name of None \<Rightarrow> raise (SystemExit 1) [] | Some v \<Rightarrow> Inr v)"

definition connect_admin :: "'e admin_ops \<Rightarrow> environ \<Rightarrow> config \<Rightarrow> ('e, string option) adm" where
  "connect_admin A osenv cfg =
     io_bind (io_lift (make_url A (getenv osenv ''AUDIT_DB_ADMIN_URL'' (DATABASE_URL cfg)))) (\<lambda>url.
     let args = \<lparr>arg_host = url_host url,
           arg_port = (case url_port url of None \<Rightarrow> 3306 | Some p \<Rightarrow> if p = 0 then 3306 else p),
           arg_user = url_username url,
           arg_password = (case url_password url of None \<Rightarrow> [] | Some p \<Rightarrow> p),
           arg_database = url_database url\<rparr>
     in io_bind (adm_call (a_connect A args)) (\<lambda>_.
        io_bind (adm_log (AdminConnect args)) (\<lambda>_.
        io_return (url_database url))))"

definition create_user_and_grants ::
    "'e admin_ops \<Rightarrow> string option \<Rightarrow> string \<Rightarrow> string \<Rightarrow> (string \<times> string list) list \<Rightarrow> ('e, unit) adm" where
  "create_user_and_grants A database user password grants =
     io_bind (execute_admin A (CreateUser user password)) (\<lambda>_.
     io_each (\<lambda>(table, privileges). execute_admin A (Grant privileges (py_str (of_opt database)) table user)) grants)"

definition writer_grants :: "(string \<times> string list) list" where
  "writer_grants = map (\<lambda>t. (t, [''SELECT'', ''INSERT''])) PROVISION_TABLES"

definition reader_grants :: "(string \<times> string list) list" where
  "reader_grants = map (\<lambda>t. (t, [''SELECT''])) PROVISION_TABLES"

definition maintenance_grants :: "(string \<times> string list) list" where
  "maintenance_grants =
     [(''audit_events'', [''SELECT'', ''DELETE'']),
      (''quarantined_audit_events'', [''SELECT'', ''DELETE'']),
      (''audit_legal_holds'', [''SELECT'', ''INSERT'', ''DELETE''])]"

definition provision_main :: "'e admin_ops \<Rightarrow> environ \<Rightarrow> config \<Rightarrow> ('e, int) adm" where
  "provision_main A osenv cfg =
     io_bind (io_lift (required_env osenv ''AUDIT_WRITER_DB_PASSWORD'')) (\<lambda>writer_pw.
     io_bind (io_lift (required_env osenv ''AUDIT_READER_DB_PASSWORD'')) (\<lambda>reader_pw.
     io_bind (io_lift (required_env osenv ''AUDIT_MAINTENANCE_DB_PASSWORD'')) (\<lambda>maintenance_pw.
     io_bind (connect_admin A osenv cfg) (\<lambda>database.
     io_bind (io_finally
        (io_bind (create_user_and_grants A database ''audit_writer'' writer_pw writer_grants) (\<lambda>_.
         io_bind (create_user_and_grants A database ''audit_reader'' reader_pw reader_grants) (\<lambda>_.
         io_bind (create_user_and_grants A database ''audit_maintenance'' maintenance_pw maintenance_grants) (\<lambda>_.
         execute_admin A FlushPrivileges))))
        (io_bind (adm_log AdminClose) (\<lambda>_. adm_call (a_close A)))) (\<lambda>_.
     io_return 0)))))"

section \<open>What the server is told\<close>

text \<open>
  The driver sends a text without parameters as it is; with parameters \<open>%s\<close> becomes
  the next parameter as a literal, \<open>%%\<close> a percent sign, and anything else is an error.
\<close>

datatype piece = Ch char | Lit string

fun substitute :: "string \<Rightarrow> string list \<Rightarrow> piece list option" where
  "substitute [] ps = (if ps = [] then Some [] else None)"
| "substitute [c] ps = (if c = CHR 0x25 \<or> ps \<noteq> [] then None else Some [Ch c])"
| "substitute (c # d # t) ps =
     (if c \<noteq> CHR 0x25 then map_option ((#) (Ch c)) (substitute (d # t) ps)
      else if d = CHR 0x25 then map_option ((#) (Ch c)) (substitute t ps)
      else if d = CHR ''s'' then (case ps of [] \<Rightarrow> None | p # qs \<Rightarrow> map_option ((#) (Lit p)) (substitute t qs))
      else None)"

definition sent_text :: "string \<Rightarrow> string list option \<Rightarrow> piece list option" where
  "sent_text t ps = (case ps of None \<Rightarrow> Some (map Ch t) | Some qs \<Rightarrow> substitute t qs)"

text \<open>The fields of a text between the characters of a kind.\<close>

fun fields :: "(char \<Rightarrow> bool) \<Rightarrow> string \<Rightarrow> string list" where
  "fields P [] = [[]]"
| "fields P (c # s) = (if P c then [] # fields P s else (case fields P s of [] \<Rightarrow> [[c]] | w # ws \<Rightarrow> (c # w) # ws))"

definition quote_mark :: "char \<Rightarrow> bool" where
  "quote_mark c \<longleftrightarrow> c = CHR 0x60 \<or> c = CHR 0x27"

text \<open>
  \<open>GRANT <privileges> ON `<database>`.`<table>` TO '<user>'@'<host>'\<close>: the five parts
  of such a text.
\<close>

definition parse_grant :: "string \<Rightarrow> (string list \<times> string \<times> string \<times> string \<times> string) option" where
  "parse_grant s =
     (case fields quote_mark s of
        [g, db, d, table, t, user, a, host, e] \<Rightarrow>
          (let ps = drop 6 (take (length g - 4) g)
           in if s = ''GRANT '' @ ps @ '' ON '' @ quoted (CHR 0x60) db @ ''.'' @ quoted (CHR 0x60) table @
                 '' TO '' @ quoted (CHR 0x27) user @ ''@'' @ quoted (CHR 0x27) host
              then Some (map strip (fields ((=) (CHR '','')) ps), db, table, user, host) else None)
      | _ \<Rightarrow> None)"

fun grant_of :: "admin_effect \<Rightarrow> (string list \<times> string \<times> string \<times> string \<times> string) option" where
  "grant_of (Submitted t None) = parse_grant t"
| "grant_of _ = None"

text \<open>
  The account \<open>'<user>'@'%'\<close>, which covers every host, has been created; the privileges
  it has on a table after a history, and those a statement needs.
\<close>

definition creates :: "string \<Rightarrow> admin_effect \<Rightarrow> bool" where
  "creates user a =
     (case a of
        Submitted t ps \<Rightarrow>
          (case sent_text t ps of
             Some pieces \<Rightarrow>
               butlast pieces = map Ch (''CREATE USER IF NOT EXISTS '' @ account_text user ''%'' @ '' IDENTIFIED BY '') \<and>
               pieces \<noteq> [] \<and> (case last pieces of Lit p \<Rightarrow> True | Ch c \<Rightarrow> False)
           | None \<Rightarrow> False)
      | _ \<Rightarrow> False)"

definition grants_in :: "string \<Rightarrow> string \<Rightarrow> string \<Rightarrow> admin_effect \<Rightarrow> string list" where
  "grants_in db user table a =
     (case grant_of a of
        Some (ps, d, t, u, host) \<Rightarrow> if d = db \<and> t = table \<and> u = user \<and> host = ''%'' then ps else []
      | None \<Rightarrow> [])"

definition privileges :: "string \<Rightarrow> admin_effect list \<Rightarrow> string \<Rightarrow> string \<Rightarrow> string list" where
  "privileges db h user table = concat (map (grants_in db user table) h)"

fun needs :: "sql \<Rightarrow> string \<times> string" where
  "needs (InsertEvent r) = (''INSERT'', ''audit_events'')"
| "needs (InsertQuarantined q) = (''INSERT'', ''quarantined_audit_events'')"
| "needs (InsertHold h) = (''INSERT'', ''audit_legal_holds'')"
| "needs (UpdateEvents p f) = (''UPDATE'', ''audit_events'')"
| "needs (UpdateQuarantined p f) = (''UPDATE'', ''quarantined_audit_events'')"
| "needs (UpdateHolds p f) = (''UPDATE'', ''audit_legal_holds'')"
| "needs (DeleteEvents p) = (''DELETE'', ''audit_events'')"
| "needs (DeleteQuarantined p) = (''DELETE'', ''quarantined_audit_events'')"
| "needs (DeleteHolds p) = (''DELETE'', ''audit_legal_holds'')"

definition permitted :: "string \<Rightarrow> admin_effect list \<Rightarrow> string \<Rightarrow> sql \<Rightarrow> bool" where
  "permitted db h user stmt \<longleftrightarrow> fst (needs stmt) \<in> set (privileges db h user (snd (needs stmt)))"

text \<open>The privileges the script is meant to give: account, table, privileges.\<close>

definition intended_grants :: "(string \<times> string \<times> string list) list" where
  "intended_grants = map (Pair ''audit_writer'') writer_grants @ map (Pair ''audit_reader'') reader_grants
     @ map (Pair ''audit_maintenance'') maintenance_grants"

definition intended :: "string \<Rightarrow> string \<Rightarrow> string list" where
  "intended user table = concat (map (\<lambda>(u, t, ps). if t = table \<and> u = user then ps else []) intended_grants)"

section \<open>What the texts say\<close>

definition provisioned_accounts :: "string list" where
  "provisioned_accounts = [''audit_writer'', ''audit_reader'', ''audit_maintenance'']"

lemma fields_none: "list_all (\<lambda>c. \<not> P c) a \<Longrightarrow> fields P a = [a]"
  by (induction a) auto

lemma fields_first: "list_all (\<lambda>c. \<not> P c) a \<Longrightarrow> P c \<Longrightarrow> fields P (a @ c # s) = a # fields P s"
  by (induction a) auto

lemma parse_grant_text:
  assumes "list_all (\<lambda>c. \<not> quote_mark c) (join '', '' ps)" and "list_all (\<lambda>c. \<not> quote_mark c) db"
    and "list_all (\<lambda>c. \<not> quote_mark c) table" and "list_all (\<lambda>c. \<not> quote_mark c) user"
    and "map strip (fields ((=) (CHR '','')) (join '', '' ps)) = ps"
  shows "parse_grant (fst (statement_text (Grant ps db table user))) = Some (ps, db, table, user, ''%'')"
proof -
  let ?g = "''GRANT '' @ join '', '' ps @ '' ON ''"
  have q: "quote_mark (CHR 0x60)" "quote_mark (CHR 0x27)" by (simp_all add: quote_mark_def)
  have words: "list_all (\<lambda>c. \<not> quote_mark c) ?g" "list_all (\<lambda>c. \<not> quote_mark c) ''.''"
    "list_all (\<lambda>c. \<not> quote_mark c) '' TO ''" "list_all (\<lambda>c. \<not> quote_mark c) ''@''" "list_all (\<lambda>c. \<not> quote_mark c) ''%''"
    using assms(1) by (simp_all add: quote_mark_def)
  have "fst (statement_text (Grant ps db table user)) = ?g @ CHR 0x60 # db @ CHR 0x60 # ''.'' @ CHR 0x60 # table @
      CHR 0x60 # '' TO '' @ CHR 0x27 # user @ CHR 0x27 # ''@'' @ CHR 0x27 # ''%'' @ CHR 0x27 # []"
    by (simp add: quoted_def account_text_def)
  moreover have "fields quote_mark \<dots> = [?g, db, ''.'', table, '' TO '', user, ''@'', ''%'', []]"
    by (simp only: fields_first words assms(2-4) q fields.simps(1))
  moreover have "drop 6 (take (length ?g - 4) ?g) = join '', '' ps" by simp
  ultimately show ?thesis
    using assms(5) unfolding parse_grant_def Let_def by (simp add: quoted_def)
qed

lemma word_lists:
  assumes "ps \<in> {[''SELECT''], [''SELECT'', ''INSERT''], [''SELECT'', ''DELETE''], [''SELECT'', ''INSERT'', ''DELETE'']}"
  shows "map strip (fields ((=) (CHR '','')) (join '', '' ps)) = ps" and "list_all (\<lambda>c. \<not> quote_mark c) (join '', '' ps)"
  using assms by (elim insertE emptyE; hypsubst; code_simp)+

lemma intended_cases:
  "(user, table, ps) \<in> set intended_grants \<longleftrightarrow>
     user = ''audit_writer'' \<and> ps = [''SELECT'', ''INSERT''] \<and> table \<in> {''audit_events'', ''quarantined_audit_events''} \<or>
     user = ''audit_reader'' \<and> ps = [''SELECT''] \<and> table \<in> {''audit_events'', ''quarantined_audit_events''} \<or>
     user = ''audit_maintenance'' \<and> ps = [''SELECT'', ''DELETE''] \<and> table \<in> {''audit_events'', ''quarantined_audit_events''} \<or>
     user = ''audit_maintenance'' \<and> ps = [''SELECT'', ''INSERT'', ''DELETE''] \<and> table = ''audit_legal_holds''"
  by (auto simp: intended_grants_def writer_grants_def reader_grants_def maintenance_grants_def PROVISION_TABLES_def)

lemma parse_intended_grant:
  assumes "(user, table, ps) \<in> set intended_grants" and "list_all (\<lambda>c. \<not> quote_mark c) db"
  shows "parse_grant (fst (statement_text (Grant ps db table user))) = Some (ps, db, table, user, ''%'')"
proof (rule parse_grant_text [OF word_lists(2) assms(2) _ _ word_lists(1)])
  show "ps \<in> {[''SELECT''], [''SELECT'', ''INSERT''], [''SELECT'', ''DELETE''], [''SELECT'', ''INSERT'', ''DELETE'']}"
    using assms(1) unfolding intended_cases by blast
  then show "ps \<in> {[''SELECT''], [''SELECT'', ''INSERT''], [''SELECT'', ''DELETE''], [''SELECT'', ''INSERT'', ''DELETE'']}" .
  show "list_all (\<lambda>c. \<not> quote_mark c) table" "list_all (\<lambda>c. \<not> quote_mark c) user"
    using assms(1) unfolding intended_cases by (auto simp: quote_mark_def)
qed

lemma creates_account: "user \<in> set provisioned_accounts \<Longrightarrow> creates user (Submitted (fst (statement_text (CreateUser user pw))) (Some [pw]))"
  by (auto simp: provisioned_accounts_def creates_def sent_text_def quoted_def account_text_def)

section \<open>No run grants more\<close>

definition as_intended :: "admin_effect \<Rightarrow> bool" where
  "as_intended a \<longleftrightarrow> (\<forall>ps db t u host. grant_of a = Some (ps, db, t, u, host) \<longrightarrow> (u, t, ps) \<in> set intended_grants)"

definition adds_intended :: "'e admin \<Rightarrow> 'e admin \<Rightarrow> bool" where
  "adds_intended s s' \<longleftrightarrow> (\<exists>h. admin_history s' = admin_history s @ h \<and> list_all as_intended h)"

interpretation aw: step_relation adds_intended
proof
  fix u v w :: "'e admin"
  show "adds_intended w w" by (simp add: adds_intended_def)
  show "adds_intended u v \<Longrightarrow> adds_intended v w \<Longrightarrow> adds_intended u w" by (force simp: adds_intended_def)
qed

lemma keeps_adm_call: "keeps adds_intended (adm_call f)"
  by (auto simp: keeps_def adds_intended_def adm_call_def split: prod.split)

lemma keeps_adm_log: "as_intended a \<Longrightarrow> keeps adds_intended (adm_log a)"
  by (simp add: keeps_def adds_intended_def adm_log_def)

lemma keeps_execute_admin:
  "as_intended (Submitted (fst (statement_text stmt)) (snd (statement_text stmt))) \<Longrightarrow>
   keeps adds_intended (execute_admin A stmt)"
  unfolding execute_admin_def case_prod_beta by (intro aw.keeps_bind keeps_adm_call keeps_adm_log)

lemma keeps_create_user:
  assumes "\<forall>(t, ps) \<in> set grants. (user, t, ps) \<in> set intended_grants"
    and "list_all (\<lambda>c. \<not> quote_mark c) (py_str (of_opt database))"
  shows "keeps adds_intended (create_user_and_grants A database user password grants)"
proof -
  have "keeps adds_intended ((\<lambda>(t, ps). execute_admin A (Grant ps (py_str (of_opt database)) t user)) x)"
    if x: "x \<in> set grants" for x
  proof (cases x)
    case (Pair t ps)
    with assms x have "as_intended (Submitted (fst (statement_text (Grant ps (py_str (of_opt database)) t user))) None)"
      using parse_intended_grant [of user t ps] by (auto simp: as_intended_def simp del: statement_text.simps)
    with Pair show ?thesis by (auto intro: keeps_execute_admin)
  qed
  then show ?thesis
    unfolding create_user_and_grants_def
    by (intro aw.keeps_bind aw.keeps_each_in keeps_execute_admin) (simp_all add: as_intended_def)
qed

lemma intended_members:
  "\<forall>(t, ps) \<in> set writer_grants. (''audit_writer'', t, ps) \<in> set intended_grants"
  "\<forall>(t, ps) \<in> set reader_grants. (''audit_reader'', t, ps) \<in> set intended_grants"
  "\<forall>(t, ps) \<in> set maintenance_grants. (''audit_maintenance'', t, ps) \<in> set intended_grants"
  by (auto simp: intended_grants_def)

text \<open>The database the grants name is the one of the administrator's address.\<close>

definition names_database :: "'e admin_ops \<Rightarrow> environ \<Rightarrow> config \<Rightarrow> string \<Rightarrow> bool" where
  "names_database A osenv cfg db \<longleftrightarrow>
     (\<forall>url. make_url A (getenv osenv ''AUDIT_DB_ADMIN_URL'' (DATABASE_URL cfg)) = Inr url \<longrightarrow> url_database url = Some db)"

lemma keeps_connect_admin: "keeps adds_intended (connect_admin A osenv cfg)"
  unfolding connect_admin_def Let_def
  by (intro aw.keeps_rules keeps_adm_call keeps_adm_log) (simp_all add: as_intended_def)

lemma adm_call_history: "adm_call f s = (r, s') \<Longrightarrow> admin_history s' = admin_history s"
  by (auto simp: adm_call_def split: prod.splits)

lemma connect_admin_Inr:
  assumes "connect_admin A osenv cfg s = (Inr d, s1)" and "names_database A osenv cfg db"
  shows "d = Some db \<and> (\<exists>args. admin_history s1 = admin_history s @ [AdminConnect args])"
  using assms
  by (auto simp: connect_admin_def Let_def io_bind_Inr adm_log_def names_database_def io_lift_def dest: adm_call_history)

definition provision_accounts :: "'e admin_ops \<Rightarrow> string option \<Rightarrow> string \<Rightarrow> string \<Rightarrow> string \<Rightarrow> ('e, unit) adm" where
  "provision_accounts A database w r m =
     io_finally
        (io_bind (create_user_and_grants A database ''audit_writer'' w writer_grants) (\<lambda>_.
         io_bind (create_user_and_grants A database ''audit_reader'' r reader_grants) (\<lambda>_.
         io_bind (create_user_and_grants A database ''audit_maintenance'' m maintenance_grants) (\<lambda>_.
         execute_admin A FlushPrivileges))))
        (io_bind (adm_log AdminClose) (\<lambda>_. adm_call (a_close A)))"

lemma keeps_provision_accounts:
  "list_all (\<lambda>c. \<not> quote_mark c) db \<Longrightarrow> keeps adds_intended (provision_accounts A (Some db) w r m)"
  unfolding provision_accounts_def
  by (intro aw.keeps_rules aw.keeps_finally keeps_create_user keeps_execute_admin keeps_adm_call keeps_adm_log intended_members)
    (simp_all add: as_intended_def parse_grant_def of_opt_def)

lemma keeps_bind_value:
  assumes "keeps adds_intended m" and "\<And>s x s1. m s = (Inr x, s1) \<Longrightarrow> keeps adds_intended (f x)"
  shows "keeps adds_intended (io_bind m f)"
proof -
  have "adds_intended s s'" if b: "io_bind m f s = (r, s')" for s r s'
  proof -
    obtain q s1 where q: "m s = (q, s1)" by (rule prod.exhaust)
    show ?thesis
    proof (cases q)
      case (Inl e)
      with b q show ?thesis using keepsD [OF assms(1) q] by (simp add: io_bind_def)
    next
      case (Inr x)
      with b q have "f x s1 = (r, s')" by (simp add: io_bind_def)
      with assms(2) q Inr have "adds_intended s1 s'" by (blast dest: keepsD)
      with keepsD [OF assms(1) q] show ?thesis by (rule aw.R_trans)
    qed
  qed
  then show ?thesis unfolding keeps_def by (metis prod.collapse)
qed

lemma keeps_provision:
  assumes "names_database A osenv cfg db" and "list_all (\<lambda>c. \<not> quote_mark c) db"
  shows "keeps adds_intended (provision_main A osenv cfg)"
  unfolding provision_main_def provision_accounts_def [symmetric]
  by (intro aw.keeps_rules keeps_bind_value keeps_connect_admin)
    (use assms in \<open>auto dest!: connect_admin_Inr intro: keeps_provision_accounts\<close>)

lemma privileges_intended:
  assumes "list_all as_intended h"
  shows "set (privileges db h user table) \<subseteq> set (intended user table)"
proof
  fix p assume "p \<in> set (privileges db h user table)"
  then obtain a where a: "a \<in> set h" "p \<in> set (grants_in db user table a)" by (auto simp: privileges_def)
  then obtain ps d host where "grant_of a = Some (ps, d, table, user, host)" "p \<in> set ps"
    by (cases "grant_of a") (auto simp: grants_in_def split: if_splits)
  with a(1) assms have "(user, table, ps) \<in> set intended_grants" by (auto simp: as_intended_def list_all_iff)
  with \<open>p \<in> set ps\<close> show "p \<in> set (intended user table)" by (force simp: intended_def)
qed

section \<open>A run that returns grants everything\<close>

definition submitted :: "admin_stmt \<Rightarrow> admin_effect" where
  "submitted stmt = Submitted (fst (statement_text stmt)) (snd (statement_text stmt))"

lemma execute_admin_Inr:
  "execute_admin A stmt s = (Inr x, s') \<Longrightarrow> admin_history s' = admin_history s @ [submitted stmt]"
  by (auto simp: execute_admin_def case_prod_beta io_bind_Inr adm_log_def submitted_def dest!: adm_call_history)

lemma execute_each_Inr:
  "io_each (\<lambda>(table, ps). execute_admin A (Grant ps db table user)) grants s = (Inr x, s') \<Longrightarrow>
   admin_history s' = admin_history s @ map (\<lambda>(table, ps). submitted (Grant ps db table user)) grants"
  by (induction grants arbitrary: s) (auto simp: io_bind_Inr dest!: execute_admin_Inr)

lemma create_user_Inr:
  "create_user_and_grants A database user pw grants s = (Inr x, s') \<Longrightarrow>
   admin_history s' = admin_history s @ submitted (CreateUser user pw) #
     map (\<lambda>(table, ps). submitted (Grant ps (py_str (of_opt database)) table user)) grants"
  by (auto simp: create_user_and_grants_def io_bind_Inr dest!: execute_admin_Inr execute_each_Inr)

lemma privileges_append: "privileges db (h @ h') user table = privileges db h user table @ privileges db h' user table"
  by (simp add: privileges_def)

definition given :: "string \<Rightarrow> string \<Rightarrow> string \<Rightarrow> (string \<times> string list) list \<Rightarrow> string list" where
  "given user table v grants = concat (map (\<lambda>(t, ps). if t = table \<and> v = user then ps else []) grants)"

lemma intended_given:
  "intended user table = given user table ''audit_writer'' writer_grants @ given user table ''audit_reader'' reader_grants
     @ given user table ''audit_maintenance'' maintenance_grants"
  by (simp add: intended_def intended_grants_def given_def comp_def)

lemma submitted_grants:
  assumes "\<forall>(t, ps) \<in> set grants. (v, t, ps) \<in> set intended_grants" and "list_all (\<lambda>c. \<not> quote_mark c) db"
  shows "privileges db (map (\<lambda>(t, ps). submitted (Grant ps db t v)) grants) user table = given user table v grants"
  using assms
proof (induction grants)
  case Nil
  show ?case by (simp add: privileges_def given_def)
next
  case (Cons g grants)
  obtain t ps where g: "g = (t, ps)" by (rule prod.exhaust)
  have "grant_of (submitted (Grant ps db t v)) = Some (ps, db, t, v, ''%'')"
    using parse_intended_grant [of v t ps db] Cons.prems g by (simp add: submitted_def)
  then have "grants_in db user table (submitted (Grant ps db t v)) = (if t = table \<and> v = user then ps else [])"
    by (simp add: grants_in_def)
  with Cons g show ?case by (simp add: privileges_def given_def)
qed

lemma create_user_privileges:
  assumes "create_user_and_grants A (Some db) v pw grants s = (Inr x, s')" and "list_all (\<lambda>c. \<not> quote_mark c) db"
    and "\<forall>(t, ps) \<in> set grants. (v, t, ps) \<in> set intended_grants" and "v \<in> set provisioned_accounts"
  shows "privileges db (admin_history s') user table = privileges db (admin_history s) user table @ given user table v grants"
    and "list_ex (creates v) (admin_history s')"
    and "list_ex (creates u) (admin_history s) \<Longrightarrow> list_ex (creates u) (admin_history s')"
proof -
  have h: "admin_history s' = admin_history s @ submitted (CreateUser v pw) #
      map (\<lambda>(table, ps). submitted (Grant ps db table v)) grants"
    using create_user_Inr [OF assms(1)] by (simp add: of_opt_def)
  have "privileges db [submitted (CreateUser v pw)] user table = []"
    by (simp add: privileges_def grants_in_def submitted_def)
  with h show "privileges db (admin_history s') user table = privileges db (admin_history s) user table @ given user table v grants"
    using submitted_grants [OF assms(3,2), where user = user and table = table]
      privileges_append [of db "[submitted (CreateUser v pw)]" _ user table]
    by (simp add: privileges_append)
  show "list_ex (creates v) (admin_history s')"
    using h creates_account [OF assms(4), of pw] by (simp add: submitted_def)
  show "list_ex (creates u) (admin_history s) \<Longrightarrow> list_ex (creates u) (admin_history s')"
    using h by simp
qed

lemma provision_accounts_Inr:
  assumes "provision_accounts A (Some db) w r m s = (Inr x, s')" and "list_all (\<lambda>c. \<not> quote_mark c) db"
  shows "privileges db (admin_history s') user table = privileges db (admin_history s) user table @ intended user table"
    and "user \<in> set provisioned_accounts \<Longrightarrow> list_ex (creates user) (admin_history s')"
proof -
  obtain s1 s2 s3 s4 where c: "create_user_and_grants A (Some db) ''audit_writer'' w writer_grants s = (Inr (), s1)"
      "create_user_and_grants A (Some db) ''audit_reader'' r reader_grants s1 = (Inr (), s2)"
      "create_user_and_grants A (Some db) ''audit_maintenance'' m maintenance_grants s2 = (Inr (), s3)"
    and f: "execute_admin A FlushPrivileges s3 = (Inr (), s4)"
      "io_bind (adm_log AdminClose) (\<lambda>_. adm_call (a_close A)) s4 = (Inr (), s')"
    using assms(1) by (auto simp: provision_accounts_def io_bind_Inr dest!: io_finally_Inr)
  have h: "admin_history s' = admin_history s3 @ [submitted FlushPrivileges, AdminClose]"
    using f by (auto simp: io_bind_Inr adm_log_def dest!: adm_call_history execute_admin_Inr)
  have accounts: "''audit_writer'' \<in> set provisioned_accounts" "''audit_reader'' \<in> set provisioned_accounts"
    "''audit_maintenance'' \<in> set provisioned_accounts" by (simp_all add: provisioned_accounts_def)
  note w = create_user_privileges [OF c(1) assms(2) intended_members(1) accounts(1)]
  note r = create_user_privileges [OF c(2) assms(2) intended_members(2) accounts(2)]
  note m = create_user_privileges [OF c(3) assms(2) intended_members(3) accounts(3)]
  have "privileges db [submitted FlushPrivileges, AdminClose] user table = []"
    by (simp add: privileges_def grants_in_def submitted_def parse_grant_def)
  then show "privileges db (admin_history s') user table = privileges db (admin_history s) user table @ intended user table"
    unfolding h privileges_append m(1) r(1) w(1) intended_given by simp
  show "list_ex (creates user) (admin_history s')" if "user \<in> set provisioned_accounts"
    using that m(2) m(3) [OF r(2)] m(3) [OF r(3) [OF w(2)]] unfolding h provisioned_accounts_def by auto
qed

lemma provision_Inr:
  assumes "provision_main A osenv cfg s = (Inr n, s')" and "names_database A osenv cfg db" and "list_all (\<lambda>c. \<not> quote_mark c) db"
  shows "privileges db (admin_history s') user table = privileges db (admin_history s) user table @ intended user table"
    and "user \<in> set provisioned_accounts \<Longrightarrow> list_ex (creates user) (admin_history s')"
proof -
  obtain d w r m s1 x where c: "connect_admin A osenv cfg s = (Inr d, s1)"
    and b: "provision_accounts A d w r m s1 = (Inr x, s')"
    using assms(1) unfolding provision_main_def provision_accounts_def [symmetric] by (auto simp: io_bind_Inr)
  note d = connect_admin_Inr [OF c assms(2)]
  then obtain args where h: "admin_history s1 = admin_history s @ [AdminConnect args]" by blast
  note p = provision_accounts_Inr [OF b [unfolded conjunct1 [OF d]] assms(3)]
  have "privileges db [AdminConnect args] user table = []" by (simp add: privileges_def grants_in_def)
  then show "privileges db (admin_history s') user table = privileges db (admin_history s) user table @ intended user table"
    unfolding p(1) h privileges_append by simp
  show "user \<in> set provisioned_accounts \<Longrightarrow> list_ex (creates user) (admin_history s')" by (rule p(2))
qed

lemma provision_privileges:
  assumes "provision_main A osenv cfg s = (r, s')" and "names_database A osenv cfg db" and "list_all (\<lambda>c. \<not> quote_mark c) db"
    and "admin_history s = []" and "r = Inr 0"
  shows "privileges db (admin_history s') user table = intended user table"
  using provision_Inr(1) [OF _ assms(2,3)] assms(1,4,5) by (simp add: privileges_def)

lemma intended_table:
  "intended ''audit_writer'' ''audit_events'' = [''SELECT'', ''INSERT'']"
  "intended ''audit_writer'' ''quarantined_audit_events'' = [''SELECT'', ''INSERT'']"
  "intended ''audit_reader'' ''audit_events'' = [''SELECT'']"
  "intended ''audit_reader'' ''quarantined_audit_events'' = [''SELECT'']"
  "intended ''audit_maintenance'' ''audit_events'' = [''SELECT'', ''DELETE'']"
  "intended ''audit_maintenance'' ''quarantined_audit_events'' = [''SELECT'', ''DELETE'']"
  "intended ''audit_maintenance'' ''audit_legal_holds'' = [''SELECT'', ''INSERT'', ''DELETE'']"
  by (simp_all add: intended_given given_def writer_grants_def reader_grants_def maintenance_grants_def PROVISION_TABLES_def)

section \<open>Least privilege\<close>

text \<open>The account of a connection, whose \<open>USER()\<close> is \<open>name@host\<close>.\<close>

definition account :: "string \<Rightarrow> string" where
  "account user = takeWhile (\<lambda>c. c \<noteq> CHR ''@'') user"

lemma intended_restricted:
  assumes "p \<in> set (intended user table)" and "user \<noteq> ''audit_maintenance''"
  shows "(p = ''SELECT'' \<or> p = ''INSERT'') \<and> (table = ''audit_events'' \<or> table = ''quarantined_audit_events'')"
  using assms
  by (auto simp: intended_given given_def writer_grants_def reader_grants_def maintenance_grants_def PROVISION_TABLES_def
      split: if_splits)

lemma restricted_statement:
  assumes "(p = ''SELECT'' \<or> p = ''INSERT'') \<and> (table = ''audit_events'' \<or> table = ''quarantined_audit_events'')"
    and "needs stmt = (p, table)"
  shows "(\<exists>r. stmt = InsertEvent r) \<or> (\<exists>q. stmt = InsertQuarantined q)"
  using assms by (cases stmt) auto

lemma intended_no_update: "''UPDATE'' \<notin> set (intended user table)"
  by (auto simp: intended_given given_def writer_grants_def reader_grants_def maintenance_grants_def PROVISION_TABLES_def)

definition appended :: "tables \<Rightarrow> tables \<Rightarrow> bool" where
  "appended t u \<longleftrightarrow> (\<exists>es qs. t_events u = t_events t @ es \<and> t_quarantined u = t_quarantined t @ qs \<and> t_holds u = t_holds t)"

lemma appended_step:
  assumes "appended t u" and "(\<exists>r. stmt = InsertEvent r) \<or> (\<exists>q. stmt = InsertQuarantined q)"
    and "execute_sql col user stmt u = Inr v"
  shows "appended t v"
  using assms by (auto simp: appended_def insert_row_iff)

text \<open>Accounts that hold nothing but what was intended, whatever was meant for \<open>audit_maintenance\<close> aside.\<close>

lemma restricted_accounts_append:
  assumes "\<And>user table. set (priv user table) \<subseteq> set (intended user table)" and "reaches col allowed t u"
    and "\<forall>user stmt. allowed user stmt \<longrightarrow>
      account user \<noteq> ''audit_maintenance'' \<and> fst (needs stmt) \<in> set (priv (account user) (snd (needs stmt)))"
  shows "appended t u"
proof -
  have insert_only: "(\<exists>x. stmt = InsertEvent x) \<or> (\<exists>q. stmt = InsertQuarantined q)" if a: "allowed user stmt" for user stmt
  proof (rule restricted_statement)
    have "fst (needs stmt) \<in> set (intended (account user) (snd (needs stmt)))"
      using assms(3) a assms(1) [of "account user" "snd (needs stmt)"] by blast
    then show "(fst (needs stmt) = ''SELECT'' \<or> fst (needs stmt) = ''INSERT'') \<and>
        (snd (needs stmt) = ''audit_events'' \<or> snd (needs stmt) = ''quarantined_audit_events'')"
      using assms(3) a by (blast dest: intended_restricted)
    show "needs stmt = (fst (needs stmt), snd (needs stmt))" by simp
  qed
  from assms(2) show ?thesis
  proof (induction rule: reaches.induct)
    case (start t)
    show ?case by (simp add: appended_def)
  next
    case (step t u user stmt v)
    show ?case using appended_step [OF step.IH insert_only [OF step.hyps(2)] step.hyps(3)] .
  qed
qed

definition demo_admin :: "unit admin_ops" where
  "demo_admin = \<lparr>make_url = (\<lambda>u. Inr \<lparr>url_host = Some ''localhost'', url_port = None, url_username = Some ''root'',
       url_password = None, url_database = Some ''omnibioai_audit''\<rparr>),
     a_connect = (\<lambda>args e. (Inr (), e)), a_execute = (\<lambda>t ps e. (Inr (), e)), a_close = (\<lambda>e. (Inr (), e))\<rparr>"

definition demo_passwords :: environ where
  "demo_passwords = [''AUDIT_WRITER_DB_PASSWORD'' \<mapsto> ''w'', ''AUDIT_READER_DB_PASSWORD'' \<mapsto> ''r'',
     ''AUDIT_MAINTENANCE_DB_PASSWORD'' \<mapsto> ''m'']"

text \<open>
  C33: the accounts have the privileges they need and no more, as the texts sent to the
  server say.  Let the administrator's address name a database without quotes in its
  name, and let nothing have been granted before.  After any run of the script, whether it returned
  or was interrupted, whatever the accounts other than \<open>audit_maintenance\<close> execute only
  ever appends to the two tables, legal holds stay as they are, and no account may
  update.  After a run that returned, the three accounts exist for every host
  (\<open>'<user>'@'%'\<close>), each of them may read both tables, the writer may insert into both, and
  the maintenance account may delete from them and declare and release legal holds.
\<close>

theorem provisioned_accounts_append_only:
  assumes "provision_main A osenv cfg s = (r, s')" and "admin_history s = []"
    and "names_database A osenv cfg db" and "list_all (\<lambda>c. \<not> quote_mark c) db"
    and "reaches col allowed t u"
    and "\<forall>user stmt. allowed user stmt \<longrightarrow>
      account user \<noteq> ''audit_maintenance'' \<and> permitted db (admin_history s') (account user) stmt"
  shows "(\<exists>es qs. t_events u = t_events t @ es \<and> t_quarantined u = t_quarantined t @ qs \<and> t_holds u = t_holds t) \<and>
    (\<forall>user table. ''UPDATE'' \<notin> set (privileges db (admin_history s') user table)) \<and>
    (r = Inr 0 \<longrightarrow>
       (\<forall>user \<in> {''audit_writer'', ''audit_reader'', ''audit_maintenance''}.
          list_ex (creates user) (admin_history s') \<and>
          ''SELECT'' \<in> set (privileges db (admin_history s') user ''audit_events'') \<and>
          ''SELECT'' \<in> set (privileges db (admin_history s') user ''quarantined_audit_events'')) \<and>
       (\<forall>row. permitted db (admin_history s') ''audit_writer'' (InsertEvent row)) \<and>
       (\<forall>q. permitted db (admin_history s') ''audit_writer'' (InsertQuarantined q)) \<and>
       (\<forall>p. permitted db (admin_history s') ''audit_maintenance'' (DeleteEvents p)) \<and>
       (\<forall>p. permitted db (admin_history s') ''audit_maintenance'' (DeleteQuarantined p)) \<and>
       (\<forall>h. permitted db (admin_history s') ''audit_maintenance'' (InsertHold h)) \<and>
       (\<forall>p. permitted db (admin_history s') ''audit_maintenance'' (DeleteHolds p)))"
proof (intro conjI impI)
  have "list_all as_intended (admin_history s')"
    using keepsD [OF keeps_provision [OF assms(3,4)] assms(1)] assms(2) by (auto simp: adds_intended_def)
  note priv = privileges_intended [OF this, of db]
  show "\<exists>es qs. t_events u = t_events t @ es \<and> t_quarantined u = t_quarantined t @ qs \<and> t_holds u = t_holds t"
    using restricted_accounts_append [OF priv assms(5)] assms(6) unfolding appended_def permitted_def by blast
  show "\<forall>user table. ''UPDATE'' \<notin> set (privileges db (admin_history s') user table)"
    using priv intended_no_update by blast
next
  assume r: "r = Inr 0"
  then show "\<forall>user \<in> {''audit_writer'', ''audit_reader'', ''audit_maintenance''}.
          list_ex (creates user) (admin_history s') \<and>
          ''SELECT'' \<in> set (privileges db (admin_history s') user ''audit_events'') \<and>
          ''SELECT'' \<in> set (privileges db (admin_history s') user ''quarantined_audit_events'')"
    using provision_Inr(2) [OF assms(1) [unfolded r] assms(3,4)]
    by (simp add: provisioned_accounts_def provision_privileges [OF assms(1,3,4,2)] intended_table)
qed (simp_all add: permitted_def provision_privileges [OF assms(1,3,4,2)] intended_table)

theorem provisioned_accounts_append_only_witness:
  "\<exists>s'. provision_main demo_admin demo_passwords example_config \<lparr>admin_env = (), admin_history = []\<rparr> = (Inr 0, s') \<and>
     permitted ''omnibioai_audit'' (admin_history s') ''audit_writer'' (InsertEvent example_row) \<and>
     \<not> permitted ''omnibioai_audit'' (admin_history s') ''audit_reader'' (InsertEvent example_row) \<and>
     list_ex (creates ''audit_reader'') (admin_history s') \<and>
     (\<exists>u es. execute_sql id ''audit_writer@%'' (InsertEvent example_row) \<lparr>t_events = [], t_quarantined = [], t_holds = []\<rparr> = Inr u \<and>
        t_events u = es \<and> t_holds u = [])"
proof -
  let ?s = "\<lparr>admin_env = (), admin_history = []\<rparr>" and ?t = "\<lparr>t_events = [], t_quarantined = [], t_holds = []\<rparr>"
  obtain s' where p: "provision_main demo_admin demo_passwords example_config ?s = (Inr 0, s')"
    by (simp add: provision_main_def demo_admin_def demo_passwords_def required_env_def env_value_def connect_admin_def
        create_user_and_grants_def execute_admin_def adm_call_def adm_log_def io_bind_def io_finally_def Let_def
        writer_grants_def reader_grants_def maintenance_grants_def PROVISION_TABLES_def)
  have h: "admin_history ?s = []" by simp
  have n: "names_database demo_admin demo_passwords example_config ''omnibioai_audit''"
    by (simp add: names_database_def demo_admin_def)
  have b: "list_all (\<lambda>c. \<not> quote_mark c) ''omnibioai_audit''" by (simp add: quote_mark_def)
  note run = provisioned_accounts_append_only [OF p h n b]
  from run [OF reaches.start [of id "\<lambda>_ _. False" ?t]]
  have w: "permitted ''omnibioai_audit'' (admin_history s') ''audit_writer'' (InsertEvent example_row)"
    and e: "list_ex (creates ''audit_reader'') (admin_history s')" by simp_all
  let ?allowed = "\<lambda>user stmt. user = ''audit_writer@%'' \<and> stmt = InsertEvent example_row"
  obtain u where u: "execute_sql id ''audit_writer@%'' (InsertEvent example_row) ?t = Inr u" by (simp add: insert_row_def)
  have "reaches id ?allowed ?t u" by (rule reaches.step [OF reaches.start _ u]) simp
  moreover have "account ''audit_writer@%'' = ''audit_writer''" by (simp add: account_def)
  ultimately have "t_holds u = []" using run [of id ?allowed ?t u] w by auto
  moreover have "\<not> permitted ''omnibioai_audit'' (admin_history s') ''audit_reader'' (InsertEvent example_row)"
    using provision_privileges [OF p n b h HOL.refl] by (simp add: permitted_def intended_table)
  ultimately show ?thesis using p u w e by blast
qed

end
