(* ===== verification/Deployment.thy ===== *)
theory Deployment
  imports Migrations Worker_Progress Provisioning
begin

text \<open>
  The system as it is deployed: the worker on the tables that the migrations created,
  with other sessions at work on the same tables at any moment and with commits that
  may fail with or without effect.  The promises the worker's theorems ask of a
  database (\<open>store_ok\<close>) are derived here from the primary keys and the triggers.
\<close>

section \<open>A server\<close>

text \<open>
  What the worker's session meets: the installed triggers, the collation, its own
  account, how the server returns a JSON document, its clock; whether a commit
  fails, and if it does, whether it took effect; and the statements other sessions execute
  before the worker's next call.
\<close>

record 'e sql_server =
  srv_triggers :: "trigger list"
  srv_collation :: collation
  srv_user :: string
  srv_json :: "pyval \<Rightarrow> pyval"
  srv_now :: "'e \<Rightarrow> datetime"
  srv_fault :: "'e \<Rightarrow> (exn \<times> bool) option \<times> 'e"
  srv_others :: "'e \<Rightarrow> (string \<times> sql) list"

definition session_step :: "'e sql_server \<Rightarrow> string \<times> sql \<Rightarrow> tables \<Rightarrow> tables" where
  "session_step S c t =
     (case triggered_sql (srv_triggers S) (srv_collation S) (fst c) (snd c) t of Inl x \<Rightarrow> t | Inr t' \<Rightarrow> t')"

text \<open>An operation of the worker, then the other sessions.\<close>

definition others :: "'e sql_server \<Rightarrow> 'a res \<times> ('e \<times> tables) \<Rightarrow> 'a res \<times> ('e \<times> tables)" where
  "others S x = (case x of (r, (e, t)) \<Rightarrow> (r, (e, fold (session_step S) (srv_others S e) t)))"

definition besides :: "'e sql_server \<Rightarrow> ('e \<Rightarrow> 'a res \<times> 'e) \<Rightarrow> 'e \<times> tables \<Rightarrow> 'a res \<times> ('e \<times> tables)" where
  "besides S f s = others S (case f (fst s) of (r, e) \<Rightarrow> (r, (e, snd s)))"

text \<open>\<open>db.commit()\<close> of a session with one new row.\<close>

definition sql_commit :: "'e sql_server \<Rightarrow> sql \<Rightarrow> 'e \<times> tables \<Rightarrow> unit res \<times> ('e \<times> tables)" where
  "sql_commit S stmt s = others S
     (case triggered_sql (srv_triggers S) (srv_collation S) (srv_user S) stmt (snd s) of
        Inl x \<Rightarrow> (Inl x, s)
      | Inr t \<Rightarrow>
          (case srv_fault S (fst s) of
             (None, e) \<Rightarrow> (Inr (), (e, t))
           | (Some (x, applied), e) \<Rightarrow> (Inl x, (e, if applied then t else snd s))))"

definition stored_event :: "'e sql_server \<Rightarrow> 'e \<Rightarrow> audit_row \<Rightarrow> audit_row" where
  "stored_event S e r = r\<lparr>timestamp := DateTime (mysql_round (wall (timestamp r))) None,
     event_context := srv_json S (event_context r), created_at := Some (srv_now S e)\<rparr>"

definition stored_quarantined :: "'e sql_server \<Rightarrow> 'e \<Rightarrow> quarantine_row \<Rightarrow> quarantine_row" where
  "stored_quarantined S e q = q\<lparr>quarantined_at := Some (srv_now S e)\<rparr>"

definition sql_ops :: "'e sql_server \<Rightarrow> 'e ops \<Rightarrow> ('e \<times> tables) ops" where
  "sql_ops S X =
     \<lparr>op_xgroup_create = (\<lambda>a b. besides S (op_xgroup_create X a b)),
      op_xreadgroup = (\<lambda>a b c m n. besides S (op_xreadgroup X a b c m n)),
      op_xack = (\<lambda>a b c. besides S (op_xack X a b c)),
      op_xpending_range = (\<lambda>a b m n. besides S (op_xpending_range X a b m n)),
      op_xrange = (\<lambda>a b c. besides S (op_xrange X a b c)),
      op_xclaim = (\<lambda>a b c m ids. besides S (op_xclaim X a b c m ids)),
      op_open_session = besides S (op_open_session X),
      op_commit_event = (\<lambda>r s. sql_commit S (InsertEvent (stored_event S (fst s) r)) s),
      op_commit_quarantine = (\<lambda>q s. sql_commit S (InsertQuarantined (stored_quarantined S (fst s) q)) s),
      op_rollback = besides S (op_rollback X),
      op_close_session = besides S (op_close_session X),
      op_monotonic = besides S (op_monotonic X),
      op_now = besides S (op_now X),
      op_uuid4 = besides S (op_uuid4 X),
      op_stdout = (\<lambda>t. besides S (op_stdout X t)),
      op_append_file = (\<lambda>p t. besides S (op_append_file X p t)),
      op_sleep = (\<lambda>t. besides S (op_sleep X t))\<rparr>"

text \<open>A lookup by primary key compares under the collation.\<close>

definition lookup :: "collation \<Rightarrow> ('r \<Rightarrow> string) \<Rightarrow> 'r list \<Rightarrow> string \<rightharpoonup> 'r" where
  "lookup col key rows k = find (\<lambda>r. col (key r) = col k) rows"

definition sql_view :: "'e sql_server \<Rightarrow> ('e \<times> tables) store_view" where
  "sql_view S =
     \<lparr>event_of = (\<lambda>s. lookup (srv_collation S) event_id (t_events (snd s))),
      quarantine_of = (\<lambda>s. lookup (srv_collation S) stream_message_id (t_quarantined (snd s)))\<rparr>"

text \<open>
  The server's part: a failing commit does not claim a duplicate key, a JSON document is
  returned with its items in any order, and the other sessions do not run under the
  maintenance account.
\<close>

definition server_ok :: "'e sql_server \<Rightarrow> bool" where
  "server_ok S \<longleftrightarrow>
     (\<forall>e x b e'. srv_fault S e = (Some (x, b), e') \<longrightarrow> kind x \<noteq> IntegrityError) \<and>
     (\<forall>d. context_read_as (PDict d) (srv_json S (PDict d))) \<and>
     (\<forall>e c. c \<in> set (srv_others S e) \<longrightarrow> \<not> is_maintenance (srv_collation S) (fst c))"

section \<open>The tables only grow\<close>

definition extends :: "tables \<Rightarrow> tables \<Rightarrow> bool" where
  "extends t u \<longleftrightarrow> (\<exists>es qs. t_events u = t_events t @ es \<and> t_quarantined u = t_quarantined t @ qs)"

lemma extends_refl [simp]: "extends t t"
  by (simp add: extends_def)

lemma extends_trans: "extends t u \<Longrightarrow> extends u v \<Longrightarrow> extends t v"
  by (auto simp: extends_def)

lemma denied_delete: "\<forall>r \<in> set rows. p r \<longrightarrow> False \<Longrightarrow> filter (\<lambda>r. \<not> p r) rows = rows"
  by (simp add: filter_id_conv)

lemma ordinary_session_extends:
  assumes "execute_sql col user stmt t = Inr u" and "\<not> is_maintenance col user"
  shows "extends t u"
  using assms by (cases stmt) (auto simp: extends_def row_iffs denied_delete)

lemma others_extend:
  assumes "srv_triggers S = retention_triggers" and "server_ok S" and "others S (r, (e, t)) = (r', (e', t'))"
  shows "r' = r" and "e' = e" and "extends t t'"
proof -
  have step: "extends t (session_step S c t)" if "\<not> is_maintenance (srv_collation S) (fst c)" for c t
    using ordinary_session_extends that
    by (fastforce simp: session_step_def assms(1) triggered_retention split: sum.split)
  have "extends t (fold (session_step S) cs t)" if "\<forall>c \<in> set cs. \<not> is_maintenance (srv_collation S) (fst c)" for cs
    using that by (induction cs arbitrary: t) (auto intro: step extends_trans)
  moreover have "\<forall>c \<in> set (srv_others S e). \<not> is_maintenance (srv_collation S) (fst c)"
    using assms(2) unfolding server_ok_def by blast
  ultimately show "r' = r" "e' = e" "extends t t'" using assms(3) by (auto simp: others_def)
qed

lemma find_append: "find p (xs @ ys) = (case find p xs of None \<Rightarrow> find p ys | Some x \<Rightarrow> Some x)"
  by (induction xs) auto

lemma lookup_append: "lookup col key xs k = Some r \<Longrightarrow> lookup col key (xs @ ys) k = Some r"
  by (simp add: lookup_def find_append)

lemma lookup_extends:
  "extends t u \<Longrightarrow> lookup col event_id (t_events t) k = Some r \<Longrightarrow> lookup col event_id (t_events u) k = Some r"
  "extends t u \<Longrightarrow> lookup col stream_message_id (t_quarantined t) k = Some q \<Longrightarrow>
     lookup col stream_message_id (t_quarantined u) k = Some q"
  by (auto simp: extends_def lookup_append)

lemma extends_store_le: "extends (snd s) (snd s') \<Longrightarrow> store_le (sql_view S) s s'"
  by (auto simp: extends_def store_le_def sql_view_def map_le_def dom_def lookup_append)

lemma sql_commit_extends:
  assumes "srv_triggers S = retention_triggers" and "server_ok S"
    and "stmt = InsertEvent row \<or> stmt = InsertQuarantined q"
  shows "extends (snd s) (snd (snd (sql_commit S stmt s)))"
proof -
  obtain e t where s: "s = (e, t)" by (rule prod.exhaust)
  have grow: "extends t u" if "triggered_sql (srv_triggers S) (srv_collation S) (srv_user S) stmt t = Inr u" for u
    using that assms(3) by (auto simp: assms(1) triggered_retention extends_def row_iffs)
  have o: "extends t (snd (snd (others S (r, (e', t')))))" if "extends t t'" for r :: "unit res" and e' t'
  proof -
    obtain r'' e'' t'' where x: "others S (r, (e', t')) = (r'', (e'', t''))" by (metis prod.exhaust)
    show ?thesis using others_extend(3) [OF assms(1,2) x] that x by (auto intro: extends_trans)
  qed
  show ?thesis
    unfolding s sql_commit_def using grow by (auto intro!: o split: sum.split prod.split option.split)
qed

lemma besides_extends:
  assumes "srv_triggers S = retention_triggers" and "server_ok S"
  shows "extends (snd s) (snd (snd (besides S f s)))"
proof -
  obtain r e where f: "f (fst s) = (r, e)" by (rule prod.exhaust)
  obtain r' e' t' where x: "others S (r, (e, snd s)) = (r', (e', t'))" by (metis prod.exhaust)
  show ?thesis using others_extend(3) [OF assms x] f x by (simp add: besides_def)
qed

lemma sql_append_only:
  assumes "srv_triggers S = retention_triggers" and "server_ok S"
  shows "append_only (sql_ops S X) (sql_view S)"
proof -
  have b: "store_le (sql_view S) s (snd (besides S f s))" for s and f :: "'a \<Rightarrow> 'b res \<times> 'a"
    by (rule extends_store_le) (rule besides_extends [OF assms])
  have c: "store_le (sql_view S) s (snd (sql_commit S (InsertEvent r) s))"
    "store_le (sql_view S) s (snd (sql_commit S (InsertQuarantined q) s))" for s r q
    by (rule extends_store_le, rule sql_commit_extends [OF assms], blast)+
  show ?thesis
    unfolding append_only_def sql_ops_def
    by (simp add: c) (intro conjI allI extends_store_le besides_extends assms)
qed


section \<open>The promises of the store\<close>

lemma find_none: "find p xs = None \<longleftrightarrow> \<not> list_ex p xs"
  by (induction xs) auto

lemma insert_lookup:
  assumes "\<not> list_ex (\<lambda>x. [col (key x)] = [col (key r)]) rows"
  shows "lookup col key (rows @ [r]) (key r) = Some r"
  using assms find_none [of "\<lambda>x. col (key x) = col (key r)" rows] by (simp add: lookup_def find_append)

text \<open>How a commit that inserts a row can end.\<close>

lemma sql_commit_cases:
  assumes "srv_triggers S = retention_triggers" and "server_ok S" and "sql_commit S stmt (e, t) = (r, s')"
    and "stmt = InsertEvent row \<or> stmt = InsertQuarantined q"
  obtains (inserted) u where "r = Inr ()" "execute_sql (srv_collation S) (srv_user S) stmt t = Inr u" "extends u (snd s')"
  | (refused) x where "r = Inl x" "execute_sql (srv_collation S) (srv_user S) stmt t = Inl x"
  | (lost) x u where "r = Inl x" "kind x \<noteq> IntegrityError" "execute_sql (srv_collation S) (srv_user S) stmt t = Inr u"
proof -
  have ex: "triggered_sql (srv_triggers S) (srv_collation S) (srv_user S) stmt t = execute_sql (srv_collation S) (srv_user S) stmt t"
    by (simp add: assms(1) triggered_retention)
  show thesis
  proof (cases "execute_sql (srv_collation S) (srv_user S) stmt t")
    case (Inl x)
    with assms(3) ex have "r = Inl x" by (simp add: sql_commit_def others_def)
    with Inl show thesis by (rule refused [rotated])
  next
    case (Inr u)
    obtain f e1 where f: "srv_fault S e = (f, e1)" by (rule prod.exhaust)
    show thesis
    proof (cases f)
      case None
      then have "others S (Inr (), (e1, u)) = (r, s')" using assms(3) ex Inr f by (simp add: sql_commit_def)
      moreover obtain e2 t2 where "s' = (e2, t2)" by (rule prod.exhaust)
      ultimately have "r = Inr ()" "extends u (snd s')" using others_extend [OF assms(1,2)] by fastforce+
      with Inr show thesis by (intro inserted)
    next
      case (Some xb)
      obtain x b where "xb = (x, b)" by (rule prod.exhaust)
      then have "r = Inl x" "srv_fault S e = (Some (x, b), e1)" using assms(3) ex Inr f Some by (auto simp: sql_commit_def others_def)
      moreover from this(2) have "kind x \<noteq> IntegrityError" using assms(2) unfolding server_ok_def by blast
      ultimately show thesis using Inr by (intro lost)
    qed
  qed
qed

lemma insert_refused:
  "execute_sql col user (InsertEvent r) t = Inl x \<Longrightarrow> lookup col event_id (t_events t) (event_id r) \<noteq> None"
  "execute_sql col user (InsertQuarantined q) t = Inl x \<Longrightarrow> lookup col stream_message_id (t_quarantined t) (stream_message_id q) \<noteq> None"
  by (auto simp: insert_row_def lookup_def find_none split: if_splits)

lemma insert_accepted:
  "execute_sql col user (InsertEvent r) t = Inr u \<Longrightarrow> lookup col event_id (t_events u) (event_id r) = Some r"
  "execute_sql col user (InsertQuarantined q) t = Inr u \<Longrightarrow> lookup col stream_message_id (t_quarantined u) (stream_message_id q) = Some q"
  by (auto simp: insert_row_iff intro!: insert_lookup)

lemma stored_event_as:
  assumes "server_ok S"
  shows "stored_as row (stored_event S e row)"
proof -
  have "\<forall>d. event_context row = PDict d \<longrightarrow> context_read_as (PDict d) (srv_json S (event_context row))"
    using assms by (simp add: server_ok_def)
  then show ?thesis unfolding stored_as_def stored_event_def by blast
qed

lemma commit_ops:
  "op_commit_event (sql_ops S X) row = (\<lambda>s. sql_commit S (InsertEvent (stored_event S (fst s) row)) s)"
  "op_commit_quarantine (sql_ops S X) q = (\<lambda>s. sql_commit S (InsertQuarantined (stored_quarantined S (fst s) q)) s)"
  by (simp_all add: sql_ops_def)

lemma stored_keys [simp]:
  "event_id (stored_event S e row) = event_id row" "stream_message_id (stored_quarantined S e q) = stream_message_id q"
  by (simp_all add: stored_event_def stored_quarantined_def)

text \<open>A commit that returns has stored the row; one that reports a duplicate has met one.\<close>

lemma committed:
  assumes "srv_triggers S = retention_triggers" and "server_ok S" and "sql_commit S stmt s = (Inr (), s')"
  shows "stmt = InsertEvent r \<Longrightarrow> lookup (srv_collation S) event_id (t_events (snd s')) (event_id r) = Some r"
    and "stmt = InsertQuarantined q \<Longrightarrow>
      lookup (srv_collation S) stream_message_id (t_quarantined (snd s')) (stream_message_id q) = Some q"
proof -
  obtain e t where s: "s = (e, t)" by (rule prod.exhaust)
  have u: "\<exists>u. execute_sql (srv_collation S) (srv_user S) stmt t = Inr u \<and> extends u (snd s')"
    if "stmt = InsertEvent r \<or> stmt = InsertQuarantined q"
    using assms(3) [unfolded s] that by (rule sql_commit_cases [OF assms(1,2)]) auto
  show "stmt = InsertEvent r \<Longrightarrow> lookup (srv_collation S) event_id (t_events (snd s')) (event_id r) = Some r"
    "stmt = InsertQuarantined q \<Longrightarrow>
      lookup (srv_collation S) stream_message_id (t_quarantined (snd s')) (stream_message_id q) = Some q"
    using u insert_accepted lookup_extends by metis+
qed

lemma duplicated:
  assumes "srv_triggers S = retention_triggers" and "server_ok S" and "sql_commit S stmt s = (Inl x, s')"
    and "kind x = IntegrityError"
  shows "stmt = InsertEvent r \<Longrightarrow> lookup (srv_collation S) event_id (t_events (snd s)) (event_id r) \<noteq> None"
    and "stmt = InsertQuarantined q \<Longrightarrow>
      lookup (srv_collation S) stream_message_id (t_quarantined (snd s)) (stream_message_id q) \<noteq> None"
proof -
  obtain e t where s: "s = (e, t)" by (rule prod.exhaust)
  have "\<exists>x. execute_sql (srv_collation S) (srv_user S) stmt t = Inl x" if "stmt = InsertEvent r \<or> stmt = InsertQuarantined q"
    using assms(3) [unfolded s] that by (rule sql_commit_cases [OF assms(1,2)]) (use assms(4) in auto)
  with insert_refused s show "stmt = InsertEvent r \<Longrightarrow> lookup (srv_collation S) event_id (t_events (snd s)) (event_id r) \<noteq> None"
    "stmt = InsertQuarantined q \<Longrightarrow>
      lookup (srv_collation S) stream_message_id (t_quarantined (snd s)) (stream_message_id q) \<noteq> None"
    by fastforce+
qed

lemma sql_commits_ok:
  assumes "srv_triggers S = retention_triggers" and "server_ok S"
  shows "commits_ok (sql_ops S X) (sql_view S)"
proof -
  have q: "quarantine_stored_as q (stored_quarantined S e q)" for q e
    by (auto simp: quarantine_stored_as_def stored_quarantined_def)
  note c = committed [OF assms _ HOL.refl, unfolded stored_keys] and d = duplicated [OF assms _ _ HOL.refl, unfolded stored_keys]
  have "\<exists>r. event_of (sql_view S) s' (event_id row) = Some r \<and> stored_as row r"
    if "op_commit_event (sql_ops S X) row s = (Inr (), s')" for row s s'
    using c(1) [OF that [unfolded commit_ops]] stored_event_as [OF assms(2)] by (simp add: sql_view_def)
  moreover have "\<exists>r. quarantine_of (sql_view S) s' (stream_message_id row) = Some r \<and> quarantine_stored_as row r"
    if "op_commit_quarantine (sql_ops S X) row s = (Inr (), s')" for row s s'
    using c(2) [OF that [unfolded commit_ops]] q by (simp add: sql_view_def)
  moreover have "event_of (sql_view S) s (event_id row) \<noteq> None"
    if "op_commit_event (sql_ops S X) row s = (Inl x, s')" "kind x = IntegrityError" for row s s' x
    using d(1) [OF that [unfolded commit_ops]] by (simp add: sql_view_def)
  moreover have "quarantine_of (sql_view S) s (stream_message_id row) \<noteq> None"
    if "op_commit_quarantine (sql_ops S X) row s = (Inl x, s')" "kind x = IntegrityError" for row s s' x
    using d(2) [OF that [unfolded commit_ops]] by (simp add: sql_view_def)
  ultimately show ?thesis unfolding commits_ok_def by blast
qed

lemma sql_store_ok:
  "srv_triggers S = retention_triggers \<Longrightarrow> server_ok S \<Longrightarrow> store_ok (sql_ops S X) (sql_view S)"
  by (simp add: store_ok_def sql_append_only sql_commits_ok)

section \<open>Relations between the tables before and after\<close>

text \<open>
  A relation between tables that the other sessions keep is kept by every call of the
  worker that is not a commit, and by the worker if its two handlers keep it.
\<close>

locale server_relation =
  fixes S :: "'e sql_server" and Q :: "tables \<Rightarrow> tables \<Rightarrow> bool"
  assumes Q_refl: "Q t t" and Q_trans: "Q t u \<Longrightarrow> Q u v \<Longrightarrow> Q t v"
    and sessions: "Q t (fold (session_step S) (srv_others S e) t)"

sublocale server_relation \<subseteq> world_relation "\<lambda>w w'. Q (snd (env w)) (snd (env w'))"
  by unfold_locales (auto intro: Q_refl Q_trans)

context server_relation begin

lemma keeps_besides: "keeps (\<lambda>w w'. Q (snd (env w)) (snd (env w'))) (io_call (besides S f))"
  by (auto simp: keeps_def io_call_def besides_def others_def sessions split: prod.split)

lemma keeps_calls:
  "keeps (\<lambda>w w'. Q (snd (env w)) (snd (env w'))) (io_call (op_xgroup_create (sql_ops S X) a b))"
  "keeps (\<lambda>w w'. Q (snd (env w)) (snd (env w'))) (io_call (op_xreadgroup (sql_ops S X) a b c m n))"
  "keeps (\<lambda>w w'. Q (snd (env w)) (snd (env w'))) (io_call (op_xack (sql_ops S X) a b c))"
  "keeps (\<lambda>w w'. Q (snd (env w)) (snd (env w'))) (io_call (op_xpending_range (sql_ops S X) a b m n))"
  "keeps (\<lambda>w w'. Q (snd (env w)) (snd (env w'))) (io_call (op_xrange (sql_ops S X) a b c))"
  "keeps (\<lambda>w w'. Q (snd (env w)) (snd (env w'))) (io_call (op_xclaim (sql_ops S X) a b c m ids))"
  "keeps (\<lambda>w w'. Q (snd (env w)) (snd (env w'))) (io_call (op_open_session (sql_ops S X)))"
  "keeps (\<lambda>w w'. Q (snd (env w)) (snd (env w'))) (io_call (op_rollback (sql_ops S X)))"
  "keeps (\<lambda>w w'. Q (snd (env w)) (snd (env w'))) (io_call (op_close_session (sql_ops S X)))"
  "keeps (\<lambda>w w'. Q (snd (env w)) (snd (env w'))) (io_call (op_monotonic (sql_ops S X)))"
  "keeps (\<lambda>w w'. Q (snd (env w)) (snd (env w'))) (io_call (op_now (sql_ops S X)))"
  "keeps (\<lambda>w w'. Q (snd (env w)) (snd (env w'))) (io_call (op_uuid4 (sql_ops S X)))"
  "keeps (\<lambda>w w'. Q (snd (env w)) (snd (env w'))) (io_call (op_stdout (sql_ops S X) txt))"
  "keeps (\<lambda>w w'. Q (snd (env w)) (snd (env w'))) (io_call (op_append_file (sql_ops S X) p txt))"
  "keeps (\<lambda>w w'. Q (snd (env w)) (snd (env w'))) (io_call (op_sleep (sql_ops S X) dur))"
  by (simp_all add: sql_ops_def keeps_besides)

lemma keeps_world_only:
  "keeps (\<lambda>w w'. Q (snd (env w)) (snd (env w'))) (io_log x)"
  "keeps (\<lambda>w w'. Q (snd (env w)) (snd (env w'))) (alert_gate a window time)"
  "keeps (\<lambda>w w'. Q (snd (env w)) (snd (env w'))) (nogroup_due b time)"
  by (simp_all add: keeps_def Q_refl alert_gate_eq nogroup_due_def)

lemma keeps_alert: "keeps (\<lambda>w w'. Q (snd (env w)) (snd (env w'))) (emit_alert (sql_ops S X) osenv c sev cmp msg md)"
  unfolding emit_alert_def by (intro keeps_emit_security_alert keeps_default_send keeps_calls keeps_world_only)

lemma keeps_worker:
  assumes "\<And>i fs. keeps (\<lambda>w w'. Q (snd (env w)) (snd (env w'))) (handle_message (sql_ops S X) P cfg i fs)"
    and "\<And>i fs n. keeps (\<lambda>w w'. Q (snd (env w)) (snd (env w'))) (quarantine_and_ack (sql_ops S X) osenv cfg i fs n)"
  shows "keeps (\<lambda>w w'. Q (snd (env w)) (snd (env w'))) (worker_main (sql_ops S X) P osenv cfg n)"
proof -
  have s: "keeps (\<lambda>w w'. Q (snd (env w)) (snd (env w'))) (sleep (sql_ops S X) d)" for d
    unfolding sleep_def by (intro keeps_rules keeps_calls keeps_world_only)
  show ?thesis
    unfolding worker_main_def
    by (intro keeps_bind keeps_lift keeps_run keeps_iteration keeps_claim_stale keeps_handle_nogroup keeps_recreate_group keeps_ensure_group
        keeps_calls keeps_world_only keeps_alert s assms)
qed

end

text \<open>Under the installed triggers and a proper server the tables are extended.\<close>

definition guarded :: "'e sql_server \<Rightarrow> bool" where
  "guarded S \<longleftrightarrow> srv_triggers S = retention_triggers \<and> server_ok S"

interpretation sx: server_relation S "\<lambda>t u. guarded S \<longrightarrow> extends t u" for S
proof
  fix t e
  show "guarded S \<longrightarrow> extends t (fold (session_step S) (srv_others S e) t)"
  proof
    assume "guarded S"
    then have g: "srv_triggers S = retention_triggers" "server_ok S" by (simp_all add: guarded_def)
    obtain r e' t' where x: "others S (Inr () :: unit res, (e, t)) = (r, (e', t'))" by (metis prod.exhaust)
    show "extends t (fold (session_step S) (srv_others S e) t)"
      using others_extend(3) [OF g x] x by (auto simp: others_def)
  qed
qed (auto intro: extends_trans)

lemma env_io_call [simp]: "env (snd (io_call f w)) = snd (f (env w))"
  by (simp add: io_call_def split: prod.split)

lemma keeps_commits_extend:
  "keeps (\<lambda>w w'. guarded S \<longrightarrow> extends (snd (env w)) (snd (env w'))) (io_call (op_commit_event (sql_ops S X) row))"
  "keeps (\<lambda>w w'. guarded S \<longrightarrow> extends (snd (env w)) (snd (env w'))) (io_call (op_commit_quarantine (sql_ops S X) q))"
  by (auto simp: keeps_def guarded_def commit_ops intro!: sql_commit_extends)

lemma worker_extends:
  assumes "guarded S" and "worker_main (sql_ops S X) P osenv cfg n w = (r, w')"
  shows "extends (snd (env w)) (snd (env w'))"
proof -
  have w: "keeps (\<lambda>w w'. guarded S \<longrightarrow> extends (snd (env w)) (snd (env w'))) (sink_write (sql_ops S X) cfg ev st)"
    "keeps (\<lambda>w w'. guarded S \<longrightarrow> extends (snd (env w)) (snd (env w'))) (quarantine_write (sql_ops S X) os cfg i fs m)"
    for ev st i fs m os
    unfolding sink_write_def quarantine_write_def
    by (intro sx.keeps_rules sx.keeps_calls sx.keeps_world_only sx.keeps_alert keeps_commits_extend)+
  have "keeps (\<lambda>w w'. guarded S \<longrightarrow> extends (snd (env w)) (snd (env w'))) (worker_main (sql_ops S X) P osenv cfg n)"
    by (intro sx.keeps_worker sx.keeps_acking sx.keeps_world_only sx.keeps_calls w)
  from keepsD [OF this assms(2)] assms(1) show ?thesis by simp
qed

section \<open>The deployed worker\<close>

text \<open>The triggers that are installed after the migrations.\<close>

lemma lookup_some:
  assumes "lookup col key rows k \<noteq> None"
  shows "\<exists>r \<in> set rows. col (key r) = col k"
  using assms unfolding lookup_def find_none list_ex_iff by blast

lemma lookup_Some:
  assumes "lookup col key rows k = Some r"
  shows "r \<in> set rows" and "col (key r) = col k"
  using assms unfolding lookup_def find_Some_iff by auto

text \<open>The lookups by primary key, in terms of the tables.\<close>

lemma sql_stored:
  "event_stored (sql_view S) s row dup \<Longrightarrow> if dup
    then \<exists>x \<in> set (t_events (snd s)). srv_collation S (event_id x) = srv_collation S (event_id row)
    else \<exists>x \<in> set (t_events (snd s)). stored_as row x"
  "quarantine_stored (sql_view S) s q dup \<Longrightarrow> if dup
    then \<exists>x \<in> set (t_quarantined (snd s)). srv_collation S (stream_message_id x) = srv_collation S (stream_message_id q)
    else \<exists>x \<in> set (t_quarantined (snd s)). quarantine_stored_as q x"
  using lookup_some [of "srv_collation S" event_id "t_events (snd s)" "event_id row"]
    lookup_some [of "srv_collation S" stream_message_id "t_quarantined (snd s)" "stream_message_id q"]
  by (auto simp: event_stored_def quarantine_stored_def sql_view_def dest: lookup_Some(1) split: if_splits)

lemma acked_in_tables:
  assumes "srv_triggers S = retention_triggers" and "server_ok S"
    and "worker_main (sql_ops S X) P osenv cfg n (world_init (e, t)) = (r, w')" and "Ack i \<in> set (history w')"
  shows "\<exists>fs g h.
       (\<exists>row dup. history w' = g @ [Handling i fs, EventCommit row dup, Ack i] @ h \<and> event_row_of P cfg fs row \<and>
          (if dup then \<exists>x \<in> set (t_events (snd (env w'))). srv_collation S (event_id x) = srv_collation S (event_id row)
           else \<exists>x \<in> set (t_events (snd (env w'))). stored_as row x)) \<or>
       (\<exists>row dup as. history w' = g @ [Handling i fs, QuarantineCommit row dup] @ as @ [Ack i] @ h \<and>
          list_all is_alert as \<and> quarantine_row_of cfg i fs row \<and>
          (if dup then \<exists>x \<in> set (t_quarantined (snd (env w'))).
               srv_collation S (stream_message_id x) = srv_collation S (stream_message_id row)
           else \<exists>x \<in> set (t_quarantined (snd (env w'))). quarantine_stored_as row x))"
proof -
  from acked_stored [OF sql_store_ok [OF assms(1,2)] assms(3,4)] show ?thesis
  proof (elim exE disjE conjE)
    fix fs g h row dup
    assume "history w' = g @ [Handling i fs, EventCommit row dup, Ack i] @ h" "event_row_of P cfg fs row"
      and "event_stored (sql_view S) (env w') row dup"
    with sql_stored(1) [OF this(3)] show ?thesis by (intro exI conjI disjI1)
  next
    fix fs g h row dup as
    assume "history w' = g @ [Handling i fs, QuarantineCommit row dup] @ as @ [Ack i] @ h" "list_all is_alert as"
      "quarantine_row_of cfg i fs row" and "quarantine_stored (sql_view S) (env w') row dup"
    with sql_stored(2) [OF this(4)] show ?thesis by (intro exI conjI disjI2)
  qed
qed


section \<open>Every row was written by the worker\<close>

definition evidence :: "collation \<Rightarrow> config \<Rightarrow> tables \<Rightarrow> bool" where
  "evidence col cfg t \<longleftrightarrow>
     (\<forall>r \<in> set (t_events t). written_event cfg r) \<and> (\<forall>q \<in> set (t_quarantined t). written_quarantined cfg q) \<and>
     distinct (map (\<lambda>r. col (event_id r)) (t_events t)) \<and> distinct (map (\<lambda>q. col (stream_message_id q)) (t_quarantined t))"

fun inserts :: "sql \<Rightarrow> bool" where
  "inserts (InsertEvent r) = True"
| "inserts (InsertQuarantined q) = True"
| "inserts _ = False"

lemma evidence_filter:
  assumes "evidence col cfg t" and "t_events u = filter p (t_events t)" and "t_quarantined u = filter p' (t_quarantined t)"
  shows "evidence col cfg u"
  using assms by (auto simp: evidence_def distinct_map_filter)

text \<open>Whoever executes it, a statement that inserts no row of the two tables keeps this.\<close>

lemma session_evidence:
  assumes "execute_sql col user stmt t = Inr u" and "\<not> inserts stmt" and "evidence col cfg t"
  shows "evidence col cfg u"
proof -
  have "(\<exists>p. t_events u = filter p (t_events t)) \<and> (\<exists>p. t_quarantined u = filter p (t_quarantined t))"
    using assms(1,2) filter_True [of "t_events t" "\<lambda>_. True"] filter_True [of "t_quarantined t" "\<lambda>_. True"]
    by (cases stmt) (auto simp: row_iffs intro: exI [of _ "\<lambda>_. True"])
  with assms(3) show ?thesis by (auto intro: evidence_filter)
qed

lemma insert_evidence:
  "\<lbrakk>execute_sql col user (InsertEvent r) t = Inr u; written_event cfg r; evidence col cfg t\<rbrakk> \<Longrightarrow> evidence col cfg u"
  "\<lbrakk>execute_sql col user (InsertQuarantined q) t = Inr u; written_quarantined cfg q; evidence col cfg t\<rbrakk> \<Longrightarrow> evidence col cfg u"
  by (auto simp: insert_row_iff evidence_def list_ex_iff) blast+

lemma cleaned_evidence: "evidence col cfg t \<Longrightarrow> evidence col cfg (fold (cleaned col' limit) tabs t)"
proof (induction tabs arbitrary: t)
  case (Cons table tabs)
  have "evidence col cfg (cleaned col' limit table t)"
    using Cons.prems by (cases table) (auto simp: cleaned_def evidence_def distinct_map_filter)
  with Cons.IH show ?case by simp
qed simp

text \<open>The other sessions insert nothing: the worker is the only writer.\<close>

definition sole_writer :: "'e sql_server \<Rightarrow> bool" where
  "sole_writer S \<longleftrightarrow> (\<forall>e. \<forall>c \<in> set (srv_others S e). \<not> inserts (snd c))"

lemma sessions_evidence:
  assumes "srv_triggers S = retention_triggers" and "sole_writer S" and "evidence (srv_collation S) cfg t"
  shows "evidence (srv_collation S) cfg (fold (session_step S) (srv_others S e) t)"
proof -
  have step: "evidence (srv_collation S) cfg (session_step S c u)"
    if "\<not> inserts (snd c)" "evidence (srv_collation S) cfg u" for c u
    using session_evidence that
    by (fastforce simp: session_step_def assms(1) triggered_retention split: sum.split)
  have "evidence (srv_collation S) cfg (fold (session_step S) cs u)"
    if "\<forall>c \<in> set cs. \<not> inserts (snd c)" "evidence (srv_collation S) cfg u" for cs u
    using that by (induction cs arbitrary: u) (auto intro: step)
  moreover have "\<forall>c \<in> set (srv_others S e). \<not> inserts (snd c)" using assms(2) by (simp add: sole_writer_def)
  ultimately show ?thesis using assms(3) by blast
qed

definition kept_evidence :: "'e sql_server \<Rightarrow> config \<Rightarrow> tables \<Rightarrow> tables \<Rightarrow> bool" where
  "kept_evidence S cfg t u \<longleftrightarrow>
     (guarded S \<and> sole_writer S \<and> evidence (srv_collation S) cfg t \<longrightarrow> evidence (srv_collation S) cfg u)"

interpretation se: server_relation S "kept_evidence S cfg" for S cfg
  by unfold_locales (auto simp: kept_evidence_def guarded_def intro: sessions_evidence)

lemma kept_commit:
  assumes "\<And>u. execute_sql (srv_collation S) (srv_user S) stmt t = Inr u \<Longrightarrow> evidence (srv_collation S) cfg t \<Longrightarrow>
    server_ok S \<Longrightarrow> evidence (srv_collation S) cfg u"
  shows "kept_evidence S cfg t (snd (snd (sql_commit S stmt (e, t))))"
proof -
  have "evidence (srv_collation S) cfg (snd (snd (sql_commit S stmt (e, t))))"
    if g: "srv_triggers S = retention_triggers" "server_ok S" "sole_writer S" and ev: "evidence (srv_collation S) cfg t"
  proof -
    have o: "evidence (srv_collation S) cfg (snd (snd (others S (r, (e', u)))))"
      if "evidence (srv_collation S) cfg u" for r :: "unit res" and e' u
      using sessions_evidence [OF g(1,3) that] by (simp add: others_def)
    show ?thesis
      unfolding sql_commit_def snd_conv fst_conv g(1) triggered_retention
      using assms [OF _ ev g(2)] ev by (auto intro!: o split: sum.split prod.split option.split)
  qed
  then show ?thesis by (auto simp: kept_evidence_def guarded_def)
qed

lemma keeps_commit_event_evidence:
  assumes "\<And>e. server_ok S \<Longrightarrow> written_event cfg (stored_event S e row)"
  shows "keeps (\<lambda>w w'. kept_evidence S cfg (snd (env w)) (snd (env w'))) (io_call (op_commit_event (sql_ops S X) row))"
  unfolding keeps_def env_io_call commit_ops by (metis assms insert_evidence(1) kept_commit prod.collapse)

lemma keeps_commit_quarantine_evidence:
  assumes "quarantine_sink_row cfg i fs n = Inr q"
  shows "keeps (\<lambda>w w'. kept_evidence S cfg (snd (env w)) (snd (env w'))) (io_call (op_commit_quarantine (sql_ops S X) q))"
proof -
  have "written_quarantined cfg (stored_quarantined S e q)" for e
    using assms unfolding written_quarantined_def quarantine_stored_as_def stored_quarantined_def by blast
  then show ?thesis
    unfolding keeps_def env_io_call commit_ops by (metis insert_evidence(2) kept_commit prod.collapse)
qed

text \<open>The two handlers of the worker; Python's \<open>datetime\<close> values are in range.\<close>

definition times_ok :: "'e ops \<Rightarrow> pydantic \<Rightarrow> bool" where
  "times_ok X P \<longleftrightarrow> (\<forall>e n e'. op_now X e = (Inr n, e') \<longrightarrow> in_range (wall n)) \<and>
     (\<forall>v t. valid_datetime P v = Some t \<longrightarrow> in_range (wall t))"

lemma accepted_times:
  assumes "audit_event_init P u n args = Inr ev" and "\<forall>v t. valid_datetime P v = Some t \<longrightarrow> in_range (wall t)"
    and "in_range (wall n)"
  shows "in_range (wall (timestamp ev))" and "\<exists>ctx. event_context ev = PDict ctx"
proof -
  have d: "in_range (wall ts)" if "get_default (valid_datetime P) n args ''timestamp'' = Inr ts" for ts
    using that assms(2,3) by (auto simp: get_default_def invalid_def split: option.splits)
  show "in_range (wall (timestamp ev))" "\<exists>ctx. event_context ev = PDict ctx"
    using assms(1) by (auto simp: audit_event_init_def validate_tenant_scope_iff dest: d)
qed

lemma parse_entry_times:
  assumes "times_ok X P" and "parse_entry (sql_ops S X) P fs w = (Inr (Some ev), w')"
  shows "in_range (wall (timestamp ev))" and "\<exists>ctx. event_context ev = PDict ctx"
proof -
  have now: "in_range (wall n)" if "op_now (sql_ops S X) s = (Inr n, s')" for n s s'
    using that assms(1) by (auto simp: sql_ops_def besides_def others_def times_ok_def split: prod.splits)
  have zero: "in_range (wall (DateTime 0 None))" by (simp add: in_range_def max_wall_def usec_day_def usec_def)
  obtain u n v v' where t: "(if payload_lacks (map_of fs ''data'') ''timestamp'' then io_call (op_now (sql_ops S X))
      else io_return (DateTime 0 None)) v = (Inr n, v')" and p: "parse_audit_event P u n (map_of fs ''data'') = Inr ev"
    using assms(2) by (auto simp: parse_entry_def io_try_eq io_bind_Inr)
  have n: "in_range (wall n)"
    using t now zero by (auto simp: io_call_def split: if_splits prod.splits)
  obtain v where "(case v of PDict d \<Rightarrow> audit_event_init P u n d
      | _ \<Rightarrow> raise TypeError ''argument after ** must be a mapping'') = Inr ev"
    using p unfolding parse_audit_event_def bind_res_Inr by blast
  then obtain args where a: "audit_event_init P u n args = Inr ev" by (cases v) auto
  have "\<forall>v t. valid_datetime P v = Some t \<longrightarrow> in_range (wall t)" using assms(1) by (simp add: times_ok_def)
  from accepted_times [OF a this n] show "in_range (wall (timestamp ev))" "\<exists>ctx. event_context ev = PDict ctx"
    by blast+
qed

lemma keeps_sink_write_evidence:
  assumes "in_range (wall (timestamp ev))" and "event_context ev = PDict ctx"
  shows "keeps (\<lambda>w w'. kept_evidence S cfg (snd (env w)) (snd (env w'))) (sink_write (sql_ops S X) cfg ev status)"
proof (cases "sink_row cfg ev status")
  case (Inr row)
  have "written_event cfg (stored_event S e row)" if "server_ok S" for e
    unfolding written_event_def using Inr assms stored_event_as [OF that] by blast
  with Inr show ?thesis
    unfolding sink_write_def
    by (simp del: io_basic) (intro se.keeps_rules se.keeps_calls se.keeps_world_only keeps_commit_event_evidence)
qed (simp add: sink_write_def se.keeps_lift del: io_basic)

lemma keeps_ack_evidence: "keeps (\<lambda>w w'. kept_evidence S cfg (snd (env w)) (snd (env w'))) (ack (sql_ops S X) cfg' i)"
  unfolding ack_def by (intro se.keeps_rules se.keeps_world_only se.keeps_calls)

lemma keeps_handle_message_evidence:
  assumes "times_ok X P"
  shows "keeps (\<lambda>w w'. kept_evidence S cfg (snd (env w)) (snd (env w'))) (handle_message (sql_ops S X) P cfg i fs)"
proof -
  let ?R = "\<lambda>w w'. kept_evidence S cfg (snd (env w)) (snd (env w'))"
  have parse: "keeps ?R (parse_entry (sql_ops S X) P fs)" unfolding parse_entry_def by (intro se.keeps_rules se.keeps_calls)
  show "keeps ?R (handle_message (sql_ops S X) P cfg i fs)"
    unfolding handle_message_def Let_def
  proof (rule se.keeps_bind [OF se.keeps_world_only(1)], rule se.keeps_bind_result [OF parse])
    fix w event w'
    assume p: "parse_entry (sql_ops S X) P fs w = (Inr event, w')"
    show "?R w' (snd ((case event of None \<Rightarrow> io_return False
        | Some ev \<Rightarrow> io_bind (with_session (sql_ops S X) (sink_write (sql_ops S X) cfg ev (classify_event_integrity (service ev)
              (map_of fs ''sig'') (map_of fs ''data'') (EVENT_SIGNING_SECRET cfg)))) (\<lambda>written.
            if \<not> written then io_return False else io_bind (ack (sql_ops S X) cfg i) (\<lambda>_. io_return True))) w'))"
    proof (cases event)
      case (Some ev)
      obtain ctx where "in_range (wall (timestamp ev))" "event_context ev = PDict ctx"
        using parse_entry_times [OF assms p [unfolded Some]] by blast
      note w = keeps_sink_write_evidence [OF this]
      have "keeps ?R (io_bind (with_session (sql_ops S X) (sink_write (sql_ops S X) cfg ev (classify_event_integrity (service ev)
              (map_of fs ''sig'') (map_of fs ''data'') (EVENT_SIGNING_SECRET cfg)))) (\<lambda>written.
            if \<not> written then io_return False else io_bind (ack (sql_ops S X) cfg i) (\<lambda>_. io_return True)))"
        by (intro se.keeps_rules se.keeps_with_session se.keeps_calls w keeps_ack_evidence)
      then show ?thesis using Some by (simp add: keeps_def)
    qed (simp add: se.R_refl)
  qed
qed

lemma keeps_quarantine_and_ack_evidence:
  "keeps (\<lambda>w w'. kept_evidence S cfg (snd (env w)) (snd (env w'))) (quarantine_and_ack (sql_ops S X) osenv cfg i fs n)"
proof -
  let ?R = "\<lambda>w w'. kept_evidence S cfg (snd (env w)) (snd (env w'))"
  have "keeps ?R (quarantine_write (sql_ops S X) osenv cfg i fs n)"
  proof (cases "quarantine_sink_row cfg i fs n")
    case (Inr row)
    have "keeps ?R (quarantine_commit (sql_ops S X) row)"
      unfolding quarantine_commit_def
      by (intro se.keeps_rules se.keeps_calls se.keeps_world_only keeps_commit_quarantine_evidence [OF Inr])
    then show ?thesis
      unfolding quarantine_write_eq quarantine_alert_def Inr
      by (simp del: io_basic) (intro se.keeps_rules se.keeps_alert)
  qed (simp add: quarantine_write_eq se.keeps_lift del: io_basic)
  then show ?thesis
    unfolding quarantine_and_ack_def
    by (intro se.keeps_rules se.keeps_with_session se.keeps_calls se.keeps_world_only keeps_ack_evidence)
qed

lemma worker_evidence:
  assumes "guarded S" and "sole_writer S" and "times_ok X P" and "worker_main (sql_ops S X) P osenv cfg n w = (r, w')"
    and "evidence (srv_collation S) cfg (snd (env w))"
  shows "evidence (srv_collation S) cfg (snd (env w'))"
proof -
  have "keeps (\<lambda>w w'. kept_evidence S cfg (snd (env w)) (snd (env w'))) (worker_main (sql_ops S X) P osenv cfg n)"
    by (intro se.keeps_worker keeps_handle_message_evidence keeps_quarantine_and_ack_evidence assms(3))
  from keepsD [OF this assms(4)] assms(1,2,5) show ?thesis by (simp add: kept_evidence_def)
qed

section \<open>The life of the tables\<close>

text \<open>
  The tables from their creation on: runs of the worker, each from a new process and
  of any length; runs of the clean-up, whatever fails in them; and statements of any
  user that insert no evidence.
\<close>

inductive deployed :: "'e sql_server \<Rightarrow> 'e ops \<Rightarrow> pydantic \<Rightarrow> config \<Rightarrow> tables \<Rightarrow> bool" for S X P cfg where
  created: "deployed S X P cfg \<lparr>t_events = [], t_quarantined = [], t_holds = []\<rparr>"
| worker_run: "deployed S X P cfg t \<Longrightarrow> worker_main (sql_ops S X) P osenv cfg n (world_init (e, t)) = (r, w') \<Longrightarrow>
    deployed S X P cfg (snd (env w'))"
| clean_up: "deployed S X P cfg (stored d) \<Longrightarrow>
    retention_main X Y (srv_collation S) create_engine fault osenv execute dry_run (w, d) = (r', (w', d')) \<Longrightarrow>
    deployed S X P cfg (stored d')"
| statement: "deployed S X P cfg t \<Longrightarrow> \<not> inserts stmt \<Longrightarrow>
    triggered_sql (srv_triggers S) (srv_collation S) user stmt t = Inr u \<Longrightarrow> deployed S X P cfg u"

lemma clean_up_evidence:
  assumes "retention_main X Y col' create_engine fault osenv execute dry_run (w, d) = (r, (w', d'))"
    and "evidence col cfg (stored d)"
  shows "evidence col cfg (stored d')"
  using assms(1)
proof (cases rule: retention_main_outcome)
  case (ran raw days url user now limit results s1 s2)
  obtain tabs where "stored (snd s2) = fold (cleaned col' limit) tabs (stored (snd s1))"
    using clean_tables_outcome [OF ran(9)] by blast
  then show ?thesis using ran(7,10) assms(2) cleaned_evidence by simp
qed (use assms(2) in simp)

lemma deployed_evidence:
  assumes "deployed S X P cfg t" and "guarded S" and "sole_writer S" and "times_ok X P"
  shows "evidence (srv_collation S) cfg t"
  using assms
proof (induction rule: deployed.induct)
  case created
  show ?case by (simp add: evidence_def)
next
  case (worker_run t osenv n e r w')
  then show ?case by (intro worker_evidence [OF _ _ _ worker_run.hyps(2)]) (auto simp: world_init_def)
next
  case (clean_up d Y create_engine fault osenv execute dry_run w r' w' d')
  then show ?case using clean_up_evidence by blast
next
  case (statement t stmt user u)
  then show ?case using session_evidence by (auto simp: guarded_def triggered_retention)
qed

lemma distinct_keys: "distinct (map (\<lambda>r. col (key r)) rows) \<Longrightarrow> distinct (map key rows)"
  by (auto simp: distinct_map inj_on_def)

lemma evidence_verifies:
  assumes "evidence col cfg t" and "require_record_integrity_key cfg = Inr (key, kid)"
  shows "\<forall>r \<in> set (t_events t). verify_audit_event_hash (event_fields r) key (Some kid) = Inr True"
    and "\<forall>q \<in> set (t_quarantined t). verify_quarantine_record_hash (quarantine_fields q) key (Some kid) = Inr True"
    and "distinct (map event_id (t_events t))" and "distinct (map stream_message_id (t_quarantined t))"
  using assms sink_row_verifies [OF _ assms(2)] quarantine_row_verifies [OF _ assms(2)]
  by (auto simp: evidence_def written_event_def written_quarantined_def intro: distinct_keys)

text \<open>
  C6: stored evidence verifies at any time.  Let the migrations have created the
  tables on MySQL, and let the worker be the only one that inserts into them.  Then,
  after any sequence of worker runs and crashes, of clean-up runs that may fail
  anywhere, and of other statements of any user, the hash of every row of both
  tables verifies under the worker's key, and no ID occurs twice.
\<close>

theorem deployed_evidence_verifies:
  assumes "ddl_backend B W" and "W d = empty_database ''mysql''" and "upgrade_head B d = (Inr (), d')"
    and "srv_triggers S = db_triggers (W d')" and "server_ok S" and "sole_writer S" and "times_ok X P"
    and "deployed S X P cfg t" and "require_record_integrity_key cfg = Inr (key, kid)"
  shows "(\<forall>r \<in> set (t_events t). verify_audit_event_hash (event_fields r) key (Some kid) = Inr True) \<and>
    (\<forall>q \<in> set (t_quarantined t). verify_quarantine_record_hash (quarantine_fields q) key (Some kid) = Inr True) \<and>
    distinct (map event_id (t_events t)) \<and> distinct (map stream_message_id (t_quarantined t))"
proof -
  have "guarded S" using migrated_triggers [OF assms(1-3)] assms(4,5) by (simp add: guarded_def)
  then have "evidence (srv_collation S) cfg t" by (rule deployed_evidence [OF assms(8) _ assms(6,7)])
  from evidence_verifies [OF this assms(9)] show ?thesis by blast
qed

section \<open>An example server\<close>

text \<open>Before every call of the worker somebody tries to change and to delete everything.\<close>

definition example_server :: "mem sql_server" where
  "example_server =
     \<lparr>srv_triggers = retention_triggers, srv_collation = lower, srv_user = ''audit_writer@worker'', srv_json = (\<lambda>v. v),
      srv_now = (\<lambda>e. DateTime 63870000000000000 None), srv_fault = (\<lambda>e. (None, e)),
      srv_others = (\<lambda>e. [(''root@localhost'', UpdateEvents (\<lambda>r. True) (\<lambda>r. r\<lparr>action := ''x''\<rparr>)),
        (''root@localhost'', DeleteQuarantined (\<lambda>q. True))])\<rparr>"

lemma example_server_ok: "server_ok example_server" "sole_writer example_server"
proof -
  have "context_read_as (PDict d) (PDict d)" for d by (auto simp: context_read_as_def intro: reordered.refl)
  moreover have "\<not> is_maintenance lower ''root@localhost''"
    by (simp add: is_maintenance_def MAINTENANCE_USER_def) code_simp
  ultimately show "server_ok example_server" by (auto simp: server_ok_def example_server_def)
  show "sole_writer example_server" by (simp add: sole_writer_def example_server_def)
qed

definition json_pydantic :: pydantic where
  "json_pydantic = strict_pydantic\<lparr>valid_datetime := (\<lambda>v. None)\<rparr>"

lemma example_times: "times_ok mem_ops json_pydantic"
  by (auto simp: times_ok_def mem_ops_def json_pydantic_def in_range_def max_wall_def usec_day_def usec_def)

definition example_start :: "mem \<times> tables" where
  "example_start = (mem_init [(''1-0'', [(''data'', ''x'')])]\<lparr>mem_group := True, mem_pending := [(''1-0'', 9)]\<rparr>,
     \<lparr>t_events = [], t_quarantined = [], t_holds = []\<rparr>)"

lemma example_sessions: "session_step example_server c t = t" if "c \<in> set (srv_others example_server e)"
proof -
  have same: "session_step example_server (user, stmt) t = t" if "\<And>u. execute_sql lower user stmt t = Inr u \<Longrightarrow> u = t" for user stmt
    using that unfolding session_step_def fst_conv snd_conv example_server_def sql_server.select_convs triggered_retention
    by (simp split: sum.split del: execute_sql.simps)
  have "\<not> is_maintenance lower ''root@localhost''" by (simp add: is_maintenance_def MAINTENANCE_USER_def) code_simp
  then have "session_step example_server (''root@localhost'', DeleteQuarantined (\<lambda>q. True)) t = t"
    by (intro same) (auto simp: delete_rows_iff)
  moreover have "session_step example_server (''root@localhost'', UpdateEvents (\<lambda>r. True) f) t = t" for f
    by (intro same) (auto simp: update_rows_iff)
  ultimately show ?thesis using that by (auto simp: example_server_def)
qed

lemma example_others [simp]: "others example_server x = x"
proof -
  have "fold (session_step example_server) cs t = t" if "set cs \<subseteq> set (srv_others example_server e)" for cs e t
    using that by (induction cs) (auto simp: example_sessions)
  then show ?thesis by (cases x) (auto simp: others_def)
qed

lemma example_services: "services_ok (sql_ops example_server mem_ops)"
proof -
  have "kind x = IntegrityError" if "fst (sql_commit example_server stmt s) = Inl x" "inserts stmt" for stmt s x
  proof -
    have f: "srv_triggers example_server = retention_triggers" "srv_fault example_server e = (None, e)" for e
      by (simp_all add: example_server_def)
    from that show ?thesis
      by (cases stmt) (auto simp: sql_commit_def f triggered_retention insert_row_def split: if_splits)
  qed
  then show ?thesis
    by (auto simp: services_ok_def clocks_ok_def commit_ops) (auto simp: sql_ops_def besides_def mem_ops_def)
qed

lemma example_deployed_run:
  "\<exists>r w'. worker_main (sql_ops example_server mem_ops) json_pydantic example_osenv example_config 1 (world_init example_start) = (r, w') \<and>
     Ack ''1-0'' \<in> set (history w')"
proof -
  let ?X = "sql_ops example_server mem_ops"
  let ?w = "(world_init example_start)\<lparr>history := [GroupCreate]\<rparr>"
  have secret: "require_real_signing_secret example_osenv = Inr ()"
    by (simp add: require_real_signing_secret_def example_osenv_def getenv_def)
  have group: "ensure_group ?X example_config (world_init example_start) = (Inr (), ?w)"
    by (simp add: ensure_group_def io_bind_def io_try_def io_call_def sql_ops_def besides_def mem_ops_def example_start_def
        mem_init_def world_init_def)
  have claim: "claim_stale ?X example_config (CONSUMER_NAME example_config) ?w = (Inr ([], [(''1-0'', [(''data'', ''x'')], 9)]), ?w)"
    by (simp add: claim_stale_def fetch_poison_def poison_ids_def reclaimable_ids_def io_bind_def io_call_def sql_ops_def
        besides_def mem_ops_def mem_init_def world_init_def example_config_def example_start_def)
  obtain row where "quarantine_sink_row example_config ''1-0'' [(''data'', ''x'')] 9 = Inr row"
    using example_poison by (auto simp: is_ok_iff)
  from quarantine_and_ack_progress [OF example_services this, of example_osenv ?w] obtain w2 dup as where
    q: "quarantine_and_ack ?X example_osenv example_config ''1-0'' [(''data'', ''x'')] 9 ?w = (Inr True, w2)"
      "history w2 = history ?w @ [Handling ''1-0'' [(''data'', ''x'')], QuarantineCommit row dup] @ as @ [Ack ''1-0'']" by blast
  have sweep: "sweep_pending ?X json_pydantic example_osenv example_config ?w = (Inr (), w2)"
    by (simp add: sweep_pending_def io_bind_def io_try_def claim q(1))
  let ?rest = "io_bind (read_new ?X example_osenv example_config) (\<lambda>response.
      io_each (\<lambda>(_, messages). io_each (\<lambda>(i, fs). handle_message ?X json_pydantic example_config i fs) messages) response)"
  obtain r w3 where rest: "?rest w2 = (r, w3)" by (rule prod.exhaust)
  have it: "iteration ?X json_pydantic example_osenv example_config ?w = (r, w3)"
    unfolding iteration_def rest [symmetric] by (rule io_bind_step(1), rule sweep)
  have "worker_main ?X json_pydantic example_osenv example_config 1 (world_init example_start) = (r, w3)"
    using it by (cases r) (simp_all add: worker_main_def run_def secret io_bind_def group)
  moreover have "keeps (grows (acks_justified json_pydantic example_config)) ?rest"
    unfolding read_new_def read_group_def sleep_def
    by (intro aj.grown.keeps_rules aj.grown.keeps_handle_nogroup aj.grown.keeps_ensure_group keeps_call_grows keeps_emit_grows
        keeps_recreate_grows keeps_log_grows) (auto intro!: aj.grown.keeps_each keeps_handle_message_grows)
  from keepsD [OF this rest] q(2) have "Ack ''1-0'' \<in> set (history w3)" by (auto simp: grows_def)
  ultimately show ?thesis by blast
qed

lemma example_triggers:
  obtains d' where "upgrade_head database_ops (empty_database ''mysql'') = (Inr (), d')" "srv_triggers example_server = db_triggers d'"
proof -
  obtain d' where d': "upgrade_head database_ops (empty_database ''mysql'') = (Inr (), d')"
    using upgraded_returns [of "''mysql''"] by (metis prod.collapse)
  have "srv_triggers example_server = db_triggers d'"
    using migrated_triggers [OF explicit.ddl_backend_axioms HOL.refl d'] by (simp add: example_server_def)
  with d' show thesis by (rule that)
qed

text \<open>The example run acknowledges the entry after committing it, and a row is in a table.\<close>

lemma acked_rows:
  assumes "srv_triggers S = retention_triggers" and "server_ok S"
    and "worker_main (sql_ops S X) P osenv cfg n (world_init (e, t)) = (r, w')" and "Ack i \<in> set (history w')"
  shows "t_events (snd (env w')) \<noteq> [] \<or> t_quarantined (snd (env w')) \<noteq> []"
proof -
  from acked_stored [OF sql_store_ok [OF assms(1,2)] assms(3,4)] show ?thesis
  proof (elim exE disjE conjE)
    fix row dup assume "event_stored (sql_view S) (env w') row dup"
    from sql_stored(1) [OF this] show ?thesis by (cases dup) auto
  next
    fix row dup assume "quarantine_stored (sql_view S) (env w') row dup"
    from sql_stored(2) [OF this] show ?thesis by (cases dup) auto
  qed
qed


theorem deployed_evidence_verifies_witness:
  "\<exists>t. deployed example_server mem_ops json_pydantic example_config t \<and> (t_events t \<noteq> [] \<or> t_quarantined t \<noteq> []) \<and>
     (\<forall>q \<in> set (t_quarantined t).
        verify_quarantine_record_hash (quarantine_fields q) ''0123456789abcdef0123456789abcdef'' (Some ''key-1'') = Inr True)"
proof -
  obtain d' where d': "upgrade_head database_ops (empty_database ''mysql'') = (Inr (), d')" "srv_triggers example_server = db_triggers d'"
    by (rule example_triggers)
  obtain r w' where w: "worker_main (sql_ops example_server mem_ops) json_pydantic example_osenv example_config 1
      (world_init example_start) = (r, w')" "Ack ''1-0'' \<in> set (history w')"
    using example_deployed_run by blast
  have dep: "deployed example_server mem_ops json_pydantic example_config (snd (env w'))"
    by (rule deployed.worker_run [OF deployed.created w(1) [unfolded example_start_def]])
  have "srv_triggers example_server = retention_triggers" by (simp add: example_server_def)
  from acked_rows [OF this example_server_ok(1) w(1) [unfolded example_start_def] w(2)]
  have "t_events (snd (env w')) \<noteq> [] \<or> t_quarantined (snd (env w')) \<noteq> []" .
  with dep deployed_evidence_verifies [OF explicit.ddl_backend_axioms HOL.refl d' example_server_ok example_times dep example_config_key]
  show ?thesis by blast
qed

end
