(* ===== verification/Health.thy ===== *)
theory Health
  imports Retention
begin

text \<open>
  \<open>services/audit_health_service.py\<close> and \<open>api/routes_audit_health.py\<close>: the health
  of the delivery pipeline, the alerts it gives rise to, and the two status files
  the scripts leave.  Redis, the database and the file system are parameters; each
  operation may raise.  Ages are rational numbers of seconds.
\<close>

section \<open>Sources\<close>

text \<open>
  \<open>h_xpending\<close> is the number of pending entries, or \<open>None\<close> when the summary is
  empty; the entries of \<open>h_xpending_range\<close> are the time since delivery and the
  delivery count; a consumer is its idle time, if the reply has it.
\<close>

record 'e health_ops =
  h_xlen :: "string \<Rightarrow> 'e \<Rightarrow> int res \<times> 'e"
  h_xpending :: "string \<Rightarrow> string \<Rightarrow> 'e \<Rightarrow> int option res \<times> 'e"
  h_xpending_range :: "string \<Rightarrow> string \<Rightarrow> int \<Rightarrow> 'e \<Rightarrow> (int \<times> int) list res \<times> 'e"
  h_xinfo_groups :: "string \<Rightarrow> 'e \<Rightarrow> pydict list res \<times> 'e"
  h_xinfo_consumers :: "string \<Rightarrow> string \<Rightarrow> 'e \<Rightarrow> int option list res \<times> 'e"
  h_max_created_at :: "'e \<Rightarrow> datetime option res \<times> 'e"
  h_count_quarantined :: "'e \<Rightarrow> int option res \<times> 'e"
  h_max_quarantined_at :: "'e \<Rightarrow> datetime option res \<times> 'e"
  h_read_text :: "string \<Rightarrow> 'e \<Rightarrow> string option res \<times> 'e"

record redis_health =
  redis_available :: bool
  pending_count :: "int option"
  oldest_pending_age_seconds :: "rat option"
  retry_in_progress_count :: "int option"
  consumer_lag :: pyval
  consumer_lag_source :: "string option"
  stream_length :: "int option"
  active_consumer_count :: "int option"
  least_idle_consumer_ms :: "int option"
  redis_error :: "string option"

record persistence_health =
  persistence_available :: bool
  last_successful_persistence_at :: "datetime option"
  quarantine_count :: "int option"
  last_quarantine_at :: "datetime option"
  persistence_error :: "string option"

record retention_integrity_health =
  last_integrity_verification_ts :: "string option"
  last_integrity_verification_result :: "string option"
  last_integrity_events_invalid :: "int option"
  last_retention_run_ts :: "string option"
  last_retention_run_result :: "string option"
  last_retention_deleted_total :: "int option"
  status_source :: string

record pipeline_health =
  health_generated_at :: datetime
  health_redis :: redis_health
  health_persistence :: persistence_health
  health_retention_integrity :: retention_integrity_health

definition no_redis_health :: redis_health where
  "no_redis_health =
     \<lparr>redis_available = False, pending_count = None, oldest_pending_age_seconds = None, retry_in_progress_count = None,
      consumer_lag = PNone, consumer_lag_source = None, stream_length = None, active_consumer_count = None,
      least_idle_consumer_ms = None, redis_error = None\<rparr>"

section \<open>Redis\<close>

text \<open>The loop over the groups with its \<open>break\<close>.\<close>

definition group_lag :: "string \<Rightarrow> pydict list \<Rightarrow> pyval \<times> string" where
  "group_lag grp groups =
     (case find (\<lambda>g. dict_get g ''name'' = PStr grp \<and> dict_has g ''lag'') groups of
        None \<Rightarrow> (PNone, ''unsupported_redis_version'')
      | Some g \<Rightarrow> (if dict_get g ''lag'' = PNone then (PNone, ''unsupported_redis_version'')
                   else (dict_get g ''lag'', ''xinfo_groups'')))"

text \<open>\<open>min(c["idle"] for c in consumers)\<close> of a non-empty reply; \<open>KeyError\<close> when an idle time is missing.\<close>

fun least_idle :: "int option list \<Rightarrow> int option" where
  "least_idle [] = None"
| "least_idle [c] = c"
| "least_idle (c # cs) = (case (c, least_idle cs) of (Some a, Some b) \<Rightarrow> Some (min a b) | _ \<Rightarrow> None)"

definition pending_details ::
    "'e health_ops \<Rightarrow> config \<Rightarrow> int \<Rightarrow> ('e, rat option \<times> int option) io" where
  "pending_details H cfg pending =
     (if pending = 0 then io_return (None, None)
      else
        io_bind (io_call (h_xpending_range H (STREAM_NAME cfg) (CONSUMER_GROUP cfg) 1)) (\<lambda>oldest.
        io_bind (io_call (h_xpending_range H (STREAM_NAME cfg) (CONSUMER_GROUP cfg) (PEL_SWEEP_BATCH cfg))) (\<lambda>sample.
        io_return (case oldest of [] \<Rightarrow> None | (t, _) # _ \<Rightarrow> Some (rat_of_int t / 1000),
                   Some (int (length (filter (\<lambda>e. snd e > 1) sample)))))))"

definition get_redis_pipeline_health :: "'e health_ops \<Rightarrow> config \<Rightarrow> ('e, redis_health) io" where
  "get_redis_pipeline_health H cfg =
     io_try
       (io_bind (io_call (h_xlen H (STREAM_NAME cfg))) (\<lambda>len.
        io_bind (io_call (h_xpending H (STREAM_NAME cfg) (CONSUMER_GROUP cfg))) (\<lambda>summary.
        let pending = (case summary of None \<Rightarrow> 0 | Some n \<Rightarrow> n)
        in io_bind (pending_details H cfg pending) (\<lambda>(oldest, retries).
        io_bind (io_try
            (io_bind (io_call (h_xinfo_groups H (STREAM_NAME cfg))) (\<lambda>groups. io_return (group_lag (CONSUMER_GROUP cfg) groups)))
            (\<lambda>e. io_return (PNone, ''unsupported_redis_version''))) (\<lambda>(lag, lag_source).
        io_bind (io_try
            (io_bind (io_call (h_xinfo_consumers H (STREAM_NAME cfg) (CONSUMER_GROUP cfg))) (\<lambda>consumers.
             io_return (Some (int (length consumers)), least_idle consumers)))
            (\<lambda>e. io_return (None, None))) (\<lambda>(active, idle).
        io_return \<lparr>redis_available = True, pending_count = Some pending, oldest_pending_age_seconds = oldest,
          retry_in_progress_count = retries, consumer_lag = lag, consumer_lag_source = Some lag_source,
          stream_length = Some len, active_consumer_count = active, least_idle_consumer_ms = idle,
          redis_error = None\<rparr>))))))
       (\<lambda>e. io_return (no_redis_health\<lparr>redis_error := Some (type_name (kind e))\<rparr>))"

section \<open>Persistence\<close>

definition get_persistence_pipeline_health :: "'e health_ops \<Rightarrow> ('e, persistence_health) io" where
  "get_persistence_pipeline_health H =
     io_try
       (io_bind (io_call (h_max_created_at H)) (\<lambda>last_success.
        io_bind (io_call (h_count_quarantined H)) (\<lambda>n.
        io_bind (io_call (h_max_quarantined_at H)) (\<lambda>last_quarantine.
        io_return \<lparr>persistence_available = True, last_successful_persistence_at = last_success,
          quarantine_count = Some (case n of None \<Rightarrow> 0 | Some k \<Rightarrow> k), last_quarantine_at = last_quarantine,
          persistence_error = None\<rparr>))))
       (\<lambda>e. io_return \<lparr>persistence_available = False, last_successful_persistence_at = None, quarantine_count = None,
          last_quarantine_at = None, persistence_error = Some (type_name (kind e))\<rparr>)"

section \<open>Status files\<close>

text \<open>\<open>str.splitlines\<close>: what follows a line boundary at the start of a text, if there is one.\<close>

definition after_break :: "string \<Rightarrow> string option" where
  "after_break s =
     (case s of
        [] \<Rightarrow> None
      | c # t \<Rightarrow>
          (if code c = 13 then Some (if t \<noteq> [] \<and> code (hd t) = 10 then tl t else t)
           else if code c \<in> {10, 11, 12, 28, 29, 30} then Some t
           else if map code (take 2 s) = [0xC2, 0x85] then Some (drop 2 s)
           else if map code (take 3 s) \<in> {[0xE2, 0x80, 0xA8], [0xE2, 0x80, 0xA9]} then Some (drop 3 s)
           else None))"

lemma after_break_shorter: "after_break s = Some t \<Longrightarrow> length t < length s"
  by (auto simp: after_break_def split: list.splits if_splits)

function splitlines :: "string \<Rightarrow> string \<Rightarrow> string list" where
  "splitlines acc s =
     (case s of
        [] \<Rightarrow> (if acc = [] then [] else [rev acc])
      | c # t \<Rightarrow>
          (case after_break s of
             Some u \<Rightarrow> rev acc # splitlines [] u
           | None \<Rightarrow> splitlines (c # acc) t))"
  by pat_completeness auto
termination
  by (relation "measure (\<lambda>(acc, s). length s)") (auto dest: after_break_shorter)

declare splitlines.simps [simp del]

definition read_env_lines :: "string list \<Rightarrow> (string \<times> string) list" where
  "read_env_lines lines =
     fold (\<lambda>line values. if CHR ''='' \<in> set line
             then (case partition_at (CHR ''='') line of (k, _, v) \<Rightarrow> dict_set k v values) else values) lines []"

definition read_env_file :: "'e health_ops \<Rightarrow> string \<Rightarrow> ('e, (string \<times> string) list) io" where
  "read_env_file H path =
     io_bind (io_call (h_read_text H path)) (\<lambda>r.
     io_return (case r of None \<Rightarrow> [] | Some t \<Rightarrow> read_env_lines (splitlines [] t)))"

definition int_or_none :: "string option \<Rightarrow> int option" where
  "int_or_none v = (case v of None \<Rightarrow> None | Some s \<Rightarrow> (case py_int s of Inl e \<Rightarrow> None | Inr n \<Rightarrow> Some n))"

definition retention_integrity_of ::
    "(string \<times> string) list \<Rightarrow> (string \<times> string) list \<Rightarrow> retention_integrity_health" where
  "retention_integrity_of verification cleanup =
     \<lparr>last_integrity_verification_ts = map_of verification ''LAST_VERIFICATION_TS'',
      last_integrity_verification_result = map_of verification ''LAST_VERIFICATION_RESULT'',
      last_integrity_events_invalid = int_or_none (map_of verification ''LAST_VERIFICATION_EVENTS_INVALID''),
      last_retention_run_ts = map_of cleanup ''LAST_RETENTION_RUN_TS'',
      last_retention_run_result = map_of cleanup ''LAST_RETENTION_RUN_RESULT'',
      last_retention_deleted_total = int_or_none (map_of cleanup ''LAST_RETENTION_RUN_DELETED_TOTAL''),
      status_source = ''configured''\<rparr>"

definition get_retention_integrity_health ::
    "'e health_ops \<Rightarrow> environ \<Rightarrow> ('e, retention_integrity_health) io" where
  "get_retention_integrity_health H osenv =
     (case env_value osenv ''AUDIT_HEALTH_STATUS_DIR'' of
        None \<Rightarrow> io_return (retention_integrity_of [] []\<lparr>status_source := ''not_configured''\<rparr>)
      | Some status_dir \<Rightarrow>
          io_bind (read_env_file H (status_path status_dir ''audit-integrity-verification'')) (\<lambda>verification.
          io_bind (read_env_file H (status_path status_dir ''audit-retention-run'')) (\<lambda>cleanup.
          io_return (retention_integrity_of verification cleanup))))"

section \<open>Alerts\<close>

definition int_env :: "environ \<Rightarrow> string \<Rightarrow> int option" where
  "int_env osenv name = int_or_none (env_value osenv name)"

definition of_int_opt :: "int option \<Rightarrow> pyval" where
  "of_int_opt v = (case v of None \<Rightarrow> PNone | Some n \<Rightarrow> PInt n)"

definition exceeds :: "'a::linorder option \<Rightarrow> 'a option \<Rightarrow> bool" where
  "exceeds threshold v = (case (threshold, v) of (Some t, Some x) \<Rightarrow> x > t | _ \<Rightarrow> False)"

text \<open>An alert: condition, severity, component, message, metadata.\<close>

type_synonym alert_spec = "string \<times> string \<times> string \<times> string \<times> pydict"

text \<open>
  The alerts the two sections call for, in order.  \<open>show_rat\<close> stands for the text
  of a float in the metadata.
\<close>

definition health_alerts ::
    "(rat \<Rightarrow> pyval) \<Rightarrow> environ \<Rightarrow> redis_health \<Rightarrow> persistence_health \<Rightarrow> alert_spec list" where
  "health_alerts show_rat osenv rd ps =
     (let pel_pending = int_env osenv ''AUDIT_ALERT_PEL_PENDING_THRESHOLD'';
          pel_age = int_env osenv ''AUDIT_ALERT_PEL_AGE_THRESHOLD_SECONDS'';
          stall = int_env osenv ''AUDIT_ALERT_WORKER_STALL_THRESHOLD_MS'';
          quarantine = int_env osenv ''AUDIT_ALERT_QUARANTINE_COUNT_THRESHOLD''
      in
      (if \<not> redis_available rd
       then [(''redis_stream_unavailable'', ''critical'', ''audit-delivery'', ''Redis Streams pipeline is unavailable'',
              [(''error'', of_opt (redis_error rd))])]
       else if active_consumer_count rd = Some 0
       then [(''audit_worker_never_registered'', ''critical'', ''audit-worker'',
              ''No consumer has ever registered in the audit worker consumer group'',
              [(''stream_length'', of_int_opt (stream_length rd))])]
       else []) @
      (if redis_available rd \<and> exceeds pel_pending (Some (case pending_count rd of None \<Rightarrow> 0 | Some n \<Rightarrow> n))
       then [(''pel_backlog_threshold_exceeded'', ''warning'', ''audit-delivery'',
              ''Pending-entries-list backlog exceeds configured threshold'',
              [(''pending_count'', of_int_opt (pending_count rd)), (''threshold'', of_int_opt pel_pending)])]
       else []) @
      (if redis_available rd \<and> exceeds (map_option rat_of_int pel_age) (oldest_pending_age_seconds rd)
       then [(''pel_entry_age_threshold_exceeded'', ''warning'', ''audit-delivery'',
              ''Oldest pending stream entry exceeds configured age threshold'',
              [(''oldest_pending_age_seconds'', show_rat (the (oldest_pending_age_seconds rd))),
               (''threshold'', of_int_opt pel_age)])]
       else []) @
      (if redis_available rd \<and> exceeds stall (least_idle_consumer_ms rd)
       then [(''audit_worker_stalled'', ''warning'', ''audit-worker'',
              ''Least-idle consumer exceeds configured stall threshold -- worker may have stopped processing'',
              [(''least_idle_consumer_ms'', of_int_opt (least_idle_consumer_ms rd)), (''threshold'', of_int_opt stall)])]
       else []) @
      (if \<not> persistence_available ps
       then [(''audit_database_unavailable'', ''critical'', ''audit-persistence'', ''Audit database is unavailable'',
              [(''error'', of_opt (persistence_error ps))])]
       else if exceeds quarantine (Some (case quarantine_count ps of None \<Rightarrow> 0 | Some n \<Rightarrow> n))
       then [(''quarantine_count_threshold_exceeded'', ''warning'', ''audit-worker'',
              ''Quarantined-event count exceeds configured threshold'',
              [(''quarantine_count'', of_int_opt (quarantine_count ps)), (''threshold'', of_int_opt quarantine)])]
       else []))"

definition evaluate_health_alerts ::
    "'e ops \<Rightarrow> (rat \<Rightarrow> pyval) \<Rightarrow> environ \<Rightarrow> redis_health \<Rightarrow> persistence_health \<Rightarrow> ('e, unit) io" where
  "evaluate_health_alerts X show_rat osenv rd ps =
     io_try (io_each (\<lambda>(c, s, p, m, md). emit_alert X osenv c s p m md) (health_alerts show_rat osenv rd ps))
       (\<lambda>e. io_return ())"

section \<open>The whole report and the route\<close>

definition get_pipeline_health ::
    "'e ops \<Rightarrow> 'e health_ops \<Rightarrow> (rat \<Rightarrow> pyval) \<Rightarrow> environ \<Rightarrow> config \<Rightarrow> ('e, pipeline_health) io" where
  "get_pipeline_health X H show_rat osenv cfg =
     io_bind (get_redis_pipeline_health H cfg) (\<lambda>rd.
     io_bind (get_persistence_pipeline_health H) (\<lambda>ps.
     io_bind (evaluate_health_alerts X show_rat osenv rd ps) (\<lambda>_.
     io_bind (io_call (op_now X)) (\<lambda>now.
     io_bind (get_retention_integrity_health H osenv) (\<lambda>ri.
     io_return \<lparr>health_generated_at = DateTime (wall now) (Some 0), health_redis = rd, health_persistence = ps,
                health_retention_integrity = ri\<rparr>)))))"

definition iso_or_none :: "datetime option \<Rightarrow> pyval" where
  "iso_or_none v = (case v of None \<Rightarrow> PNone | Some t \<Rightarrow> PStr (isoformat ''T'' t))"

definition health_body :: "(rat \<Rightarrow> pyval) \<Rightarrow> config \<Rightarrow> pipeline_health \<Rightarrow> pydict" where
  "health_body show_rat cfg h =
     (let rd = health_redis h; ps = health_persistence h; ri = health_retention_integrity h
      in [(''generated_at'', PStr (isoformat ''T'' (health_generated_at h))),
          (''stream'', PStr (STREAM_NAME cfg)), (''consumer_group'', PStr (CONSUMER_GROUP cfg)),
          (''redis'', PDict
            [(''available'', PBool (redis_available rd)), (''pending_count'', of_int_opt (pending_count rd)),
             (''oldest_pending_age_seconds'',
                (case oldest_pending_age_seconds rd of None \<Rightarrow> PNone | Some a \<Rightarrow> show_rat a)),
             (''retry_in_progress_count'', of_int_opt (retry_in_progress_count rd)),
             (''consumer_lag'', consumer_lag rd), (''consumer_lag_source'', of_opt (consumer_lag_source rd)),
             (''stream_length'', of_int_opt (stream_length rd)),
             (''active_consumer_count'', of_int_opt (active_consumer_count rd)),
             (''least_idle_consumer_ms'', of_int_opt (least_idle_consumer_ms rd)),
             (''error'', of_opt (redis_error rd))]),
          (''persistence'', PDict
            [(''available'', PBool (persistence_available ps)),
             (''last_successful_persistence_at'', iso_or_none (last_successful_persistence_at ps)),
             (''quarantine_count'', of_int_opt (quarantine_count ps)),
             (''last_quarantine_at'', iso_or_none (last_quarantine_at ps)),
             (''error'', of_opt (persistence_error ps))]),
          (''retention_integrity'', PDict
            [(''status_source'', PStr (status_source ri)),
             (''last_integrity_verification_ts'', of_opt (last_integrity_verification_ts ri)),
             (''last_integrity_verification_result'', of_opt (last_integrity_verification_result ri)),
             (''last_integrity_events_invalid'', of_int_opt (last_integrity_events_invalid ri)),
             (''last_retention_run_ts'', of_opt (last_retention_run_ts ri)),
             (''last_retention_run_result'', of_opt (last_retention_run_result ri)),
             (''last_retention_deleted_total'', of_int_opt (last_retention_deleted_total ri))])])"

definition pipeline_health_route ::
    "'e ops \<Rightarrow> 'e health_ops \<Rightarrow> jwt_env \<Rightarrow> (rat \<Rightarrow> pyval) \<Rightarrow> environ \<Rightarrow> config \<Rightarrow> string option \<Rightarrow> ('e, pydict) io" where
  "pipeline_health_route X H J show_rat osenv cfg authorization =
     io_bind (io_lift (require_platform_admin J authorization)) (\<lambda>_.
     io_bind (get_pipeline_health X H show_rat osenv cfg) (\<lambda>h.
     io_return (health_body show_rat cfg h)))"

section \<open>Status files are read as they were written\<close>

definition printable :: "char \<Rightarrow> bool" where
  "printable c \<longleftrightarrow> 32 \<le> code c \<and> code c < 127"

lemma after_break_printable: "printable c \<Longrightarrow> after_break (c # s) = None"
  by (auto simp: after_break_def printable_def)

lemma splitlines_line:
  "list_all printable l \<Longrightarrow> splitlines acc (l @ nl @ rest) = (rev acc @ l) # splitlines [] rest"
proof (induction l arbitrary: acc)
  case Nil
  then show ?case by (subst splitlines.simps) (simp add: after_break_def code_def)
next
  case (Cons c l)
  then show ?case by (subst splitlines.simps) (simp add: after_break_printable)
qed

lemma splitlines_text:
  "list_all (list_all printable) ls \<Longrightarrow> ls \<noteq> [] \<Longrightarrow> splitlines [] (join nl ls @ nl) = ls"
proof (induction ls)
  case (Cons l ls)
  show ?case
  proof (cases "ls = []")
    case True
    then show ?thesis
      using splitlines_line [of l "[]" "[]"] Cons.prems by (simp add: splitlines.simps [of "[]" "[]"])
  next
    case False
    then show ?thesis using splitlines_line [of l "[]" "join nl ls @ nl"] Cons by (simp add: join_Cons)
  qed
qed simp

lemma read_env_lines_pairs:
  assumes "distinct (map fst kvs)" and "\<forall>k \<in> fst ` set kvs. CHR ''='' \<notin> set k"
  shows "read_env_lines (map (\<lambda>(k, v). k @ ''='' @ v) kvs) = kvs"
proof -
  have p: "partition_at (CHR ''='') (k @ ''='' @ v) = (k, ''='', v)" if "CHR ''='' \<notin> set k" for k v
    using that by (simp add: partition_at_def takeWhile_append dropWhile_append)
  have "fold (\<lambda>line values. if CHR ''='' \<in> set line
      then (case partition_at (CHR ''='') line of (k, _, v) \<Rightarrow> dict_set k v values) else values)
      (map (\<lambda>(k, v). k @ ''='' @ v) kvs) acc = acc @ kvs"
    if "distinct (map fst (acc @ kvs))" for acc
    using assms(2) that
  proof (induction kvs arbitrary: acc)
    case (Cons kv kvs)
    obtain k v where kv: "kv = (k, v)" by fastforce
    have "dict_set k v acc = acc @ [(k, v)]" using Cons.prems(2) kv by (intro dict_set_fresh) auto
    then show ?case
      using Cons.IH [of "acc @ [(k, v)]"] Cons.prems p [of k v] kv by simp
  qed simp
  from this [of "[]"] assms(1) show ?thesis by (simp add: read_env_lines_def)
qed

lemma show_fixed_printable: "list_all printable (show_fixed w n)"
proof (induction w arbitrary: n)
  case (Suc w)
  moreover have "48 + n mod 10 < 58" by simp
  then have "printable (char_of (48 + n mod 10))" by (simp add: printable_def)
  ultimately show ?case by simp
qed simp

lemma isoformat_printable: "list_all printable (isoformat ''T'' (DateTime t (Some 0)))"
  by (simp add: isoformat_def iso_date_def iso_time_def iso_offset_def Let_def show_fixed_printable printable_def code_def
      split: prod.splits)

lemma show_nat_printable: "list_all printable (show_nat n)"
  using show_nat_digits [of _ n] by (fastforce simp: list_all_iff printable_def is_digit_def)

lemma show_int_printable: "list_all printable (show_int i)"
  by (simp add: show_int_def show_nat_printable printable_def code_def)

lemma digits_us_digits: "list_all is_digit s \<Longrightarrow> s \<noteq> [] \<Longrightarrow> digits_us s = Some s"
  by (induction s rule: digits_us.induct) (auto simp: is_digit_def code_def)

lemma strip_no_space: "list_all (\<lambda>c. \<not> is_space c) s \<Longrightarrow> strip s = s"
proof -
  have d: "dropWhile is_space t = t" if "list_all (\<lambda>c. \<not> is_space c) t" for t using that by (cases t) auto
  assume "list_all (\<lambda>c. \<not> is_space c) s"
  then show "strip s = s" using d [of s] d [of "rev s"] by (simp add: strip_def)
qed

lemma py_int_show_int: "py_int (show_int i) = Inr i"
proof -
  have n: "list_all is_digit (show_nat n)" for n using show_nat_digits by (auto simp: list_all_iff)
  have sp: "is_digit c \<Longrightarrow> \<not> is_space c \<and> c \<noteq> CHR ''-'' \<and> c \<noteq> CHR ''+''" for c
    by (auto simp: is_digit_def is_space_def code_def)
  have st: "strip (show_nat n) = show_nat n" "strip (CHR ''-'' # show_nat n) = CHR ''-'' # show_nat n" for n
  proof -
    have "list_all (\<lambda>c. \<not> is_space c) (show_nat n)"
      unfolding list_all_iff using show_nat_digits sp by blast
    moreover have "\<not> is_space (CHR ''-'')" by (simp add: is_space_def code_def)
    ultimately show "strip (show_nat n) = show_nat n" "strip (CHR ''-'' # show_nat n) = CHR ''-'' # show_nat n"
      by (simp_all add: strip_no_space del: show_nat.simps)
  qed
  obtain c cs where c: "show_nat (nat i) = c # cs" "is_digit c"
    using n [of "nat i"] by (cases "show_nat (nat i)") auto
  show ?thesis
  proof (cases "i < 0")
    case True
    then show ?thesis
      using st digits_us_digits [OF n, of "nat (- i)"] by (simp add: py_int_def show_int_def del: show_nat.simps)
  next
    case False
    have "strip (c # cs) = c # cs" "digits_us (c # cs) = Some (c # cs)" "read_nat (c # cs) = nat i"
      using st(1) [of "nat i"] digits_us_digits [OF n, of "nat i"] read_show_nat [of "nat i"] unfolding c(1) by auto
    then show ?thesis
      using False sp [OF c(2)] unfolding py_int_def show_int_def by (simp add: c(1) del: show_nat.simps)
  qed
qed

lemma py_int_show_nat: "py_int (show_nat n) = Inr (int n)"
  using py_int_show_int [of "int n"] by (simp add: show_int_def)

lemma env_text_roundtrip:
  assumes "kvs \<noteq> []" and "distinct (map fst kvs)"
    and "\<forall>(k, v) \<in> set kvs. CHR ''='' \<notin> set k \<and> list_all printable k \<and> list_all printable v"
  shows "read_env_lines (splitlines [] (join nl (map (\<lambda>(k, v). k @ ''='' @ v) kvs) @ nl)) = kvs"
proof -
  have "list_all (list_all printable) (map (\<lambda>(k, v). k @ ''='' @ v) kvs)"
    using assms(3) by (auto simp: list_all_iff printable_def code_def)
  then have "splitlines [] (join nl (map (\<lambda>(k, v). k @ ''='' @ v) kvs) @ nl) = map (\<lambda>(k, v). k @ ''='' @ v) kvs"
    using assms(1) by (intro splitlines_text) auto
  moreover have "\<forall>k \<in> fst ` set kvs. CHR ''='' \<notin> set k" using assms(3) by auto
  ultimately show ?thesis using read_env_lines_pairs [OF assms(2)] by simp
qed

definition verification_pairs :: "string \<Rightarrow> bool \<Rightarrow> scan_stats \<Rightarrow> scan_stats \<Rightarrow> (string \<times> string) list" where
  "verification_pairs now passed es qs =
     [(''LAST_VERIFICATION_TS'', now), (''LAST_VERIFICATION_RESULT'', if passed then ''pass'' else ''fail''),
      (''LAST_VERIFICATION_EVENTS_CHECKED'', show_nat (checked es)),
      (''LAST_VERIFICATION_EVENTS_INVALID'', show_nat (length (invalid_ids es))),
      (''LAST_VERIFICATION_QUARANTINE_CHECKED'', show_nat (checked qs)),
      (''LAST_VERIFICATION_QUARANTINE_INVALID'', show_nat (length (invalid_ids qs)))]"

definition retention_pairs :: "string \<Rightarrow> string \<Rightarrow> bool \<Rightarrow> table_result list \<Rightarrow> (string \<times> string) list" where
  "retention_pairs now mode overall_ok results =
     [(''LAST_RETENTION_RUN_TS'', now), (''LAST_RETENTION_RUN_MODE'', mode),
      (''LAST_RETENTION_RUN_RESULT'', if overall_ok then ''success'' else ''failed_or_partial''),
      (''LAST_RETENTION_RUN_DELETED_TOTAL'', show_int (sum_list (map deleted_count results)))]"

lemma verification_lines_pairs:
  "verification_lines now passed es qs = map (\<lambda>(k, v). k @ ''='' @ v) (verification_pairs now passed es qs)"
  by (simp add: verification_lines_def verification_pairs_def del: show_nat.simps)

lemma retention_lines_pairs:
  "retention_lines now mode overall_ok results = map (\<lambda>(k, v). k @ ''='' @ v) (retention_pairs now mode overall_ok results)"
  by (simp add: retention_lines_def retention_pairs_def)

lemma verification_pairs_ok:
  "verification_pairs (isoformat ''T'' (DateTime t (Some 0))) passed es qs \<noteq> []"
  "distinct (map fst (verification_pairs (isoformat ''T'' (DateTime t (Some 0))) passed es qs))"
  "\<forall>(k, v) \<in> set (verification_pairs (isoformat ''T'' (DateTime t (Some 0))) passed es qs).
     CHR ''='' \<notin> set k \<and> list_all printable k \<and> list_all printable v"
  by (simp_all add: verification_pairs_def isoformat_printable show_nat_printable printable_def code_def
      del: show_nat.simps)

lemma retention_pairs_ok:
  "retention_pairs (isoformat ''T'' (DateTime t (Some 0))) (if execute then ''execute'' else ''dry_run'') overall_ok results \<noteq> []"
  "distinct (map fst (retention_pairs (isoformat ''T'' (DateTime t (Some 0)))
     (if execute then ''execute'' else ''dry_run'') overall_ok results))"
  "\<forall>(k, v) \<in> set (retention_pairs (isoformat ''T'' (DateTime t (Some 0)))
     (if execute then ''execute'' else ''dry_run'') overall_ok results).
     CHR ''='' \<notin> set k \<and> list_all printable k \<and> list_all printable v"
  by (simp_all add: retention_pairs_def isoformat_printable show_int_printable printable_def code_def)

text \<open>
  C19: the two status files mean to the health report what the scripts wrote.  The
  text a verification run leaves, read by the report, gives its time, pass or fail
  and the number of invalid events; the text a retention run leaves gives its time,
  its result and the number of deleted rows.
\<close>

theorem status_files_roundtrip:
  "retention_integrity_of
     (read_env_lines (splitlines [] (join nl
        (verification_lines (isoformat ''T'' (DateTime t (Some 0))) passed es qs) @ nl)))
     (read_env_lines (splitlines [] (join nl
        (retention_lines (isoformat ''T'' (DateTime u (Some 0))) (if execute then ''execute'' else ''dry_run'')
           overall_ok results) @ nl))) =
   \<lparr>last_integrity_verification_ts = Some (isoformat ''T'' (DateTime t (Some 0))),
    last_integrity_verification_result = Some (if passed then ''pass'' else ''fail''),
    last_integrity_events_invalid = Some (int (length (invalid_ids es))),
    last_retention_run_ts = Some (isoformat ''T'' (DateTime u (Some 0))),
    last_retention_run_result = Some (if overall_ok then ''success'' else ''failed_or_partial''),
    last_retention_deleted_total = Some (sum_list (map deleted_count results)),
    status_source = ''configured''\<rparr>"
  unfolding verification_lines_pairs retention_lines_pairs
    env_text_roundtrip [OF verification_pairs_ok] env_text_roundtrip [OF retention_pairs_ok]
  by (simp add: retention_integrity_of_def verification_pairs_def retention_pairs_def int_or_none_def
      py_int_show_nat py_int_show_int del: show_nat.simps)

section \<open>A health check degrades, it does not fail\<close>

lemma io_try_return: "io_try m (\<lambda>e. io_return (h e)) w = (r, w') \<Longrightarrow> \<exists>x. r = Inr x"
  by (auto simp: io_try_def split: prod.splits sum.splits)

lemma redis_health_total:
  assumes "get_redis_pipeline_health H cfg w = (r, w')"
  shows "\<exists>rd. r = Inr rd \<and> (redis_available rd \<longrightarrow> redis_error rd = None \<and> pending_count rd \<noteq> None \<and> stream_length rd \<noteq> None) \<and>
    (\<not> redis_available rd \<longrightarrow> (\<exists>t. rd = no_redis_health\<lparr>redis_error := Some t\<rparr>))"
  using assms
  unfolding get_redis_pipeline_health_def io_try_eq [of "io_bind _ _"]
  by (elim disjE exE conjE) (auto simp: io_bind_Inr case_prod_beta Let_def no_redis_health_def)

lemma persistence_health_total:
  assumes "get_persistence_pipeline_health H w = (r, w')"
  shows "\<exists>ps. r = Inr ps \<and> (persistence_available ps \<longrightarrow> persistence_error ps = None \<and> quarantine_count ps \<noteq> None) \<and>
    (\<not> persistence_available ps \<longrightarrow> persistence_error ps \<noteq> None \<and> last_successful_persistence_at ps = None \<and>
       quarantine_count ps = None \<and> last_quarantine_at ps = None)"
  using assms
  unfolding get_persistence_pipeline_health_def io_try_eq
  by (elim disjE exE conjE) (auto simp: io_bind_Inr)

lemma evaluate_health_alerts_total: "\<exists>w'. evaluate_health_alerts X show_rat osenv rd ps w = (Inr (), w')"
  by (auto simp: evaluate_health_alerts_def io_try_def split: prod.splits sum.splits)

lemma read_env_file_raises: "read_env_file H path w = (Inl e, w') \<Longrightarrow> fst (h_read_text H path (env w)) = Inl e"
  by (cases "h_read_text H path (env w)") (auto simp: read_env_file_def io_bind_Inl io_call_def)

lemma retention_integrity_raises:
  assumes "get_retention_integrity_health H osenv w = (Inl e, w')"
  shows "\<exists>status_dir path env. env_value osenv ''AUDIT_HEALTH_STATUS_DIR'' = Some status_dir \<and>
    fst (h_read_text H path env) = Inl e"
proof (cases "env_value osenv ''AUDIT_HEALTH_STATUS_DIR''")
  case None
  with assms show ?thesis by (simp add: get_retention_integrity_health_def)
next
  case (Some status_dir)
  with assms obtain path w1 where "read_env_file H path w1 = (Inl e, w')"
    by (auto simp: get_retention_integrity_health_def io_bind_Inl)
  with Some read_env_file_raises show ?thesis by blast
qed


text \<open>A deployment whose Redis is down and whose database answers.\<close>

definition example_health :: "mem health_ops" where
  "example_health =
     \<lparr>h_xlen = (\<lambda>s e. (raise (RedisError ''ConnectionError'') ''refused'', e)),
      h_xpending = (\<lambda>s g e. (Inr None, e)), h_xpending_range = (\<lambda>s g n e. (Inr [], e)),
      h_xinfo_groups = (\<lambda>s e. (Inr [], e)), h_xinfo_consumers = (\<lambda>s g e. (Inr [], e)),
      h_max_created_at = (\<lambda>e. (Inr None, e)), h_count_quarantined = (\<lambda>e. (Inr (Some 3), e)),
      h_max_quarantined_at = (\<lambda>e. (Inr None, e)), h_read_text = (\<lambda>p e. (Inr None, e))\<rparr>"


end
