(* ===== verification/Api.thy ===== *)
theory Api
  imports Health Producer Audit_Query
begin

text \<open>
  \<open>api/main.py\<close> and \<open>db/session.py\<close>: the application with its five routes, and the
  database session of a request.  FastAPI is modelled by what the application relies
  on: a route is found by its path and method, its dependencies run in the order of
  the parameters, and the code after the \<open>yield\<close> of a dependency runs in any case.
\<close>

section \<open>Requests\<close>

datatype route = GetHealth | GetTest | GetEvents | GetEventsSafe | GetPipelineHealth

text \<open>The routers in the order of \<open>include_router\<close>.\<close>

definition app_routes :: "(string \<times> route) list" where
  "app_routes =
     [(''/health'', GetHealth), (''/audit/test'', GetTest), (''/audit/events'', GetEvents),
      (''/audit/events/safe'', GetEventsSafe), (''/audit/pipeline-health'', GetPipelineHealth)]"

record api_request =
  req_method :: string
  req_path :: string
  req_authorization :: "string option"
  req_page :: int
  req_page_size :: int
  req_query :: event_query

datatype body = Json pydict | Events "event_out reply" | SafeEvents "safe_event reply"

text \<open>
  What the application is built on: the services of the components, the rows a query
  sees and the clock in a state of the environment, and the sessions of the reader engine.
\<close>

record 'e app =
  app_ops :: "'e ops"
  app_health :: "'e health_ops"
  app_producer :: "'e producer_ops"
  app_pydantic :: pydantic
  app_dumper :: dumper
  app_jwt :: jwt_env
  app_show :: "rat \<Rightarrow> pyval"
  app_environ :: environ
  app_config :: config
  app_collation :: collation
  app_rows :: "'e \<Rightarrow> audit_row list res"
  app_now :: "'e \<Rightarrow> datetime"
  open_session :: "string \<Rightarrow> 'e \<Rightarrow> unit res \<times> 'e"
  close_session :: "'e \<Rightarrow> unit res \<times> 'e"

datatype session_event = SessionOpened string | SessionClosed

record 'e served =
  served_world :: "'e world"
  sessions :: "session_event list"

definition in_world :: "('e, 'a) io \<Rightarrow> ('e served, 'a) st" where
  "in_world m s = (case m (served_world s) of (r, w) \<Rightarrow> (r, s\<lparr>served_world := w\<rparr>))"

text \<open>A request outside a token context: the context variables have their defaults.\<close>

definition in_request :: "('e, 'a) rq \<Rightarrow> ('e served, 'a) st" where
  "in_request m s =
     (case m \<lparr>request_env = env (served_world s), trace_id_var = None, user_id_var = None, identity_var = None,
              published = []\<rparr> of
        (r, q) \<Rightarrow> (r, s\<lparr>served_world := (served_world s)\<lparr>env := request_env q\<rparr>\<rparr>))"

section \<open>The session of a request\<close>

definition log_session :: "session_event \<Rightarrow> ('e served, unit) st" where
  "log_session x s = (Inr (), s\<lparr>sessions := sessions s @ [x]\<rparr>)"

definition get_db :: "'e app \<Rightarrow> ('e served, 'a) st \<Rightarrow> ('e served, 'a) st" where
  "get_db A m =
     io_bind (in_world (io_call (open_session A (READER_DATABASE_URL (app_config A))))) (\<lambda>_.
     io_bind (log_session (SessionOpened (READER_DATABASE_URL (app_config A)))) (\<lambda>_.
     io_finally m (io_bind (log_session SessionClosed) (\<lambda>_. in_world (io_call (close_session A))))))"

section \<open>The application\<close>

definition events_handler :: "'e app \<Rightarrow> api_request \<Rightarrow> ('e served, body) st" where
  "events_handler A rq s =
     (bind_res (list_audit_events_route (app_jwt A) (app_collation A) (app_rows A (env (served_world s)))
        (app_now A (env (served_world s))) (req_authorization rq) (req_page rq) (req_page_size rq) (req_query rq))
        (\<lambda>x. Inr (Events x)), s)"

definition safe_handler :: "'e app \<Rightarrow> api_request \<Rightarrow> ('e served, body) st" where
  "safe_handler A rq s =
     (bind_res (list_safe_audit_events_route (app_jwt A) (app_collation A) (app_rows A (env (served_world s)))
        (app_now A (env (served_world s))) (req_authorization rq) (req_page rq) (req_page_size rq) (req_query rq))
        (\<lambda>x. Inr (SafeEvents x)), s)"

text \<open>
  \<open>db\<close> comes before the check of the token in two routes and after it in the tenant-safe one.
\<close>

fun handle_route :: "'e app \<Rightarrow> route \<Rightarrow> api_request \<Rightarrow> ('e served, body) st" where
  "handle_route A GetHealth rq = io_return (Json health)"
| "handle_route A GetTest rq =
     io_bind (in_request (test_log (app_producer A) (app_pydantic A) (app_dumper A) (app_config A))) (\<lambda>d. io_return (Json d))"
| "handle_route A GetEvents rq = get_db A (events_handler A rq)"
| "handle_route A GetEventsSafe rq =
     io_bind (io_lift (require_audit_read_access (app_jwt A) (req_authorization rq))) (\<lambda>_. get_db A (safe_handler A rq))"
| "handle_route A GetPipelineHealth rq =
     get_db A (io_bind (in_world (pipeline_health_route (app_ops A) (app_health A) (app_jwt A) (app_show A) (app_environ A)
       (app_config A) (req_authorization rq))) (\<lambda>d. io_return (Json d)))"

definition handle_request :: "'e app \<Rightarrow> api_request \<Rightarrow> ('e served, body) st" where
  "handle_request A rq =
     (case map_of app_routes (req_path rq) of
        None \<Rightarrow> io_lift (raise (HTTPException 404) ''Not Found'')
      | Some route \<Rightarrow>
          if req_method rq \<noteq> ''GET'' then io_lift (raise (HTTPException 405) ''Method Not Allowed'')
          else handle_route A route rq)"

section \<open>Sessions\<close>

lemma get_db_cases:
  assumes "get_db A m s = (r, s')"
  obtains (unopened) e where "r = Inl e" "sessions s' = sessions s"
  | (opened) s1 s2 r2 where "sessions s1 = sessions s @ [SessionOpened (READER_DATABASE_URL (app_config A))]"
      "m s1 = (r2, s2)" "sessions s' = sessions s2 @ [SessionClosed]" "\<And>x. r = Inr x \<Longrightarrow> r2 = Inr x"
proof -
  obtain r0 e0 where o: "open_session A (READER_DATABASE_URL (app_config A)) (env (served_world s)) = (r0, e0)" by (rule prod.exhaust)
  show thesis
  proof (cases r0)
    case (Inl e)
    with assms o show thesis by (intro unopened) (auto simp: get_db_def io_bind_def in_world_def io_call_def)
  next
    case (Inr u)
    let ?s1 = "s\<lparr>served_world := (served_world s)\<lparr>env := e0\<rparr>,
        sessions := sessions s @ [SessionOpened (READER_DATABASE_URL (app_config A))]\<rparr>"
    obtain r2 s2 where m: "m ?s1 = (r2, s2)" by (rule prod.exhaust)
    show thesis
    proof (rule opened)
      show "sessions ?s1 = sessions s @ [SessionOpened (READER_DATABASE_URL (app_config A))]" by simp
      show "m ?s1 = (r2, s2)" by (rule m)
      show "sessions s' = sessions s2 @ [SessionClosed]" "\<And>x. r = Inr x \<Longrightarrow> r2 = Inr x"
        using assms o Inr m by (auto simp: get_db_def io_bind_def io_finally_def in_world_def io_call_def log_session_def
            split: prod.splits sum.splits)
    qed
  qed
qed

text \<open>A request opens no session, or one of the reader engine that it also closes.\<close>

definition balanced :: "'e app \<Rightarrow> session_event list \<Rightarrow> bool" where
  "balanced A l \<longleftrightarrow> l = [] \<or> l = [SessionOpened (READER_DATABASE_URL (app_config A)), SessionClosed]"

lemma get_db_balanced:
  assumes "get_db A m s = (r, s')" and "\<And>s1 r2 s2. m s1 = (r2, s2) \<Longrightarrow> sessions s2 = sessions s1"
  shows "\<exists>l. sessions s' = sessions s @ l \<and> balanced A l"
  using assms(1)
proof (cases rule: get_db_cases)
  case (opened s1 s2 r2)
  with assms(2) [OF opened(2)] show ?thesis by (auto simp: balanced_def)
qed (simp add: balanced_def)

lemma handlers_keep_sessions:
  "in_world k s = (r, s') \<Longrightarrow> sessions s' = sessions s"
  "in_request q s = (r', s') \<Longrightarrow> sessions s' = sessions s"
  "events_handler A rq s = (b, s') \<Longrightarrow> sessions s' = sessions s"
  "safe_handler A rq s = (b, s') \<Longrightarrow> sessions s' = sessions s"
  by (auto simp: in_world_def in_request_def events_handler_def safe_handler_def split: prod.splits)

lemma handle_route_balanced:
  assumes "handle_route A route rq s = (r, s')"
  shows "\<exists>l. sessions s' = sessions s @ l \<and> balanced A l"
proof (cases route)
  case GetHealth
  with assms show ?thesis by (auto simp: balanced_def)
next
  case GetTest
  with assms have "sessions s' = sessions s"
    by (auto simp: io_bind_def handlers_keep_sessions(2) split: prod.splits sum.splits)
  then show ?thesis by (simp add: balanced_def)
next
  case GetEvents
  with assms get_db_balanced handlers_keep_sessions(3) show ?thesis by (metis handle_route.simps(3))
next
  case GetEventsSafe
  show ?thesis
  proof (cases "require_audit_read_access (app_jwt A) (req_authorization rq)")
    case (Inl e)
    with GetEventsSafe assms show ?thesis by (auto simp: balanced_def)
  next
    case (Inr a)
    with GetEventsSafe assms have "get_db A (safe_handler A rq) s = (r, s')" by simp
    then show ?thesis by (rule get_db_balanced) (rule handlers_keep_sessions(4))
  qed
next
  case GetPipelineHealth
  with assms show ?thesis
    by (intro get_db_balanced) (auto simp: io_bind_def handlers_keep_sessions(1) split: prod.splits sum.splits)
qed

section \<open>Who gets an answer\<close>

definition admin_token :: "jwt_env \<Rightarrow> string option \<Rightarrow> bool" where
  "admin_token J a \<longleftrightarrow> (\<exists>t p. bearer_token a = Inr t \<and> verify_token J (Some t) = Inr p \<and>
     py_in PLATFORM_ADMIN_ROLE (py_or (dict_get p ''roles'') (PList [])) = Inr True)"

definition reader_token :: "jwt_env \<Rightarrow> string option \<Rightarrow> bool" where
  "reader_token J a \<longleftrightarrow> (\<exists>t p. bearer_token a = Inr t \<and> verify_token J (Some t) = Inr p \<and>
     (py_in PLATFORM_WIDE_PERMISSION (py_or (dict_get p ''permissions'') (PList [])) = Inr True \<or>
      py_in ORGANIZATION_READ_ROLE (py_or (dict_get p ''org_role'') (PList [])) = Inr True))"

lemma admin_token: "require_platform_admin J a = Inr p \<Longrightarrow> admin_token J a"
  by (auto simp: require_platform_admin_def admin_token_def verified_payload_Inr split: if_splits)

lemma reader_token: "require_audit_read_access J a = Inr x \<Longrightarrow> reader_token J a"
  by (auto simp: require_audit_read_access_def reader_token_def verified_payload_Inr simp del: py_in.simps split: if_splits)

lemma get_db_returns: "get_db A m s = (Inr x, s') \<Longrightarrow> \<exists>s1 s2. m s1 = (Inr x, s2)"
  by (cases rule: get_db_cases) blast+

lemma handle_route_authorized:
  assumes "handle_route A route rq s = (Inr b, s')"
  shows "case route of GetHealth \<Rightarrow> True | GetTest \<Rightarrow> True | GetEventsSafe \<Rightarrow> reader_token (app_jwt A) (req_authorization rq)
    | _ \<Rightarrow> admin_token (app_jwt A) (req_authorization rq)"
proof (cases route)
  case GetEvents
  with assms obtain s1 s2 where "events_handler A rq s1 = (Inr b, s2)" using get_db_returns by fastforce
  then have "\<exists>p. require_platform_admin (app_jwt A) (req_authorization rq) = Inr p"
    by (auto simp: events_handler_def list_audit_events_route_def)
  with GetEvents show ?thesis using admin_token by fastforce
next
  case GetEventsSafe
  with assms have "\<exists>x. require_audit_read_access (app_jwt A) (req_authorization rq) = Inr x"
    by (cases "require_audit_read_access (app_jwt A) (req_authorization rq)") auto
  with GetEventsSafe show ?thesis using reader_token by fastforce
next
  case GetPipelineHealth
  with assms obtain s1 s2 where "io_bind (in_world (pipeline_health_route (app_ops A) (app_health A) (app_jwt A) (app_show A)
      (app_environ A) (app_config A) (req_authorization rq))) (\<lambda>d. io_return (Json d)) s1 = (Inr b, s2)"
    using get_db_returns by fastforce
  then have "\<exists>p. require_platform_admin (app_jwt A) (req_authorization rq) = Inr p"
    by (cases "require_platform_admin (app_jwt A) (req_authorization rq)")
      (auto simp: io_bind_Inr in_world_def pipeline_health_route_def split: prod.splits)
  with GetPipelineHealth show ?thesis using admin_token by fastforce
qed simp_all

text \<open>
  C25: who gets an answer from the API, and what a request leaves open.  Only GET
  requests to the five routes are answered.  The event listing and the pipeline
  health are answered only to a verified token with the platform admin role, the
  tenant-safe listing only to a verified token with the platform-wide permission or the
  organization admin role; the health check and the test route are the only ones
  open to everybody.  However a request ends, it has used no database session, or
  one on the reader account's address, which has been closed.
\<close>

theorem api_requests_authorized:
  assumes "handle_request A rq s = (r, s')"
  shows "(sessions s' = sessions s \<or>
      sessions s' = sessions s @ [SessionOpened (READER_DATABASE_URL (app_config A)), SessionClosed]) \<and>
    (\<forall>b. r = Inr b \<longrightarrow> req_method rq = ''GET'' \<and>
      (req_path rq \<in> {''/health'', ''/audit/test''} \<or>
       (req_path rq \<in> {''/audit/events'', ''/audit/pipeline-health''} \<and> admin_token (app_jwt A) (req_authorization rq)) \<or>
       (req_path rq = ''/audit/events/safe'' \<and> reader_token (app_jwt A) (req_authorization rq))))"
proof (cases "\<exists>route. map_of app_routes (req_path rq) = Some route \<and> req_method rq = ''GET''")
  case True
  then obtain route where route: "map_of app_routes (req_path rq) = Some route" and g: "req_method rq = ''GET''" by blast
  then have h: "handle_route A route rq s = (r, s')" using assms by (simp add: handle_request_def)
  have "(req_path rq, route) \<in> set app_routes" using route by (rule map_of_SomeD)
  then have p: "(req_path rq, route) \<in> {(''/health'', GetHealth), (''/audit/test'', GetTest), (''/audit/events'', GetEvents),
      (''/audit/events/safe'', GetEventsSafe), (''/audit/pipeline-health'', GetPipelineHealth)}"
    by (simp add: app_routes_def)
  have "sessions s' = sessions s \<or>
      sessions s' = sessions s @ [SessionOpened (READER_DATABASE_URL (app_config A)), SessionClosed]"
    using handle_route_balanced [OF h] by (auto simp: balanced_def)
  moreover have "req_path rq \<in> {''/health'', ''/audit/test''} \<or>
       (req_path rq \<in> {''/audit/events'', ''/audit/pipeline-health''} \<and> admin_token (app_jwt A) (req_authorization rq)) \<or>
       (req_path rq = ''/audit/events/safe'' \<and> reader_token (app_jwt A) (req_authorization rq))" if "r = Inr b" for b
    using handle_route_authorized [of A route rq s b s'] h that p by (cases route) simp_all
  ultimately show ?thesis using g by blast
next
  case False
  then have "s' = s \<and> (\<exists>e. r = Inl e)"
    using assms by (cases "map_of app_routes (req_path rq)") (auto simp: handle_request_def split: if_splits)
  then show ?thesis by auto
qed

definition example_app :: "mem app" where
  "example_app =
     \<lparr>app_ops = mem_ops, app_health = example_health,
      app_producer = \<lparr>p_xadd = (\<lambda>s f n e. (Inr (), e)), p_uuid4 = (\<lambda>e. (Inr ''u'', e)), p_utcnow = (\<lambda>e. (Inr demo_time, e))\<rparr>,
      app_pydantic = demo_pydantic, app_dumper = demo_dumper,
      app_jwt = example_jwt [(''sub'', PStr ''7''), (''org_role'', PList [PStr ''org_admin'']), (''org_id'', PStr ''589'')],
      app_show = (\<lambda>q. PNone), app_environ = Map.empty, app_config = example_config, app_collation = id,
      app_rows = (\<lambda>e. Inr (map snd (mem_events e))), app_now = (\<lambda>e. DateTime 5 (Some 0)),
      open_session = (\<lambda>u e. (Inr (), e)), close_session = (\<lambda>e. (Inr (), e))\<rparr>"

theorem api_requests_authorized_witness:
  "\<exists>b s'. handle_request example_app \<lparr>req_method = ''GET'', req_path = ''/audit/events/safe'',
       req_authorization = Some ''Bearer s3cret'', req_page = 1, req_page_size = 20, req_query = any_event\<rparr>
       \<lparr>served_world = world_init (mem_init []), sessions = []\<rparr> = (Inr b, s') \<and>
     reader_token (app_jwt example_app) (Some ''Bearer s3cret'') \<and> length (sessions s') \<le> 2"
proof -
  let ?rq = "\<lparr>req_method = ''GET'', req_path = ''/audit/events/safe'',
       req_authorization = Some ''Bearer s3cret'', req_page = 1, req_page_size = 20, req_query = any_event\<rparr>"
  let ?s = "\<lparr>served_world = world_init (mem_init []), sessions = []\<rparr>"
  have "\<exists>b s'. handle_request example_app ?rq ?s = (Inr b, s')"
    using example_reader
    by (simp add: handle_request_def app_routes_def example_app_def get_db_def io_bind_def io_finally_def in_world_def
        io_call_def log_session_def safe_handler_def list_safe_audit_events_route_def list_safe_audit_events_def
        select_safe_events_filter safe_params_ok_def page_params_ok_def max_length_ok_def any_event_def mem_init_def world_init_def)
  then obtain b s' where h: "handle_request example_app ?rq ?s = (Inr b, s')" by blast
  from api_requests_authorized [OF h] h show ?thesis by auto
qed

end
