(* ===== verification/End_To_End.thy ===== *)
theory End_To_End
  imports Delivery Deployment Api
begin

text \<open>
  All parts together: an event a producer logs, the worker that handles its entry on
  the guarded tables, and the API that lists it to the organization it belongs to.
\<close>

section \<open>The API on the tables\<close>

text \<open>
  The API reads the worker's tables: its queries answer with the rows of
  \<open>audit_events\<close> under the collation of the server, and its sessions can be opened
  and closed.  Rows may be added in the meantime.
\<close>

definition reads_tables :: "('e \<times> tables) app \<Rightarrow> 'e sql_server \<Rightarrow> bool" where
  "reads_tables A S \<longleftrightarrow>
     app_collation A = srv_collation S \<and> (\<forall>s. app_rows A s = Inr (t_events (snd s))) \<and>
     (\<forall>url s. fst (open_session A url s) = Inr () \<and> extends (snd s) (snd (snd (open_session A url s)))) \<and>
     (\<forall>s. fst (close_session A s) = Inr ())"

text \<open>A request for a page of everything the caller may see.\<close>

definition safe_request :: "string option \<Rightarrow> int \<Rightarrow> int \<Rightarrow> api_request" where
  "safe_request authorization p n =
     \<lparr>req_method = ''GET'', req_path = ''/audit/events/safe'', req_authorization = authorization,
      req_page = p, req_page_size = n, req_query = any_event\<rparr>"

lemma safe_request_served:
  assumes "reads_tables A S" and "require_audit_read_access (app_jwt A) authorization = Inr access"
  shows "\<exists>t now. extends (snd (env (served_world s))) t \<and> (\<forall>p n b.
    list_safe_audit_events_route (app_jwt A) (srv_collation S) (Inr (t_events t)) now authorization p n any_event = Inr b \<longrightarrow>
    (\<exists>s'. handle_request A (safe_request authorization p n) s = (Inr (SafeEvents b), s')))"
proof -
  let ?url = "READER_DATABASE_URL (app_config A)"
  obtain e t where o: "open_session A ?url (env (served_world s)) = (Inr (), (e, t))"
    using assms(1) unfolding reads_tables_def by (metis prod.collapse)
  have ext: "extends (snd (env (served_world s))) t"
    using assms(1) o unfolding reads_tables_def by (metis snd_conv)
  have c: "\<exists>x. close_session A v = (Inr (), x)" for v
    using assms(1) unfolding reads_tables_def by (metis prod.collapse)
  have "\<exists>s'. handle_request A (safe_request authorization p n) s = (Inr (SafeEvents b), s')"
    if "list_safe_audit_events_route (app_jwt A) (srv_collation S) (Inr (t_events t)) (app_now A (e, t)) authorization p n any_event = Inr b"
    for p n b
  proof -
    obtain x where x: "close_session A (e, t) = (Inr (), x)" using c by blast
    have r: "app_collation A = srv_collation S" "app_rows A (e, t) = Inr (t_events t)"
      using assms(1) by (simp_all add: reads_tables_def)
    show ?thesis
      by (simp add: handle_request_def safe_request_def app_routes_def assms(2) get_db_def io_bind_def io_finally_def in_world_def
          io_call_def log_session_def safe_handler_def o x r that)
  qed
  with ext show ?thesis by blast
qed

lemma stored_row_served:
  assumes "reads_tables A S" and "require_audit_read_access (app_jwt A) authorization = Inr access"
    and "\<not> platform_wide access" and "own_row (srv_collation S) (access_organization_id access) r"
    and "r \<in> set (t_events (snd (env (served_world s))))" and "1 \<le> n" and "n \<le> 100"
  shows "\<exists>p pg s'. handle_request A (safe_request authorization p n) s = (Inr (SafeEvents (Reply pg)), s') \<and>
    1 \<le> p \<and> p \<le> page_count pg \<and> safe_event_of r \<in> set (page_items pg)"
proof -
  obtain t now where t: "extends (snd (env (served_world s))) t" and served: "\<And>p n b.
    list_safe_audit_events_route (app_jwt A) (srv_collation S) (Inr (t_events t)) now authorization p n any_event = Inr b \<Longrightarrow>
    \<exists>s'. handle_request A (safe_request authorization p n) s = (Inr (SafeEvents b), s')"
    using safe_request_served [OF assms(1,2), of s] by blast
  have "r \<in> set (t_events t)" using t assms(5) by (auto simp: extends_def)
  from own_row_listed [OF assms(2,3,6,7) this assms(4), of now] served show ?thesis by blast
qed

section \<open>From the producer to the reader\<close>

text \<open>What a reply says of an event.\<close>

definition shows_event :: "audit_event \<Rightarrow> safe_event \<Rightarrow> bool" where
  "shows_event ev item \<longleftrightarrow>
     safe_event_id item = event_id ev \<and> safe_organization_id item = organization_id ev \<and>
     safe_tenant_scope item = tenant_scope ev \<and> safe_actor item = user_id ev \<and> safe_event_type item = event_type ev \<and>
     safe_action item = action ev \<and> safe_decision item = decision ev \<and> safe_integrity item = ''valid''"

lemma faithful_row_shows:
  assumes "faithful_row cfg ev ''valid'' r" and "tenant_scope ev = ''organization''"
  shows "shows_event ev (safe_event_of r)"
  using assms by (simp add: faithful_row_def shows_event_def safe_event_of_def)

lemma faithful_row_served:
  assumes "reads_tables A S"
    and "require_audit_read_access (app_jwt A) authorization = Inr \<lparr>platform_wide = False, access_organization_id = Some org\<rparr>"
    and "faithful_row cfg ev ''valid'' r" and "organization_id ev = Some org" and "tenant_scope ev = ''organization''"
    and "event_of (sql_view S) e (event_id ev) = Some r" and "1 \<le> n" and "n \<le> 100"
  shows "\<exists>p pg s'. handle_request A (safe_request authorization p n) \<lparr>served_world = world_init e, sessions = []\<rparr>
      = (Inr (SafeEvents (Reply pg)), s') \<and>
    1 \<le> p \<and> p \<le> page_count pg \<and> (\<exists>item \<in> set (page_items pg). shows_event ev item)"
proof -
  have "r \<in> set (t_events (snd e))" using assms(6) by (auto simp: sql_view_def lookup_def find_Some_iff)
  moreover have "own_row (srv_collation S) (Some org) r"
    using assms(3-5) by (simp add: faithful_row_def own_row_def column_eq_def)
  ultimately show ?thesis
    using stored_row_served [OF assms(1,2), of r "\<lparr>served_world = world_init e, sessions = []\<rparr>" n] assms(7,8)
      faithful_row_shows [OF assms(3,5)]
    by (fastforce simp: world_init_def)
qed

text \<open>Where only the worker inserts, the other sessions leave the events as they are.\<close>

lemma quiet_session:
  assumes "execute_sql col user stmt t = Inr u" and "\<not> is_maintenance col user" and "\<not> inserts stmt"
  shows "t_events u = t_events t"
  using assms by (cases stmt) (auto simp: row_iffs denied_delete)

interpretation sn: server_relation S "\<lambda>t u. guarded S \<and> sole_writer S \<longrightarrow> t_events u = t_events t" for S
proof
  fix t e
  have step: "t_events (session_step S c u) = t_events u"
    if "guarded S" "\<not> is_maintenance (srv_collation S) (fst c)" "\<not> inserts (snd c)" for c u
    using that quiet_session by (fastforce simp: session_step_def guarded_def triggered_retention split: sum.split)
  have "t_events (fold (session_step S) cs t) = t_events t"
    if "guarded S" "\<forall>c \<in> set cs. \<not> is_maintenance (srv_collation S) (fst c) \<and> \<not> inserts (snd c)" for cs
    using that by (induction cs arbitrary: t) (auto simp: step)
  then show "guarded S \<and> sole_writer S \<longrightarrow> t_events (fold (session_step S) (srv_others S e) t) = t_events t"
    unfolding sole_writer_def guarded_def server_ok_def by blast
qed auto

lemma parse_entry_quiet:
  assumes "parse_entry (sql_ops S X) P fs w = (r, w')" and "guarded S" and "sole_writer S"
  shows "t_events (snd (env w')) = t_events (snd (env w))"
proof -
  have "keeps (\<lambda>w w'. guarded S \<and> sole_writer S \<longrightarrow> t_events (snd (env w')) = t_events (snd (env w))) (parse_entry (sql_ops S X) P fs)"
    unfolding parse_entry_def by (intro sn.keeps_rules sn.keeps_calls)
  from keepsD [OF this assms(1)] assms(2,3) show ?thesis by simp
qed

text \<open>
  C8: an event that was logged is shown to its organization.  A producer logs an event of
  an organization, and the call adds one entry to the stream.  A worker with the same
  secret handles the entry on guarded tables into which nobody else inserts and which
  do not have the event's ID; it inserts a row and acknowledges the entry.  Then,
  after any further run of the worker, a reader of that organization who goes
  through the pages of the tenant-safe route finds the event, with its actor, action
  and decision as they were logged, and marked as validly signed.
\<close>

theorem logged_event_is_listed:
  assumes "pydantic_ok P" and "audit_event_init P u0 n0 args = Inr ev" and "dump_restores P D ev"
    and "model_dump_json D ev = Inr payload" and "json_ok (PDict payload)"
    and "logger_log Q D pcfg ev s0 = (r0, s0')" and "published s0' = published s0 @ [(strm, fs)]"
    and "EVENT_SIGNING_SECRET pcfg = EVENT_SIGNING_SECRET cfg" and "service ev \<noteq> []"
    and "services_ok (sql_ops S X)" and "guarded S" and "sole_writer S"
    and "srv_collation S (event_id ev) \<notin> (\<lambda>x. srv_collation S (event_id x)) ` set (t_events (snd (env w)))"
    and "is_ok (sink_row cfg ev ''valid'')" and "in_range (wall (timestamp ev))"
    and "organization_id ev = Some org" and "tenant_scope ev = ''organization''"
    and "reads_tables A S" and "1 \<le> n" and "n \<le> 100"
    and "require_audit_read_access (app_jwt A) authorization = Inr \<lparr>platform_wide = False, access_organization_id = Some org\<rparr>"
  shows "\<exists>w' row. handle_message (sql_ops S X) P cfg i fs w = (Inr True, w') \<and>
    history w' = history w @ [Handling i fs, EventCommit row False, Ack i] \<and>
    (\<forall>osenv k x w''. worker_main (sql_ops S X) P osenv cfg k w' = (x, w'') \<longrightarrow>
      (\<exists>p pg s'. handle_request A (safe_request authorization p n) \<lparr>served_world = world_init (env w''), sessions = []\<rparr>
           = (Inr (SafeEvents (Reply pg)), s') \<and>
         1 \<le> p \<and> p \<le> page_count pg \<and> (\<exists>item \<in> set (page_items pg). shows_event ev item)))"
proof -
  let ?X = "sql_ops S X"
  have "store_ok ?X (sql_view S)" using assms(11) by (intro sql_store_ok) (simp_all add: guarded_def)
  from logged_stored [OF assms(1-10) this assms(14,15), of i w] obtain w' row dup r where
    h: "handle_message ?X P cfg i fs w = (Inr True, w')" "history w' = history w @ [Handling i fs, EventCommit row dup, Ack i]"
      "\<not> dup \<longrightarrow> faithful_row cfg ev ''valid'' r"
      "\<And>osenv k x w''. worker_main ?X P osenv cfg k w' = (x, w'') \<Longrightarrow> event_of (sql_view S) (env w'') (event_id ev) = Some r"
    and d: "dup \<longrightarrow> (\<exists>w1 e0. parse_entry ?X P fs (w\<lparr>history := history w @ [Handling i fs]\<rparr>) = (Inr (Some ev), w1) \<and>
      op_open_session ?X (env w1) = (Inr (), e0) \<and> event_of (sql_view S) e0 (event_id ev) \<noteq> None)"
    by blast
  have new: "\<not> dup"
  proof
    assume dup
    with d obtain w1 e0 where w1: "parse_entry ?X P fs (w\<lparr>history := history w @ [Handling i fs]\<rparr>) = (Inr (Some ev), w1)"
      "op_open_session ?X (env w1) = (Inr (), e0)" "event_of (sql_view S) e0 (event_id ev) \<noteq> None" by blast
    have "io_call (op_open_session ?X) w1 = (Inr (), w1\<lparr>env := e0\<rparr>)" by (simp add: io_call_def w1(2))
    from keepsD [OF sn.keeps_calls(7) this] assms(11,12) have "t_events (snd e0) = t_events (snd (env w1))" by simp
    also have "\<dots> = t_events (snd (env w))" using parse_entry_quiet [OF w1(1) assms(11,12)] by simp
    finally have "t_events (snd e0) = t_events (snd (env w))" .
    with w1(3) lookup_some [of "srv_collation S" event_id "t_events (snd (env w))" "event_id ev"] assms(13)
    show False by (force simp: sql_view_def)
  qed
  have "history w' = history w @ [Handling i fs, EventCommit row False, Ack i]" using h(2) new by simp
  moreover have "faithful_row cfg ev ''valid'' r" using h(3) new by blast
  note faithful_row_served [OF assms(18,21) this assms(16,17) h(4) assms(19,20)]
  ultimately show ?thesis using h(1) by blast
qed

section \<open>An example of the whole way\<close>

definition example_reader_app :: "(mem \<times> tables) app" where
  "example_reader_app =
     \<lparr>app_ops = sql_ops example_server mem_ops,
      app_health =
        \<lparr>h_xlen = (\<lambda>s e. (Inr 0, e)), h_xpending = (\<lambda>s g e. (Inr None, e)), h_xpending_range = (\<lambda>s g n e. (Inr [], e)),
         h_xinfo_groups = (\<lambda>s e. (Inr [], e)), h_xinfo_consumers = (\<lambda>s g e. (Inr [], e)),
         h_max_created_at = (\<lambda>e. (Inr None, e)),
         h_count_quarantined = (\<lambda>e. (Inr (Some (int (length (t_quarantined (snd e))))), e)),
         h_max_quarantined_at = (\<lambda>e. (Inr None, e)), h_read_text = (\<lambda>p e. (Inr None, e))\<rparr>,
      app_producer = \<lparr>p_xadd = (\<lambda>s f n e. (Inr (), e)), p_uuid4 = (\<lambda>e. (Inr ''u'', e)), p_utcnow = (\<lambda>e. (Inr demo_time, e))\<rparr>,
      app_pydantic = demo_pydantic, app_dumper = demo_dumper,
      app_jwt = example_jwt [(''sub'', PStr ''7''), (''org_role'', PList [PStr ''org_admin'']), (''org_id'', PStr ''589'')],
      app_show = (\<lambda>q. PNone), app_environ = Map.empty, app_config = example_config, app_collation = lower,
      app_rows = (\<lambda>e. Inr (t_events (snd e))), app_now = (\<lambda>e. DateTime 5 (Some 0)),
      open_session = (\<lambda>u e. (Inr (), e)), close_session = (\<lambda>e. (Inr (), e))\<rparr>"

definition empty_tables :: tables where
  "empty_tables = \<lparr>t_events = [], t_quarantined = [], t_holds = []\<rparr>"

theorem logged_event_is_listed_witness:
  "\<exists>fs s0' w' row. logger_log demo_ops demo_dumper example_config demo_event demo_request = (Inr (), s0') \<and>
     published s0' = published demo_request @ [(''audit:events'', fs)] \<and>
     handle_message (sql_ops example_server mem_ops) demo_pydantic example_config ''1-0'' fs
       (world_init (mem_init [(''1-0'', fs)], empty_tables)) = (Inr True, w') \<and>
     history w' = [Handling ''1-0'' fs, EventCommit row False, Ack ''1-0''] \<and>
     (\<forall>osenv k x w''. worker_main (sql_ops example_server mem_ops) demo_pydantic osenv example_config k w' = (x, w'') \<longrightarrow>
       (\<exists>p pg s'. handle_request example_reader_app (safe_request (Some ''Bearer s3cret'') p 20)
            \<lparr>served_world = world_init (env w''), sessions = []\<rparr> = (Inr (SafeEvents (Reply pg)), s') \<and>
          1 \<le> p \<and> p \<le> page_count pg \<and> (\<exists>item \<in> set (page_items pg). shows_event demo_event item)))"
proof -
  obtain fs s' where l: "logger_log demo_ops demo_dumper example_config demo_event demo_request = (Inr (), s')"
    "published s' = published demo_request @ [(''audit:events'', fs)]" by (rule demo_logged)
  let ?w = "world_init (mem_init [(''1-0'', fs)], empty_tables)"
  have g: "guarded example_server" using example_server_ok(1) by (simp add: guarded_def example_server_def)
  have fresh: "srv_collation example_server (event_id demo_event) \<notin>
      (\<lambda>x. srv_collation example_server (event_id x)) ` set (t_events (snd (env ?w)))"
    by (simp add: world_init_def empty_tables_def)
  have ev: "organization_id demo_event = Some ''589''" "tenant_scope demo_event = ''organization''"
    by (simp_all add: demo_event_def example_event_def)
  have r: "reads_tables example_reader_app example_server"
    by (simp add: reads_tables_def example_reader_app_def example_server_def)
  have a: "require_audit_read_access (app_jwt example_reader_app) (Some ''Bearer s3cret'') =
      Inr \<lparr>platform_wide = False, access_organization_id = Some ''589''\<rparr>"
    using example_reader by (simp add: example_reader_app_def)
  have h: "history ?w = []" by (simp add: world_init_def)
  from logged_event_is_listed [where w = ?w and n = 20 and i = "''1-0''", OF demo_pydantic_ok demo_event_accepted demo_event_conditions(1)
      demo_dump(1) demo_json l HOL.refl demo_event_conditions(2) example_services g example_server_ok(2) fresh demo_sink_row
      demo_event_conditions(3) ev r _ _ a]
  have "\<exists>w' row. handle_message (sql_ops example_server mem_ops) demo_pydantic example_config ''1-0'' fs ?w = (Inr True, w') \<and>
     history w' = [] @ [Handling ''1-0'' fs, EventCommit row False, Ack ''1-0''] \<and>
     (\<forall>osenv k x w''. worker_main (sql_ops example_server mem_ops) demo_pydantic osenv example_config k w' = (x, w'') \<longrightarrow>
       (\<exists>p pg s'. handle_request example_reader_app (safe_request (Some ''Bearer s3cret'') p 20)
            \<lparr>served_world = world_init (env w''), sessions = []\<rparr> = (Inr (SafeEvents (Reply pg)), s') \<and>
          1 \<le> p \<and> p \<le> page_count pg \<and> (\<exists>item \<in> set (page_items pg). shows_event demo_event item)))"
    unfolding h by simp
  with l show ?thesis unfolding append_Nil by blast
qed

end
