(* ===== verification/Jwks_Client.thy ===== *)
theory Jwks_Client
  imports Jwt_Access Audit_Config Stateful
begin

text \<open>
  The module state of \<open>audit/jwt_verify.py\<close>: the settings read from the environment and
  the JWKS client that is built when the first RS256 token arrives.  \<open>PyJWKClient\<close> is
  a parameter; it keeps its key cache in its own state.
\<close>

section \<open>Settings\<close>

record jwt_settings =
  jwt_secret :: string
  jwt_issuer :: string
  jwt_audience :: string
  JWKS_URL :: string
  JWKS_TIMEOUT_SECONDS :: int
  JWKS_CACHE_TTL_SECONDS :: int

definition load_jwt_settings :: "environ \<Rightarrow> jwt_settings res" where
  "load_jwt_settings osenv =
     bind_res (py_int (getenv osenv ''JWKS_TIMEOUT_SECONDS'' ''5'')) (\<lambda>timeout.
     bind_res (py_int (getenv osenv ''JWKS_CACHE_TTL_SECONDS'' ''300'')) (\<lambda>ttl.
     Inr \<lparr>jwt_secret = getenv osenv ''JWT_SECRET'' ''change-me'',
          jwt_issuer = getenv osenv ''JWT_ISSUER'' ''omnibioai-auth'',
          jwt_audience = getenv osenv ''JWT_AUDIENCE'' ''omnibioai-platform'',
          JWKS_URL = getenv osenv ''JWKS_URL'' ''https://auth.omnibioai.org/.well-known/jwks.json'',
          JWKS_TIMEOUT_SECONDS = timeout, JWKS_CACHE_TTL_SECONDS = ttl\<rparr>))"

section \<open>The lazy client\<close>

text \<open>
  \<open>PyJWKClient(url, timeout, lifespan)\<close> and \<open>get_signing_key(kid).key\<close>; the module has the
  client, if it was built, and the number of times one was built.
\<close>

record 'c jwks_lib =
  PyJWKClient :: "string \<Rightarrow> int \<Rightarrow> int \<Rightarrow> 'c res"
  client_signing_key :: "'c \<Rightarrow> pyval \<Rightarrow> string res \<times> 'c"

record 'c jwks_state =
  jwks_client :: "'c option"
  clients_built :: nat

definition import_state :: "'c jwks_state" where
  "import_state = \<lparr>jwks_client = None, clients_built = 0\<rparr>"

definition get_jwks_client :: "'c jwks_lib \<Rightarrow> jwt_settings \<Rightarrow> ('c jwks_state, 'c) st" where
  "get_jwks_client L S m =
     (case jwks_client m of
        Some c \<Rightarrow> (Inr c, m)
      | None \<Rightarrow>
          (case PyJWKClient L (JWKS_URL S) (JWKS_TIMEOUT_SECONDS S) (JWKS_CACHE_TTL_SECONDS S) of
             Inl e \<Rightarrow> (Inl e, m)
           | Inr c \<Rightarrow> (Inr c, m\<lparr>jwks_client := Some c, clients_built := Suc (clients_built m)\<rparr>)))"

definition module_signing_key :: "'c jwks_lib \<Rightarrow> jwt_settings \<Rightarrow> pyval \<Rightarrow> ('c jwks_state, string) st" where
  "module_signing_key L S kid =
     io_bind (get_jwks_client L S) (\<lambda>c m.
     case client_signing_key L c kid of (r, c') \<Rightarrow> (r, m\<lparr>jwks_client := Some c'\<rparr>))"

text \<open>\<open>_decode\<close> and \<open>verify_token\<close> with the module state.\<close>

definition decode_stateful :: "'c jwks_lib \<Rightarrow> jwt_settings \<Rightarrow> jwt_env \<Rightarrow> string \<Rightarrow> ('c jwks_state, pydict) st" where
  "decode_stateful L S J token =
     (case get_unverified_header J token of
        Inl e \<Rightarrow> io_lift (if is_invalid_token_error e then raise TokenInvalid (''invalid token: '' @ message e) else Inl e)
      | Inr header \<Rightarrow>
          let alg = dict_get header ''alg''
          in if alg = PStr ''RS256''
             then
               (let kid = dict_get header ''kid''
                in if \<not> truthy kid then io_lift (raise TokenInvalid ''RS256 token missing kid header'')
                   else
                     io_bind (io_try (module_signing_key L S kid) (\<lambda>e.
                       io_lift (if kind e = PyJWKClientError
                         then raise TokenInvalid (''unable to resolve signing key: '' @ message e)
                         else raise TokenInvalid (''jwks fetch failed: '' @ message e)))) (\<lambda>signing_key.
                     io_lift (decode_with J token signing_key ''RS256'')))
             else if alg = PStr ''HS256'' then io_lift (decode_with J token (JWT_SECRET J) ''HS256'')
             else io_lift (raise TokenInvalid (''unsupported alg: '' @ py_repr alg)))"

definition settings_env :: "jwt_settings \<Rightarrow> jwt_env \<Rightarrow> jwt_env" where
  "settings_env S J = J\<lparr>JWT_SECRET := jwt_secret S, JWT_ISSUER := jwt_issuer S, JWT_AUDIENCE := jwt_audience S\<rparr>"

definition verify_stateful ::
    "'c jwks_lib \<Rightarrow> jwt_settings \<Rightarrow> jwt_env \<Rightarrow> string option \<Rightarrow> ('c jwks_state, pydict) st" where
  "verify_stateful L S J token =
     (case token of
        None \<Rightarrow> io_lift (raise TokenInvalid ''missing token'')
      | Some t \<Rightarrow>
          if t = [] then io_lift (raise TokenInvalid ''missing token'')
          else io_bind (decode_stateful L S (settings_env S J) t) (\<lambda>payload.
            let token_type = dict_get payload ''type''
            in if token_type \<noteq> PNone \<and> token_type \<noteq> PStr ''access''
               then io_lift (raise TokenInvalid (''wrong token type: '' @ py_repr token_type))
               else if \<not> truthy (dict_get payload ''sub'') then io_lift (raise TokenInvalid ''missing required claim: sub'')
               else
                 let jti = dict_get payload ''jti''
                 in if \<not> truthy jti then io_return payload
                    else case blacklist_exists J (''blacklist:jti:'' @ py_str jti) of
                      Inl e \<Rightarrow> io_lift (raise TokenInvalid ''revocation state unavailable'')
                    | Inr revoked \<Rightarrow> (if revoked then io_lift (raise TokenInvalid ''revoked'') else io_return payload)))"

section \<open>Which tokens use it\<close>

definition asks_jwks :: "jwt_env \<Rightarrow> string option \<Rightarrow> bool" where
  "asks_jwks J token \<longleftrightarrow>
     (\<exists>t header. token = Some t \<and> t \<noteq> [] \<and> get_unverified_header J t = Inr header \<and>
        dict_get header ''alg'' = PStr ''RS256'' \<and> truthy (dict_get header ''kid''))"

text \<open>The key set as one token sees it.\<close>

definition resolved :: "'c jwks_lib \<Rightarrow> jwt_settings \<Rightarrow> 'c jwks_state \<Rightarrow> pyval \<Rightarrow> string res" where
  "resolved L S m kid = fst (module_signing_key L S kid m)"

lemma decode_stateful_fst:
  "fst (decode_stateful L S J t m) = decode_token (J\<lparr>get_signing_key := resolved L S m\<rparr>) t"
proof -
  let ?J = "J\<lparr>get_signing_key := resolved L S m\<rparr>"
  have j: "JWT_ISSUER ?J = JWT_ISSUER J" "JWT_AUDIENCE ?J = JWT_AUDIENCE J" "jwt_decode ?J = jwt_decode J" by simp_all
  have d: "decode_with ?J a b c = decode_with J a b c" for a b c
    by (simp only: decode_with_def validate_platform_claims_def j)
  have h: "get_unverified_header ?J = get_unverified_header J" "JWT_SECRET ?J = JWT_SECRET J"
    "get_signing_key ?J = resolved L S m" by simp_all
  show ?thesis
    unfolding decode_stateful_def decode_token_def h d Let_def
    by (auto simp: resolved_def io_try_def io_bind_def split: sum.split prod.split)
qed

lemma decode_stateful_snd:
  assumes "\<not> asks_jwks J (Some t)" and "t \<noteq> []"
  shows "snd (decode_stateful L S J t m) = m"
proof (cases "get_unverified_header J t")
  case (Inr header)
  with assms have "\<not> (dict_get header ''alg'' = PStr ''RS256'' \<and> truthy (dict_get header ''kid''))"
    by (auto simp: asks_jwks_def)
  with Inr show ?thesis by (simp add: decode_stateful_def Let_def)
qed (simp add: decode_stateful_def)

lemma verify_stateful_eq:
  "verify_stateful L S J token m =
     (verify_token (settings_env S J\<lparr>get_signing_key := resolved L S m\<rparr>) token,
      case token of Some t \<Rightarrow> if t = [] then m else snd (decode_stateful L S (settings_env S J) t m) | None \<Rightarrow> m)"
proof (cases token)
  case (Some t)
  obtain r m' where d: "decode_stateful L S (settings_env S J) t m = (r, m')" by (rule prod.exhaust)
  then have "decode_token (settings_env S J\<lparr>get_signing_key := resolved L S m\<rparr>) t = r"
    using decode_stateful_fst [of L S "settings_env S J" t m] by simp
  moreover have "blacklist_exists (settings_env S J\<lparr>get_signing_key := resolved L S m\<rparr>) = blacklist_exists J"
    by (simp add: settings_env_def)
  ultimately show ?thesis
    using d Some by (cases r) (auto simp: verify_stateful_def verify_token_def Let_def io_bind_def split: sum.split)
qed (simp add: verify_stateful_def verify_token_def)

section \<open>One client for the whole process\<close>

text \<open>Built at most once, and then kept.\<close>

definition built_once :: "'c jwks_state \<Rightarrow> bool" where
  "built_once m \<longleftrightarrow> clients_built m = (if jwks_client m = None then 0 else 1)"

definition client_kept :: "'c jwks_state \<Rightarrow> 'c jwks_state \<Rightarrow> bool" where
  "client_kept m m' \<longleftrightarrow> (built_once m \<longrightarrow> built_once m') \<and> (jwks_client m \<noteq> None \<longrightarrow> jwks_client m' \<noteq> None)"

interpretation ck: step_relation client_kept
  by unfold_locales (auto simp: client_kept_def)

lemma keeps_module_signing_key: "keeps client_kept (module_signing_key L S kid)"
  by (auto simp: keeps_def module_signing_key_def get_jwks_client_def io_bind_def client_kept_def built_once_def
      split: option.split sum.split prod.split)

lemma keeps_verify_stateful: "keeps client_kept (verify_stateful L S J token)"
proof -
  have "keeps client_kept (decode_stateful L S J t)" for J t
    unfolding decode_stateful_def Let_def
    by (auto intro!: ck.keeps_rules keeps_module_signing_key split: sum.split)
  then show ?thesis
    unfolding keeps_def verify_stateful_eq by (auto simp: ck.R_refl split: option.split)
qed

text \<open>Tokens verified one after the other; an invalid one does not stop the next.\<close>

definition verify_all :: "'c jwks_lib \<Rightarrow> jwt_settings \<Rightarrow> jwt_env \<Rightarrow> string option list \<Rightarrow> ('c jwks_state, unit) st" where
  "verify_all L S J tokens = io_each (\<lambda>t. io_try (io_bind (verify_stateful L S J t) (\<lambda>_. io_return ())) (\<lambda>_. io_return ())) tokens"

lemma verify_all_built: "snd (verify_all L S J tokens import_state) = m \<Longrightarrow> clients_built m \<le> 1"
proof -
  assume m: "snd (verify_all L S J tokens import_state) = m"
  have "keeps client_kept (verify_all L S J tokens)"
    unfolding verify_all_def by (intro ck.keeps_rules keeps_verify_stateful)
  then have "client_kept import_state m" using m by (auto simp: keeps_def)
  then show ?thesis by (auto simp: client_kept_def built_once_def import_state_def split: if_splits)
qed

lemma verify_all_idle:
  assumes "\<And>t. t \<in> set tokens \<Longrightarrow> \<not> asks_jwks J t"
  shows "verify_all L S J tokens m = (Inr (), m)"
  using assms
proof (induction tokens)
  case (Cons t tokens)
  have "\<not> asks_jwks (settings_env S J) t" using Cons.prems [of t] by (auto simp: asks_jwks_def settings_env_def)
  then have "snd (verify_stateful L S J t m) = m"
    using decode_stateful_snd by (auto simp: verify_stateful_eq split: option.split)
  then have "io_try (io_bind (verify_stateful L S J t) (\<lambda>_. io_return ())) (\<lambda>_. io_return ()) m = (Inr (), m)"
    by (auto simp: io_try_def io_bind_def split: sum.split prod.split)
  with Cons show ?case by (simp add: verify_all_def io_bind_def)
qed (simp add: verify_all_def)

lemma verify_all_returns: "\<exists>m'. verify_all L S J tokens m = (Inr (), m')"
proof (induction tokens arbitrary: m)
  case (Cons t tokens)
  have "\<exists>m1. io_try (io_bind (verify_stateful L S J t) (\<lambda>_. io_return ())) (\<lambda>_. io_return ()) m = (Inr (), m1)"
    by (auto simp: io_try_def io_bind_def split: sum.split prod.split)
  with Cons show ?case by (auto simp: verify_all_def io_bind_def)
qed (simp add: verify_all_def)

text \<open>
  The key client is lazy and unique.  Importing the module builds no client;
  however many tokens are verified after that, at most one client is built in the
  process, none as long as no RS256 token with a key ID arrives, and every token is
  judged as \<open>verify_token\<close> judges it with the keys the client has at that moment.
\<close>

theorem jwks_client_lazy_unique:
  assumes "verify_all L S J tokens import_state = (r, m)"
  shows "r = Inr () \<and> clients_built m \<le> 1 \<and>
    ((\<forall>t \<in> set tokens. \<not> asks_jwks J t) \<longrightarrow> clients_built m = 0) \<and>
    (\<forall>token. fst (verify_stateful L S J token m) =
       verify_token (settings_env S J\<lparr>get_signing_key := resolved L S m\<rparr>) token)"
proof -
  have "r = Inr ()" using verify_all_returns [of L S J tokens import_state] assms by auto
  moreover have "clients_built m = 0" if "\<forall>t \<in> set tokens. \<not> asks_jwks J t"
    using verify_all_idle [of tokens J L S import_state] that assms by (auto simp: import_state_def)
  ultimately show ?thesis using verify_all_built [of L S J tokens m] assms by (simp add: verify_stateful_eq)
qed

theorem jwks_client_lazy_unique_witness:
  "\<exists>S r m. load_jwt_settings Map.empty = Inr S \<and>
     verify_all \<lparr>PyJWKClient = (\<lambda>u t l. Inr ()), client_signing_key = (\<lambda>c k. (raise PyJWKClientError ''no key'', c))\<rparr>
       S (example_jwt []) [Some ''a'', None, Some ''s3cret''] import_state = (r, m) \<and> clients_built m = 0"
proof -
  let ?L = "\<lparr>PyJWKClient = (\<lambda>u t l. Inr ()), client_signing_key = (\<lambda>c k. (raise PyJWKClientError ''no key'', c))\<rparr>"
  have "py_int ''5'' = Inr 5" "py_int ''300'' = Inr 300" by code_simp+
  then obtain S where S: "load_jwt_settings Map.empty = Inr S" by (simp add: load_jwt_settings_def getenv_def)
  obtain r m where v: "verify_all ?L S (example_jwt []) [Some ''a'', None, Some ''s3cret''] import_state = (r, m)"
    by (rule prod.exhaust)
  have "\<not> asks_jwks (example_jwt []) t" for t by (auto simp: asks_jwks_def example_jwt_def dict_get_def)
  with jwks_client_lazy_unique [OF v] S v show ?thesis by blast
qed

end
