(* ===== verification/Migration_Env.thy ===== *)
theory Migration_Env
  imports Migrations
begin

text \<open>
  \<open>alembic/env.py\<close>: which database the migrations run on, and the brackets around the
  run.  Alembic's own part, the selection of the migrations and their execution, is the
  argument \<open>run_migrations\<close>; the connection and the transaction are recorded as
  events.
\<close>

datatype env_event = LoggingConfigured string | Connected string | Configured string | Begun | Committed | RolledBack | Disconnected

record 's env_state =
  env_database :: 's
  main_url :: string
  env_events :: "env_event list"

text \<open>\<open>connect\<close> and \<open>fileConfig\<close> may raise.\<close>

record 's env_ops =
  env_connect :: "string \<Rightarrow> 's \<Rightarrow> unit res \<times> 's"
  env_file_config :: "string \<Rightarrow> unit res"
  run_migrations :: "('s, unit) st"

definition env_log :: "env_event \<Rightarrow> ('s env_state, unit) st" where
  "env_log x m = (Inr (), m\<lparr>env_events := env_events m @ [x]\<rparr>)"

definition in_database :: "('s, 'a) st \<Rightarrow> ('s env_state, 'a) st" where
  "in_database k m = (case k (env_database m) of (r, s) \<Rightarrow> (r, m\<lparr>env_database := s\<rparr>))"

definition get_main_url :: "('s env_state, string) st" where
  "get_main_url m = (Inr (main_url m), m)"

definition set_main_url :: "string \<Rightarrow> ('s env_state, unit) st" where
  "set_main_url u m = (Inr (), m\<lparr>main_url := u\<rparr>)"

text \<open>\<open>with context.begin_transaction(): context.run_migrations()\<close>.\<close>

definition run_in_transaction :: "'s env_ops \<Rightarrow> ('s env_state, unit) st" where
  "run_in_transaction E =
     io_bind (env_log Begun) (\<lambda>_.
     io_bind (io_try (in_database (run_migrations E)) (\<lambda>e. io_bind (env_log RolledBack) (\<lambda>_. io_lift (Inl e)))) (\<lambda>_.
     env_log Committed))"

definition choose_url :: "config \<Rightarrow> ('s env_state, unit) st" where
  "choose_url cfg = io_bind get_main_url (\<lambda>url. if url = [] then set_main_url (DATABASE_URL cfg) else io_return ())"

definition run_migrations_offline :: "'s env_ops \<Rightarrow> ('s env_state, unit) st" where
  "run_migrations_offline E =
     io_bind get_main_url (\<lambda>url. io_bind (env_log (Configured url)) (\<lambda>_. run_in_transaction E))"

definition run_migrations_online :: "'s env_ops \<Rightarrow> ('s env_state, unit) st" where
  "run_migrations_online E =
     io_bind get_main_url (\<lambda>url.
     io_bind (in_database (env_connect E url)) (\<lambda>_.
     io_bind (env_log (Connected url)) (\<lambda>_.
     io_finally (io_bind (env_log (Configured url)) (\<lambda>_. run_in_transaction E)) (env_log Disconnected))))"

definition run_env :: "'s env_ops \<Rightarrow> config \<Rightarrow> string option \<Rightarrow> bool \<Rightarrow> ('s env_state, unit) st" where
  "run_env E cfg config_file_name is_offline_mode =
     io_bind (choose_url cfg) (\<lambda>_.
     io_bind (case config_file_name of
         None \<Rightarrow> io_return ()
       | Some f \<Rightarrow> io_bind (io_lift (env_file_config E f)) (\<lambda>_. env_log (LoggingConfigured f))) (\<lambda>_.
     if is_offline_mode then run_migrations_offline E else run_migrations_online E))"

lemma env_steps [simp]:
  "env_log x m = (Inr (), m\<lparr>env_events := env_events m @ [x]\<rparr>)" "get_main_url m = (Inr (main_url m), m)"
  "set_main_url u m = (Inr (), m\<lparr>main_url := u\<rparr>)"
  by (simp_all add: env_log_def get_main_url_def set_main_url_def)

lemma run_in_transaction_eq:
  "run_in_transaction E m = (case run_migrations E (env_database m) of
     (Inr _, s) \<Rightarrow> (Inr (), m\<lparr>env_database := s, env_events := env_events m @ [Begun, Committed]\<rparr>)
   | (Inl e, s) \<Rightarrow> (Inl e, m\<lparr>env_database := s, env_events := env_events m @ [Begun, RolledBack]\<rparr>))"
  by (auto simp: run_in_transaction_def io_bind_def io_try_def in_database_def split: prod.splits sum.splits)

lemma run_online_eq:
  "run_migrations_online E m = (case env_connect E (main_url m) (env_database m) of
     (Inl e, s) \<Rightarrow> (Inl e, m\<lparr>env_database := s\<rparr>)
   | (Inr _, s) \<Rightarrow> (case run_migrations E s of (r, s') \<Rightarrow>
       (map_sum id (\<lambda>_. ()) r, m\<lparr>env_database := s', env_events := env_events m @
          [Connected (main_url m), Configured (main_url m), Begun, (if is_ok r then Committed else RolledBack), Disconnected]\<rparr>)))"
  by (auto simp: run_migrations_online_def io_bind_def io_finally_def in_database_def run_in_transaction_eq is_ok_iff
      split: prod.splits sum.splits)

text \<open>
  Where and how migrations run.  Online, with a logging configuration that
  loads, the run connects to the address the caller set, and to the worker's
  \<open>DATABASE_URL\<close> if none was set; the migrations run in one transaction on that
  connection, committed exactly if they returned, and the connection is closed
  in any case.
\<close>

theorem migrations_run_on_configured_database:
  assumes "run_env E cfg f False m = (r, m')" and "\<And>name. f = Some name \<Longrightarrow> env_file_config E name = Inr ()"
    and "url = (if main_url m = [] then DATABASE_URL cfg else main_url m)"
    and "env_connect E url (env_database m) = (Inr (), s)" and "run_migrations E s = (x, s')"
  shows "r = x \<and> env_database m' = s' \<and> main_url m' = url \<and>
    env_events m' = env_events m @ (case f of None \<Rightarrow> [] | Some name \<Rightarrow> [LoggingConfigured name]) @
      [Connected url, Configured url, Begun, (if x = Inr () then Committed else RolledBack), Disconnected]"
proof -
  let ?m = "m\<lparr>main_url := url, env_events := env_events m @ (case f of None \<Rightarrow> [] | Some name \<Rightarrow> [LoggingConfigured name])\<rparr>"
  have "choose_url cfg m = (Inr (), m\<lparr>main_url := url\<rparr>)" using assms(3) by (simp add: choose_url_def io_bind_def)
  then have "run_migrations_online E ?m = (r, m')" using assms(1,2) by (cases f) (simp_all add: run_env_def io_bind_def)
  moreover have "map_sum id (\<lambda>_. ()) x = x" by (cases x) simp_all
  ultimately show ?thesis using assms(4,5) by (cases x) (auto simp: run_online_eq is_ok_iff)
qed

theorem migrations_run_on_configured_database_witness:
  "\<exists>m'. run_env \<lparr>env_connect = (\<lambda>u d. (Inr (), d)), env_file_config = (\<lambda>f. Inr ()), run_migrations = upgrade_head database_ops\<rparr>
       example_config (Some ''alembic.ini'') False \<lparr>env_database = empty_database ''sqlite'', main_url = [], env_events = []\<rparr> = (Inr (), m') \<and>
     Connected (DATABASE_URL example_config) \<in> set (env_events m') \<and> Disconnected \<in> set (env_events m') \<and>
     env_database m' = snd (upgrade_head database_ops (empty_database ''sqlite''))"
proof -
  let ?E = "\<lparr>env_connect = (\<lambda>u d. (Inr (), d)), env_file_config = (\<lambda>f. Inr ()), run_migrations = upgrade_head database_ops\<rparr>
    :: database env_ops"
  let ?m = "\<lparr>env_database = empty_database ''sqlite'', main_url = [], env_events = []\<rparr>"
  obtain r m' where r: "run_env ?E example_config (Some ''alembic.ini'') False ?m = (r, m')" by (rule prod.exhaust)
  have u: "run_migrations ?E (empty_database ''sqlite'') = (Inr (), snd (upgrade_head database_ops (empty_database ''sqlite'')))"
    using upgraded_returns [of "''sqlite''"] by (metis env_ops.select_convs(3) prod.collapse)
  have f: "env_file_config ?E name = Inr ()" for name by simp
  have c: "env_connect ?E (if main_url ?m = [] then DATABASE_URL example_config else main_url ?m) (env_database ?m) =
      (Inr (), empty_database ''sqlite'')" by simp
  from migrations_run_on_configured_database [OF r f HOL.refl c u] r show ?thesis by simp
qed

end
