(* ===== verification/Redis_Safety.thy ===== *)
theory Redis_Safety
  imports Stateful Py_Value
begin

text \<open>
  \<open>scripts/redis_acl_safety.py\<close>: which commands may reach a Redis server, on
  which connections.  The network is a parameter: opening a connection, sending
  a command on it and closing it change a state of an arbitrary type and may
  raise.  Every one of these actions is recorded in a trace.  Command words are
  texts (an argument given as bytes is its decoded text).
\<close>

section \<open>The network\<close>

type_synonym client = nat
type_synonym command = "string list"

record 'n redis_net =
  net_connect :: "string \<Rightarrow> int \<Rightarrow> 'n \<Rightarrow> client res \<times> 'n"
  net_execute :: "client \<Rightarrow> command \<Rightarrow> 'n \<Rightarrow> pyval res \<times> 'n"
  net_close :: "client \<Rightarrow> 'n \<Rightarrow> unit res \<times> 'n"

datatype wire_event = Connected client | Sent client command | Closed client

record 'n wire =
  net :: 'n
  trace :: "wire_event list"

type_synonym ('n, 'a) wio = "('n wire, 'a) st"

definition connect :: "'n redis_net \<Rightarrow> string \<Rightarrow> int \<Rightarrow> ('n, client) wio" where
  "connect N host port w =
     (case net_connect N host port (net w) of
        (Inl e, n) \<Rightarrow> (Inl e, w\<lparr>net := n\<rparr>)
      | (Inr c, n) \<Rightarrow> (Inr c, w\<lparr>net := n, trace := trace w @ [Connected c]\<rparr>))"

definition execute_command :: "'n redis_net \<Rightarrow> client \<Rightarrow> command \<Rightarrow> ('n, pyval) wio" where
  "execute_command N c args w =
     (case net_execute N c args (net w) of
        (r, n) \<Rightarrow> (r, w\<lparr>net := n, trace := trace w @ [Sent c args]\<rparr>))"

definition close_client :: "'n redis_net \<Rightarrow> client \<Rightarrow> ('n, unit) wio" where
  "close_client N c w =
     (case net_close N c (net w) of
        (r, n) \<Rightarrow> (r, w\<lparr>net := n, trace := trace w @ [Closed c]\<rparr>))"

section \<open>Environments\<close>

definition PRODUCTION_PORT :: int where
  "PRODUCTION_PORT = 6380"

datatype redis_environment = DISPOSABLE | PRODUCTION | UNKNOWN

record disposable_attestation =
  attested_host :: string
  attested_port :: int
  nonce_key :: string
  nonce_value :: string

text \<open>\<open>__post_init__\<close>: an attestation that exists has passed these checks.\<close>

definition attestation_init :: "disposable_attestation \<Rightarrow> disposable_attestation res" where
  "attestation_init a =
     (if attested_port a = PRODUCTION_PORT
      then raise EnvironmentClassificationError
        (''port '' @ show_int (attested_port a) @
         '' is this architecture's shared, production-adjacent Redis port -- refusing to attest any endpoint on it as disposable, regardless of other evidence'')
      else if attested_host a = []
      then raise EnvironmentClassificationError ''attestation requires a non-empty host''
      else if nonce_key a = [] \<or> nonce_value a = []
      then raise EnvironmentClassificationError
        ''attestation requires a non-empty nonce_key/nonce_value pair -- an empty nonce proves nothing''
      else Inr a)"

text \<open>The probe: read the nonce; whatever happens, the connection is closed and what \<open>close\<close> raises is dropped.\<close>

definition probe_nonce :: "'n redis_net \<Rightarrow> string \<Rightarrow> int \<Rightarrow> string \<Rightarrow> ('n, pyval) wio" where
  "probe_nonce N host port key =
     io_bind (connect N host port) (\<lambda>probe w.
       let (got, w1) = execute_command N probe [''GET'', key] w;
           (_, w2) = close_client N probe w1
       in (got, w2))"

definition classify_environment ::
    "'n redis_net \<Rightarrow> string \<Rightarrow> int \<Rightarrow> disposable_attestation option \<Rightarrow> ('n, redis_environment) wio" where
  "classify_environment N host port attestation =
     (if port = PRODUCTION_PORT then io_return PRODUCTION
      else case attestation of
        None \<Rightarrow> io_return UNKNOWN
      | Some a \<Rightarrow>
          if attested_host a \<noteq> host \<or> attested_port a \<noteq> port
          then io_lift (raise EnvironmentClassificationError
            ''attestation host/port do not match the target host/port -- refusing to trust an attestation for a different endpoint than the one being classified'')
          else
            io_bind (io_try (probe_nonce N host port (nonce_key a))
                (\<lambda>e. if is_redis_error e
                     then io_lift (raise EnvironmentClassificationError
                       (''could not independently verify disposable attestation: probe connection/command failed ('' @
                        type_name (kind e) @ '')''))
                     else io_lift (Inl e))) (\<lambda>got.
            if got \<noteq> PStr (nonce_value a)
            then io_lift (raise EnvironmentClassificationError
              ''disposable attestation nonce did not match the value actually stored on the live instance -- refusing to classify as DISPOSABLE'')
            else io_return DISPOSABLE))"

section \<open>Commands\<close>

definition DANGEROUS_COMMANDS :: "command list" where
  "DANGEROUS_COMMANDS =
     [[''FLUSHALL''], [''FLUSHDB''], [''SHUTDOWN''], [''DEBUG''], [''CONFIG'', ''SET''],
      [''ACL'', ''SETUSER''], [''ACL'', ''DELUSER''], [''ACL'', ''LOAD''], [''ACL'', ''SAVE''], [''ACL'', ''LOG''],
      [''MODULE'', ''LOAD''], [''MODULE'', ''UNLOAD''], [''MIGRATE''], [''RESTORE''], [''RESTORE-ASKING''],
      [''SWAPDB''], [''REPLICAOF''], [''SLAVEOF'']]"

definition PRODUCTION_ALLOWED_COMMANDS :: "command list" where
  "PRODUCTION_ALLOWED_COMMANDS = [[''PING''], [''ACL'', ''WHOAMI''], [''INFO'']]"

definition KNOWN_SUBCOMMAND_PREFIXES :: "string list" where
  "KNOWN_SUBCOMMAND_PREFIXES =
     [''ACL'', ''CONFIG'', ''CLIENT'', ''XGROUP'', ''XINFO'', ''SCRIPT'', ''FUNCTION'', ''MODULE'', ''COMMAND'',
      ''CLUSTER'', ''LATENCY'', ''SLOWLOG'', ''MEMORY'', ''OBJECT'', ''PUBSUB'']"

definition normalize_command :: "command \<Rightarrow> command res" where
  "normalize_command args =
     (case map (\<lambda>a. upper (strip a)) args of
        [] \<Rightarrow> raise ProhibitedCommandError ''refusing to authorize an empty command''
      | p # ps \<Rightarrow>
          if p = [] then raise ProhibitedCommandError ''refusing to authorize an empty command''
          else if ps \<noteq> [] \<and> p \<in> set KNOWN_SUBCOMMAND_PREFIXES then Inr [p, hd ps]
          else Inr [p])"

definition safe_repr_command :: "command \<Rightarrow> string" where
  "safe_repr_command args =
     (case normalize_command args of
        Inr cmd \<Rightarrow> join '' '' cmd
      | Inl e \<Rightarrow> ''<empty>'')"

section \<open>Gates\<close>

type_synonym gate = "command \<Rightarrow> unit res"

definition production_authorize :: gate where
  "production_authorize args =
     bind_res (normalize_command args) (\<lambda>cmd.
     if cmd \<in> set DANGEROUS_COMMANDS
     then raise DangerousCommandError
       (''command '' @ repr_str (join '' '' cmd) @ '' is unconditionally prohibited in production validation'')
     else if cmd \<notin> set PRODUCTION_ALLOWED_COMMANDS
     then raise ProhibitedCommandError
       (''command '' @ repr_str (join '' '' cmd) @ '' is not on the production validation allowlist '' @
        py_repr (PList (map PStr (sort (map (join '' '') PRODUCTION_ALLOWED_COMMANDS)))))
     else Inr ())"

definition disposable_authorize :: gate where
  "disposable_authorize args =
     bind_res (normalize_command args) (\<lambda>cmd.
     if cmd \<in> set DANGEROUS_COMMANDS
     then raise DangerousCommandError
       (''command '' @ repr_str (join '' '' cmd) @
        '' is on the hard denylist; use DisposableNegativeTestGate if a test specifically needs to prove Redis's own ACL denies this command to a restricted identity'')
     else Inr ())"

definition negative_test_authorize :: gate where
  "negative_test_authorize args = bind_res (normalize_command args) (\<lambda>_. Inr ())"

definition disposable_validator ::
    "'n redis_net \<Rightarrow> string \<Rightarrow> int \<Rightarrow> disposable_attestation \<Rightarrow> ('n, gate) wio" where
  "disposable_validator N host port a =
     io_bind (classify_environment N host port (Some a)) (\<lambda>environment.
     if environment \<noteq> DISPOSABLE
     then io_lift (raise EnvironmentClassificationError
       ''DisposableValidator requires a live-verified DISPOSABLE environment; construction refused'')
     else io_return disposable_authorize)"

definition disposable_negative_test_gate ::
    "'n redis_net \<Rightarrow> string \<Rightarrow> int \<Rightarrow> disposable_attestation \<Rightarrow> ('n, gate) wio" where
  "disposable_negative_test_gate N host port a =
     io_bind (classify_environment N host port (Some a)) (\<lambda>environment.
     if environment \<noteq> DISPOSABLE
     then io_lift (raise EnvironmentClassificationError
       ''DisposableNegativeTestGate requires a live-verified DISPOSABLE environment; construction refused'')
     else io_return negative_test_authorize)"

section \<open>Authenticated sessions\<close>

record session =
  session_environment :: redis_environment
  session_gate :: gate
  session_client :: client
  session_closed :: bool

definition session_run :: "'n redis_net \<Rightarrow> session \<Rightarrow> command \<Rightarrow> ('n, pyval) wio" where
  "session_run N ses args =
     (if session_closed ses then io_lift (raise RedisSafetyError ''cannot run a command on a closed session'')
      else io_bind (io_lift (session_gate ses args)) (\<lambda>_. execute_command N (session_client ses) args))"

definition session_close :: "'n redis_net \<Rightarrow> session \<Rightarrow> ('n, session) wio" where
  "session_close N ses =
     (if session_closed ses then io_return ses
      else io_bind (io_try (close_client N (session_client ses)) (\<lambda>e. io_return ())) (\<lambda>_.
        io_return (ses\<lparr>session_closed := True\<rparr>)))"

text \<open>What the handlers around the first command make of an exception.\<close>

definition auth_error :: "string \<Rightarrow> exn \<Rightarrow> exn" where
  "auth_error expected e =
     (if kind e = RedisAuthenticationError
      then Exn AuthenticationFailedError (''AUTH failed for expected identity '' @ repr_str expected)
      else if is_redis_error e
      then Exn AuthenticationFailedError
        (''AUTH did not succeed for expected identity '' @ repr_str expected @ '': '' @ type_name (kind e))
      else e)"

text \<open>What the outer handlers make of one.\<close>

definition safety_error :: "string \<Rightarrow> exn \<Rightarrow> exn" where
  "safety_error expected e =
     (if is_redis_safety_error e then e
      else Exn AuthenticationFailedError
        (''unexpected error establishing identity for '' @ repr_str expected @ '': '' @ type_name (kind e)))"

definition establish_identity ::
    "'n redis_net \<Rightarrow> client \<Rightarrow> string \<Rightarrow> string \<Rightarrow> string \<Rightarrow> gate \<Rightarrow> ('n, unit) wio" where
  "establish_identity N c username password expected authorize =
     io_bind (io_try (execute_command N c [''AUTH'', username, password])
        (\<lambda>e. io_lift (Inl (auth_error expected e)))) (\<lambda>answer.
     if answer \<noteq> PBool True \<and> answer \<noteq> PStr ''OK''
     then io_lift (raise AuthenticationFailedError
       (''AUTH returned an unexpected result for expected identity '' @ repr_str expected))
     else
       io_bind (io_lift (authorize [''ACL'', ''WHOAMI''])) (\<lambda>_.
       io_bind (io_try (execute_command N c [''ACL'', ''WHOAMI''])
          (\<lambda>e. io_lift (if is_redis_error e
             then raise IdentityMismatchError
               (''could not confirm identity for expected '' @ repr_str expected @ '': '' @ type_name (kind e))
             else Inl e))) (\<lambda>actual.
       if actual \<noteq> PStr expected
       then io_lift (raise IdentityMismatchError
         (''expected identity '' @ repr_str expected @ '', ACL WHOAMI reported '' @ py_repr actual))
       else io_return ())))"

definition authenticate ::
    "'n redis_net \<Rightarrow> string \<Rightarrow> int \<Rightarrow> string \<Rightarrow> string \<Rightarrow> string \<Rightarrow> gate \<Rightarrow> redis_environment \<Rightarrow> ('n, session) wio" where
  "authenticate N host port username password expected authorize environment =
     io_bind (io_try (connect N host port)
        (\<lambda>e. io_lift (Inl (safety_error expected (auth_error expected e))))) (\<lambda>c.
     io_bind (io_try (establish_identity N c username password expected authorize)
        (\<lambda>e. io_bind (close_client N c) (\<lambda>_. io_lift (Inl (safety_error expected e))))) (\<lambda>_.
     io_return \<lparr>session_environment = environment, session_gate = authorize,
                session_client = c, session_closed = False\<rparr>))"

definition authenticate_production ::
    "'n redis_net \<Rightarrow> string \<Rightarrow> int \<Rightarrow> string \<Rightarrow> string \<Rightarrow> string \<Rightarrow> ('n, session) wio" where
  "authenticate_production N host port username password expected =
     (if port \<noteq> PRODUCTION_PORT
      then io_lift (raise EnvironmentClassificationError
        (''authenticate_production requires port '' @ show_int PRODUCTION_PORT @ ''; got '' @ show_int port @
         ''. Use authenticate() directly with an explicit gate for any other target.''))
      else authenticate N host port username password expected production_authorize PRODUCTION)"

section \<open>Gates as an interface\<close>

text \<open>
  What every gate promises: the decision depends on the normalized name only, an
  empty command never passes, and a refusal is a \<open>ProhibitedCommandError\<close>.
\<close>

locale command_gate =
  fixes authorize :: gate
  assumes by_name: "normalize_command args = normalize_command args' \<Longrightarrow> authorize args = authorize args'"
    and no_name: "normalize_command args = Inl e \<Longrightarrow> authorize args = Inl e"
    and refusal: "authorize args = Inl e \<Longrightarrow> kind e \<in> {ProhibitedCommandError, DangerousCommandError}"

text \<open>The gates that also keep the dangerous commands off the wire.\<close>

locale safe_gate = command_gate +
  assumes not_dangerous: "normalize_command args = Inr cmd \<Longrightarrow> authorize args = Inr () \<Longrightarrow> cmd \<notin> set DANGEROUS_COMMANDS"

lemma normalize_refusal: "normalize_command args = Inl e \<Longrightarrow> kind e = ProhibitedCommandError"
  by (auto simp: normalize_command_def split: list.splits if_splits)

interpretation production: safe_gate production_authorize
  by unfold_locales
    (auto simp: production_authorize_def bind_res_Inl split: if_splits dest: normalize_refusal)

interpretation disposable: safe_gate disposable_authorize
  by unfold_locales
    (auto simp: disposable_authorize_def bind_res_Inl split: if_splits dest: normalize_refusal)

interpretation negative_test: command_gate negative_test_authorize
  by unfold_locales
    (auto simp: negative_test_authorize_def bind_res_Inl dest: normalize_refusal)

section \<open>Sessions under a gate\<close>

lemma execute_command_eq:
  "execute_command N c args w = (r, w') \<longleftrightarrow>
     (\<exists>n. net_execute N c args (net w) = (r, n) \<and> w' = w\<lparr>net := n, trace := trace w @ [Sent c args]\<rparr>)"
  by (auto simp: execute_command_def split: prod.splits)

lemma close_client_eq:
  "close_client N c w = (r, w') \<longleftrightarrow>
     (\<exists>n. net_close N c (net w) = (r, n) \<and> w' = w\<lparr>net := n, trace := trace w @ [Closed c]\<rparr>)"
  by (auto simp: close_client_def split: prod.splits)

text \<open>What a holder of a session may do with it; exceptions do not stop the holder.\<close>

datatype session_op = Run command | Close

fun session_script :: "'n redis_net \<Rightarrow> session_op list \<Rightarrow> session \<Rightarrow> 'n wire \<Rightarrow> session \<times> 'n wire" where
  "session_script N [] ses w = (ses, w)"
| "session_script N (Run args # ops) ses w = session_script N ops ses (snd (session_run N ses args w))"
| "session_script N (Close # ops) ses w =
     (case session_close N ses w of
        (Inr ses', w') \<Rightarrow> session_script N ops ses' w'
      | (Inl e, w') \<Rightarrow> session_script N ops ses w')"

lemma session_close_open:
  "\<not> session_closed ses \<Longrightarrow>
     \<exists>n. session_close N ses w = (Inr (ses\<lparr>session_closed := True\<rparr>),
       w\<lparr>net := n, trace := trace w @ [Closed (session_client ses)]\<rparr>)"
  by (auto simp: session_close_def io_bind_def io_try_def close_client_def split: prod.splits sum.splits)

lemma closed_script: "session_closed ses \<Longrightarrow> session_script N ops ses w = (ses, w)"
proof (induction ops arbitrary: w)
  case (Cons op ops)
  then show ?case by (cases op) (simp_all add: session_run_def session_close_def)
qed simp

text \<open>A run of authorized commands on one connection, possibly closed at the end.\<close>

definition gated_run :: "gate \<Rightarrow> client \<Rightarrow> wire_event list \<Rightarrow> bool" where
  "gated_run authorize c tr \<longleftrightarrow>
     (\<exists>cmds closing. tr = map (Sent c) cmds @ closing \<and> (\<forall>args \<in> set cmds. authorize args = Inr ()) \<and>
        (closing = [] \<or> closing = [Closed c]))"

lemma gated_run_Cons: "authorize args = Inr () \<Longrightarrow> gated_run authorize c tr \<Longrightarrow> gated_run authorize c (Sent c args # tr)"
proof -
  assume a: "authorize args = Inr ()" and "gated_run authorize c tr"
  then obtain cmds closing where "tr = map (Sent c) cmds @ closing" "\<forall>args \<in> set cmds. authorize args = Inr ()"
    "closing = [] \<or> closing = [Closed c]" by (auto simp: gated_run_def)
  with a show ?thesis unfolding gated_run_def by (intro exI [of _ "args # cmds"] exI [of _ closing]) simp
qed

lemma session_script_gated:
  "\<not> session_closed ses \<Longrightarrow> session_script N ops ses w = (ses', w') \<Longrightarrow>
     \<exists>tr. trace w' = trace w @ tr \<and> gated_run (session_gate ses) (session_client ses) tr"
proof (induction ops arbitrary: w)
  case Nil
  then show ?case by (auto simp: gated_run_def intro: exI [of _ "[]"])
next
  case (Cons op ops)
  show ?case
  proof (cases op)
    case (Run args)
    show ?thesis
    proof (cases "session_gate ses args")
      case (Inl e)
      then show ?thesis using Cons Run by (simp add: session_run_def)
    next
      case (Inr u)
      then have "trace (snd (session_run N ses args w)) = trace w @ [Sent (session_client ses) args]"
        using Cons.prems(1) by (simp add: session_run_def execute_command_def split: prod.split)
      moreover have "session_script N ops ses (snd (session_run N ses args w)) = (ses', w')"
        using Cons.prems(2) Run by simp
      then obtain tr where "trace w' = trace (snd (session_run N ses args w)) @ tr"
        "gated_run (session_gate ses) (session_client ses) tr"
        using Cons.IH [OF Cons.prems(1)] by blast
      ultimately show ?thesis using gated_run_Cons [of "session_gate ses" args] Inr by simp
    qed
  next
    case Close
    obtain n where "session_close N ses w = (Inr (ses\<lparr>session_closed := True\<rparr>),
        w\<lparr>net := n, trace := trace w @ [Closed (session_client ses)]\<rparr>)"
      using session_close_open [OF Cons.prems(1), of N w] by blast
    then have "trace w' = trace w @ [Closed (session_client ses)]"
      using Cons.prems(2) Close by (auto simp: closed_script)
    then show ?thesis by (auto simp: gated_run_def intro: exI [of _ "[]"])
  qed
qed

context command_gate
begin

lemma authorized_named: "authorize args = Inr u \<Longrightarrow> \<exists>cmd. normalize_command args = Inr cmd"
  using no_name [of args] by (cases "normalize_command args") auto

end

context safe_gate
begin

lemma gated_not_dangerous:
  "gated_run authorize c tr \<Longrightarrow> Sent c' args \<in> set tr \<Longrightarrow>
     \<exists>cmd. normalize_command args = Inr cmd \<and> cmd \<notin> set DANGEROUS_COMMANDS"
proof -
  assume "gated_run authorize c tr" and "Sent c' args \<in> set tr"
  then have "authorize args = Inr ()" by (auto simp: gated_run_def)
  then show ?thesis using authorized_named [of args] not_dangerous [of args] by blast
qed

end

section \<open>Establishing an identity\<close>

lemma establish_identity_Inl:
  assumes "establish_identity N c u p x g w = (Inl e, w')"
  shows "trace w' = trace w @ [Sent c [''AUTH'', u, p]] \<or>
     trace w' = trace w @ [Sent c [''AUTH'', u, p], Sent c [''ACL'', ''WHOAMI'']]"
proof -
  obtain r1 n1 where a: "net_execute N c [''AUTH'', u, p] (net w) = (r1, n1)" by fastforce
  obtain r2 n2 where b: "net_execute N c [''ACL'', ''WHOAMI''] n1 = (r2, n2)" by fastforce
  show ?thesis
    using assms
    by (cases r1; cases r2; cases "g [''ACL'', ''WHOAMI'']")
      (auto simp: establish_identity_def io_bind_def io_try_def execute_command_def a b split: if_splits)
qed

lemma establish_identity_Inr:
  "establish_identity N c u p x g w = (Inr y, w') \<Longrightarrow>
     trace w' = trace w @ [Sent c [''AUTH'', u, p], Sent c [''ACL'', ''WHOAMI'']] \<and> g [''ACL'', ''WHOAMI''] = Inr () \<and>
     (\<exists>answer n. net_execute N c [''AUTH'', u, p] (net w) = (Inr answer, n) \<and> answer \<in> {PBool True, PStr ''OK''} \<and>
        net_execute N c [''ACL'', ''WHOAMI''] n = (Inr (PStr x), net w'))"
  by (auto simp: establish_identity_def io_bind_Inr io_try_eq execute_command_eq split: if_splits)

lemma safety_error_kind: "is_redis_safety_error (safety_error x e)"
  by (cases e) (auto simp: safety_error_def)

lemma authenticate_Inr:
  assumes "authenticate N h port u p x g env w = (Inr ses, w')"
  shows "\<exists>c n0. net_connect N h port (net w) = (Inr c, n0) \<and>
    trace w' = trace w @ [Connected c, Sent c [''AUTH'', u, p], Sent c [''ACL'', ''WHOAMI'']] \<and>
    ses = \<lparr>session_environment = env, session_gate = g, session_client = c, session_closed = False\<rparr> \<and>
    g [''ACL'', ''WHOAMI''] = Inr () \<and>
    (\<exists>answer n. net_execute N c [''AUTH'', u, p] n0 = (Inr answer, n) \<and> answer \<in> {PBool True, PStr ''OK''} \<and>
       net_execute N c [''ACL'', ''WHOAMI''] n = (Inr (PStr x), net w'))"
proof -
  obtain r n0 where c: "net_connect N h port (net w) = (r, n0)" by fastforce
  show ?thesis
  proof (cases r)
    case (Inl e)
    then show ?thesis using assms c by (simp add: authenticate_def connect_def io_bind_def io_try_def)
  next
    case (Inr c')
    let ?w = "w\<lparr>net := n0, trace := trace w @ [Connected c']\<rparr>"
    obtain r' w1 where e: "establish_identity N c' u p x g ?w = (r', w1)" by fastforce
    obtain y where r': "r' = Inr y"
      using assms c Inr e
      by (cases r') (auto simp: authenticate_def connect_def io_bind_def io_try_def split: prod.splits sum.splits)
    then have "w' = w1" "ses = \<lparr>session_environment = env, session_gate = g, session_client = c', session_closed = False\<rparr>"
      using assms c Inr e by (simp_all add: authenticate_def connect_def io_bind_def io_try_def)
    with establish_identity_Inr [OF e [unfolded r']] c Inr show ?thesis by simp
  qed
qed

text \<open>
  C36: authentication fails closed.  Whenever \<open>authenticate\<close> does not return a
  session, the connection it opened, if any, carried \<open>AUTH\<close> and at most the
  identity question, and was closed before control returned: nothing can be sent
  on a connection whose \<open>AUTH\<close> failed.  The exception is a \<open>RedisSafetyError\<close>,
  or the one \<open>close\<close> itself raised.
\<close>

theorem authenticate_fails_closed:
  assumes "authenticate N host port username password expected authorize environment w = (Inl e, w')"
  shows "(trace w' = trace w \<and> is_redis_safety_error e) \<or>
    (\<exists>c sent n. trace w' = trace w @ [Connected c] @ sent @ [Closed c] \<and>
       (sent = [Sent c [''AUTH'', username, password]] \<or>
        sent = [Sent c [''AUTH'', username, password], Sent c [''ACL'', ''WHOAMI'']]) \<and>
       (is_redis_safety_error e \<or> fst (net_close N c n) = Inl e))"
proof -
  obtain r n0 where c: "net_connect N host port (net w) = (r, n0)" by fastforce
  show ?thesis
  proof (cases r)
    case (Inl e')
    then have "trace w' = trace w" "e = safety_error expected (auth_error expected e')"
      using assms c by (auto simp: authenticate_def connect_def io_bind_def io_try_def)
    then show ?thesis using safety_error_kind by blast
  next
    case (Inr c')
    let ?w = "w\<lparr>net := n0, trace := trace w @ [Connected c']\<rparr>"
    obtain r' w1 where e: "establish_identity N c' username password expected authorize ?w = (r', w1)" by fastforce
    obtain q n1 where q: "net_close N c' (net w1) = (q, n1)" by fastforce
    obtain e' where r': "r' = Inl e'"
      using assms c Inr e by (cases r') (auto simp: authenticate_def connect_def io_bind_def io_try_def)
    then have w': "trace w' = trace w1 @ [Closed c']"
      and q': "e = safety_error expected e' \<or> q = Inl e"
      using assms c Inr e q
      by (cases q; simp add: authenticate_def connect_def io_bind_def io_try_def close_client_def; fastforce)+
    have "is_redis_safety_error e \<or> fst (net_close N c' (net w1)) = Inl e"
      using q' q safety_error_kind by auto
    then show ?thesis
      using w' establish_identity_Inl [OF e [unfolded r']] by fastforce
  qed
qed

text \<open>
  A small server for the examples, as the module's introduction describes it: a new
  connection is the user \<open>default\<close>, and a failed \<open>AUTH\<close> leaves it so.
\<close>

definition example_execute :: "client \<Rightarrow> command \<Rightarrow> (client \<times> string) list \<Rightarrow> pyval res \<times> (client \<times> string) list" where
  "example_execute c args n =
     (case args of
        [a, u, p] \<Rightarrow> (if p = ''right'' then (Inr (PStr ''OK''), (c, u) # n)
                      else (raise RedisAuthenticationError ''WRONGPASS'', n))
      | [a, b] \<Rightarrow> (Inr (case map_of n c of None \<Rightarrow> PNone | Some u \<Rightarrow> PStr u), n)
      | _ \<Rightarrow> (Inr (PStr ''PONG''), n))"

definition example_redis :: "(client \<times> string) list redis_net" where
  "example_redis =
     \<lparr>net_connect = (\<lambda>h p n. (Inr (length n), (length n, ''default'') # n)),
      net_execute = example_execute,
      net_close = (\<lambda>c n. (Inr (), filter (\<lambda>x. fst x \<noteq> c) n))\<rparr>"

lemmas example_redis_defs = example_redis_def example_execute_def connect_def execute_command_def close_client_def
  io_bind_def io_try_def

theorem authenticate_fails_closed_witness:
  "\<exists>e w'. authenticate example_redis ''h'' 6380 ''redis_monitoring'' ''wrong'' ''redis_monitoring'' production_authorize
       PRODUCTION \<lparr>net = [], trace = []\<rparr> = (Inl e, w') \<and>
     trace w' = [Connected 0, Sent 0 [''AUTH'', ''redis_monitoring'', ''wrong''], Closed 0]"
proof -
  have "\<exists>e w'. authenticate example_redis ''h'' 6380 ''redis_monitoring'' ''wrong'' ''redis_monitoring''
      production_authorize PRODUCTION \<lparr>net = [], trace = []\<rparr> = (Inl e, w') \<and>
      trace w' = [Connected 0, Sent 0 [''AUTH'', ''redis_monitoring'', ''wrong''], Closed 0]"
    by (simp add: authenticate_def establish_identity_def example_redis_defs)
  then obtain e w' where "authenticate example_redis ''h'' 6380 ''redis_monitoring'' ''wrong'' ''redis_monitoring''
      production_authorize PRODUCTION \<lparr>net = [], trace = []\<rparr> = (Inl e, w')"
    "trace w' = [Connected 0, Sent 0 [''AUTH'', ''redis_monitoring'', ''wrong''], Closed 0]" by blast
  moreover from authenticate_fails_closed [OF this(1)] have "trace w' = [] \<or> (\<exists>c. last (trace w') = Closed c)"
    by auto
  ultimately show ?thesis by blast
qed

text \<open>
  C37: everything a production session ever puts on the wire.  Its connection is
  new; it carries \<open>AUTH\<close>, to which the server agreed, then the identity question,
  to which the server answered the expected identity; then, whatever the holder
  does with the session, only commands on the production allowlist, none of them
  dangerous, and nothing after the close.
\<close>

theorem production_session_safe:
  assumes "authenticate_production N host port username password expected w = (Inr ses, w1)"
    and "session_script N ops ses w1 = (ses', w2)"
  shows "port = PRODUCTION_PORT \<and> (\<exists>c tr n0 n answer.
    trace w2 = trace w @ [Connected c, Sent c [''AUTH'', username, password], Sent c [''ACL'', ''WHOAMI'']] @ tr \<and>
    net_execute N c [''AUTH'', username, password] n0 = (Inr answer, n) \<and> answer \<in> {PBool True, PStr ''OK''} \<and>
    net_execute N c [''ACL'', ''WHOAMI''] n = (Inr (PStr expected), net w1) \<and>
    gated_run production_authorize c tr \<and>
    (\<forall>args. Sent c args \<in> set tr \<longrightarrow>
       (\<exists>cmd \<in> set PRODUCTION_ALLOWED_COMMANDS. normalize_command args = Inr cmd \<and> cmd \<notin> set DANGEROUS_COMMANDS)))"
proof -
  have port: "port = PRODUCTION_PORT" and a: "authenticate N host port username password expected
      production_authorize PRODUCTION w = (Inr ses, w1)"
    using assms(1) by (simp_all add: authenticate_production_def split: if_splits)
  obtain c n0 answer n where c: "trace w1 = trace w @
      [Connected c, Sent c [''AUTH'', username, password], Sent c [''ACL'', ''WHOAMI'']]"
    "ses = \<lparr>session_environment = PRODUCTION, session_gate = production_authorize, session_client = c, session_closed = False\<rparr>"
    "net_execute N c [''AUTH'', username, password] n0 = (Inr answer, n)" "answer \<in> {PBool True, PStr ''OK''}"
    "net_execute N c [''ACL'', ''WHOAMI''] n = (Inr (PStr expected), net w1)"
    using authenticate_Inr [OF a] by blast
  obtain tr where tr: "trace w2 = trace w1 @ tr" "gated_run production_authorize c tr"
    using session_script_gated [OF _ assms(2)] c(2) by auto
  have "\<exists>cmd \<in> set PRODUCTION_ALLOWED_COMMANDS. normalize_command args = Inr cmd \<and> cmd \<notin> set DANGEROUS_COMMANDS"
    if "Sent c args \<in> set tr" for args
  proof -
    have "production_authorize args = Inr ()" using that tr(2) by (auto simp: gated_run_def)
    then show ?thesis
      using production.gated_not_dangerous [OF tr(2) that]
      by (auto simp: production_authorize_def split: if_splits)
  qed
  moreover have "trace w2 = trace w @ [Connected c, Sent c [''AUTH'', username, password], Sent c [''ACL'', ''WHOAMI'']] @ tr"
    using tr(1) c(1) by simp
  ultimately show ?thesis using port c(3-5) tr(2) by blast
qed

lemma production_whoami: "production_authorize [''ACL'', ''WHOAMI''] = Inr ()"
  by code_simp

theorem production_session_safe_witness:
  "\<exists>ses w1 ses' w2. authenticate_production example_redis ''h'' 6380 ''reader'' ''right'' ''reader''
       \<lparr>net = [], trace = []\<rparr> = (Inr ses, w1) \<and>
     session_script example_redis [Run [''flushall''], Run [''ping''], Close, Run [''PING'']] ses w1 = (ses', w2) \<and>
     trace w2 = [Connected 0, Sent 0 [''AUTH'', ''reader'', ''right''], Sent 0 [''ACL'', ''WHOAMI''],
       Sent 0 [''ping''], Closed 0] \<and>
     (\<exists>c tr. trace w2 = [Connected c, Sent c [''AUTH'', ''reader'', ''right''], Sent c [''ACL'', ''WHOAMI'']] @ tr \<and>
       gated_run production_authorize c tr)"
proof -
  have "\<not> is_ok (production_authorize [''flushall''])" by code_simp
  then have f: "\<exists>e. production_authorize [''flushall''] = Inl e" by (cases "production_authorize [''flushall'']") auto
  have p: "production_authorize [''ping''] = Inr ()" by code_simp
  let ?ses = "\<lparr>session_environment = PRODUCTION, session_gate = production_authorize,
    session_client = 0, session_closed = False\<rparr>"
  let ?w1 = "\<lparr>net = [(0, ''reader''), (0, ''default'')],
    trace = [Connected 0, Sent 0 [''AUTH'', ''reader'', ''right''], Sent 0 [''ACL'', ''WHOAMI'']]\<rparr>"
  have a: "authenticate_production example_redis ''h'' 6380 ''reader'' ''right'' ''reader'' \<lparr>net = [], trace = []\<rparr> =
      (Inr ?ses, ?w1)"
    by (simp add: authenticate_production_def authenticate_def establish_identity_def production_whoami
        PRODUCTION_PORT_def example_redis_defs)
  obtain ses' w2 where b: "session_script example_redis [Run [''flushall''], Run [''ping''], Close, Run [''PING'']] ?ses ?w1 = (ses', w2)"
    by fastforce
  moreover have "trace w2 = [Connected 0, Sent 0 [''AUTH'', ''reader'', ''right''], Sent 0 [''ACL'', ''WHOAMI''],
       Sent 0 [''ping''], Closed 0]"
    using b f p by (auto simp: session_run_def session_close_def example_redis_defs)
  ultimately show ?thesis using a production_session_safe [OF a b] by fastforce
qed

text \<open>
  C38: the gates for disposable targets exist only for a target that has just been
  proven disposable: not the production port, attested for this very endpoint,
  and the nonce was read back from the live server on a connection closed again.
\<close>

theorem disposable_gates_verified:
  assumes "disposable_negative_test_gate N host port a w = (Inr g, w') \<or> disposable_validator N host port a w = (Inr g, w')"
  shows "port \<noteq> PRODUCTION_PORT \<and> attested_host a = host \<and> attested_port a = port \<and>
    (\<exists>c n n'. net_connect N host port (net w) = (Inr c, n) \<and>
       net_execute N c [''GET'', nonce_key a] n = (Inr (PStr (nonce_value a)), n') \<and>
       trace w' = trace w @ [Connected c, Sent c [''GET'', nonce_key a], Closed c])"
proof -
  have cl: "classify_environment N host port (Some a) w = (Inr DISPOSABLE, w')"
    using assms by (auto simp: disposable_negative_test_gate_def disposable_validator_def io_bind_Inr split: if_splits)
  obtain r n where c: "net_connect N host port (net w) = (r, n)" by fastforce
  have ok: "port \<noteq> PRODUCTION_PORT" "attested_host a = host" "attested_port a = port"
    using cl by (auto simp: classify_environment_def split: if_splits)
  show ?thesis
  proof (cases r)
    case (Inl e)
    then show ?thesis
      using cl c ok by (auto simp: classify_environment_def probe_nonce_def connect_def io_bind_def io_try_def split: if_splits)
  next
    case (Inr k)
    obtain got n' where g: "net_execute N k [''GET'', nonce_key a] n = (got, n')" by fastforce
    obtain q n2 where q: "net_close N k n' = (q, n2)" by fastforce
    from cl c ok Inr g q
    have "got = Inr (PStr (nonce_value a)) \<and> trace w' = trace w @ [Connected k, Sent k [''GET'', nonce_key a], Closed k]"
      by (cases got) (auto simp: classify_environment_def probe_nonce_def connect_def execute_command_def
          close_client_def io_bind_def io_try_def split: if_splits)
    then show ?thesis using ok c g Inr by blast
  qed
qed

theorem disposable_gates_verified_witness:
  "\<exists>g w'. disposable_negative_test_gate example_redis ''h'' 6399
       \<lparr>attested_host = ''h'', attested_port = 6399, nonce_key = ''k'', nonce_value = ''default''\<rparr>
       \<lparr>net = [], trace = []\<rparr> = (Inr g, w') \<and>
     (\<exists>c. trace w' = [Connected c, Sent c [''GET'', ''k''], Closed c])"
proof -
  have "\<exists>g w'. disposable_negative_test_gate example_redis ''h'' 6399
       \<lparr>attested_host = ''h'', attested_port = 6399, nonce_key = ''k'', nonce_value = ''default''\<rparr>
       \<lparr>net = [], trace = []\<rparr> = (Inr g, w')"
    by (simp add: disposable_negative_test_gate_def classify_environment_def probe_nonce_def PRODUCTION_PORT_def
        example_redis_defs)
  then obtain g w' where a: "disposable_negative_test_gate example_redis ''h'' 6399
       \<lparr>attested_host = ''h'', attested_port = 6399, nonce_key = ''k'', nonce_value = ''default''\<rparr>
       \<lparr>net = [], trace = []\<rparr> = (Inr g, w')" by blast
  with disposable_gates_verified [OF disjI1 [OF a]] show ?thesis by auto
qed

text \<open>
  A gate sees a command name written with its arguments in one text as one
  unknown name.  The denylist of the gate for disposable targets therefore does not
  stop a dangerous command written that way: the text reaches the client as it is.
\<close>

theorem disposable_denylist_spaced:
  "session_run N \<lparr>session_environment = DISPOSABLE, session_gate = disposable_authorize,
      session_client = c, session_closed = False\<rparr> [''FLUSHALL ASYNC''] = execute_command N c [''FLUSHALL ASYNC''] \<and>
   disposable_authorize [''FLUSHALL'', ''ASYNC''] \<noteq> Inr () \<and> production_authorize [''FLUSHALL ASYNC''] \<noteq> Inr ()"
proof -
  have "disposable_authorize [''FLUSHALL ASYNC''] = Inr ()" by code_simp
  moreover have "disposable_authorize [''FLUSHALL'', ''ASYNC''] \<noteq> Inr ()" by code_simp
  moreover have "production_authorize [''FLUSHALL ASYNC''] \<noteq> Inr ()" by code_simp
  ultimately show ?thesis by (simp add: session_run_def)
qed

end
