(* ===== verification/Spec2Isabelle.thy ===== *)
theory Spec2Isabelle
  imports Column_Limits End_To_End Jwks_Client Migration_Env Redis_Safety
begin

text \<open>
  \<^bold>\<open>The audit service of OmniBioAI\<close>

  \<^bold>\<open>The program.\<close>  Services publish signed audit events to a Redis stream
  (\<open>audit/logger.py\<close>, \<open>audit/decorators.py\<close>, \<open>audit/contexts.py\<close>).  A worker
  (\<open>worker/main.py\<close>) reads the stream as a member of a consumer group, checks
  signature and schema (\<open>consumers/processor.py\<close>, \<open>audit/signing.py\<close>,
  \<open>audit/models.py\<close>), writes the event with a keyed hash over its columns
  (\<open>consumers/sink.py\<close>, \<open>audit/record_integrity.py\<close>) and acknowledges the entry after
  the commit; entries delivered too often go to a quarantine table
  (\<open>consumers/quarantine.py\<close>).  A read API lists the events
  (\<open>api/routes_audit_events.py\<close>, \<open>api/routes_audit_safe.py\<close>,
  \<open>services/audit_query_service.py\<close>) to callers whose token was verified
  (\<open>audit/jwt_verify.py\<close>, \<open>api/deps.py\<close>, \<open>api/deps_audit.py\<close>) and reports the health of
  the pipeline (\<open>services/audit_health_service.py\<close>).  Scripts verify the stored hashes
  (\<open>scripts/verify_audit_integrity.py\<close>), delete what the retention policy allows
  (\<open>scripts/audit_retention_cleanup.py\<close>, under the triggers of migration 0005), create
  the database accounts (\<open>scripts/provision_audit_db_users.py\<close>), and
  guard tests against production Redis (\<open>scripts/redis_acl_safety.py\<close>).  Six migrations create the tables
  (\<open>alembic/versions\<close>, run by \<open>alembic/env.py\<close>); \<open>api/main.py\<close> puts the routes together.

  \<^bold>\<open>The theories.\<close>

  \<^item> \<open>Audit_Prelude\<close>: exceptions as values (\<open>'a res\<close>), Python's string operations,
    lemmas on lists and results.  \<open>Stateful\<close>: computations that change a state and may
    raise, and the locale \<open>step_relation\<close> of the relations its combinators keep.
  \<^item> \<open>Py_Time\<close>, \<open>Py_Value\<close>, \<open>Py_Json\<close>, \<open>Json_Roundtrip\<close>, \<open>Json_Canonical\<close>, \<open>Py_Crypto\<close>: the
    parts of Python's library the sources use: \<open>datetime\<close>, dynamic values, \<open>json\<close> with
    its round trip and its canonical form, SHA-256 and HMAC computed on words.
  \<^item> \<open>Signing\<close>, \<open>Audit_Config\<close>, \<open>Audit_Models\<close>, \<open>Record_Integrity\<close>: the modules of
    \<open>audit/\<close> of these names, and the rows of \<open>db/models.py\<close>.
  \<^item> \<open>Audit_World\<close>, \<open>Security_Alerts\<close>, \<open>Sinks\<close>, \<open>Stream_Reader\<close>, \<open>Worker\<close>: the worker.
    The world is an arbitrary environment, changed by the operations of \<open>ops\<close>, with
    the two module-level variables of the sources and a history of effects.
    \<open>Worker_Safety\<close>, \<open>Worker_Progress\<close> and \<open>Column_Limits\<close> hold what it guarantees.
  \<^item> \<open>Jwt_Access\<close>, \<open>Audit_Query\<close>: tokens, authorization, the two listings and routes.
    \<open>Jwks_Client\<close>: the settings and the lazily built key client of \<open>audit/jwt_verify.py\<close>.
    \<open>Api\<close>: the application of \<open>api/main.py\<close> with its five routes and the database session of
    a request (\<open>db/session.py\<close>).
  \<^item> \<open>Integrity_Scan\<close>, \<open>Retention\<close>, \<open>Health\<close>: verification script, triggers and
    clean-up script, health report and its route.
  \<^item> \<open>Provisioning\<close>: the database accounts, their grants, and what they may execute.
  \<^item> \<open>Producer\<close>: request context, logger, decorator and test route.  The state of a
    request is the environment, the context variables and the entries published.
    \<open>Delivery\<close> puts the producer and the worker together.
  \<^item> \<open>Schema\<close>: tables, columns, indexes and triggers of a database, and the operations
    of a migration on them.  \<open>Migrations\<close>: both directions of the six migrations, the
    tables \<open>db/models.py\<close> declares, the triggers as programs.  \<open>Migration_Env\<close>:
    \<open>alembic/env.py\<close>.
  \<^item> \<open>Deployment\<close>: the worker on the tables the migrations created, on a server with other
    sessions, where commits may fail; the states of the tables that runs of the worker,
    clean-ups and other statements can reach (\<open>deployed\<close>).
  \<^item> \<open>End_To_End\<close>: producer, worker, guarded tables and API in one statement.
  \<^item> \<open>Redis_Safety\<close>: the three command gates, authentication and sessions.

  Definitions keep the names of the source without leading underscores; a part of a
  function that has its own name here is introduced by a line of text.

  \<^bold>\<open>What is shown.\<close>

  \<^item> \<^emph>\<open>Delivery.\<close>  Every run of the worker refines the specification \<open>acks_justified\<close>:
    an entry is acknowledged only after the commit of the row built from it;
    acknowledged entries are in the tables; the exceptions that can end the worker
    are listed; alerts and group recreations respect their intervals; with working
    services a sweep makes progress; parsing always terminates.  What a producer
    publishes is parsed as the event it logged and counts as validly signed; a worker
    that handles it stores it with all its fields, in a row that verifies and that
    no later run changes.  Audited requests record verified identities only.
  \<^item> \<^emph>\<open>Integrity.\<close>  Signatures and hashes round trip and bind their input up to an
    HMAC collision; a row the sink wrote verifies after the rounding and reordering
    of the database; the verification script exits with 0 exactly if every row is
    unique, complete and verified.
  \<^item> \<^emph>\<open>Storage.\<close>  Under the triggers stored rows are immutable; a successful clean-up is
    equivalent to filtering the tables, and one that fails anywhere never removes
    more; accounts other than the one for maintenance can only append.  Computed
    columns have their declared types.
  \<^item> \<^emph>\<open>Deployment.\<close>  What the worker's theorems ask of the database (\<open>store_ok\<close>) follows from
    the primary keys and the installed triggers, whatever other sessions that are not
    the maintenance account do between two calls and whether or not a failing
    commit took effect.  So acknowledged entries are in the tables the migrations created;
    and as long as only the worker inserts, every row verifies in every reachable state.
    An event that a producer logs is, after the worker handled it, on a page that the API
    serves to the readers of its organization.
  \<^item> \<^emph>\<open>Schema.\<close>  The migrations create exactly the tables the models declare; the triggers
    they install, run as programs, act on every statement as the specification of the
    append-only tables; no upgrade changes a row, every downgrade takes its upgrade
    back, and rows that name their key block the downgrade that would lose it.
    Migrations run on the configured database, in one transaction.
  \<^item> \<^emph>\<open>Reading.\<close>  A reply to a tenant does not depend on other tenants' rows, pages are
    bounded, complete and ordered, failures never look like results, accepted
    tokens and granted accesses are characterised; the health report degrades.  No
    data route answers without a verified token of the required role, and every
    session of a request is one of the reader account and closed.  One key client is
    built at most, and none before it is needed.
  \<^item> \<^emph>\<open>Redis safety.\<close>  Authentication fails closed, production sessions send only
    allow-listed commands, gates for disposable targets exist only after a live
    proof.
  \<^item> \<^emph>\<open>Deviations.\<close>  Where the code does not do what it documents, a theorem states what
    it does: ambiguous canonical messages, dropped duplicates, events without an
    action, oversized service names, role claims that are texts, mixed windows,
    commands with blanks, hashes outside ASCII.

  \<^bold>\<open>Interfaces.\<close>  \<open>step_relation\<close> and its extensions \<open>world_relation\<close>, \<open>run_relation\<close> and
  \<open>history_spec\<close> are interpreted for each invariant of the worker (\<open>aj\<close>, \<open>al\<close>, \<open>ds\<close>,
  \<open>dr\<close>, \<open>ar\<close>, \<open>gr\<close>, \<open>dk\<close>, \<open>sv\<close>, \<open>rk\<close>, \<open>ak\<close>, \<open>nr\<close>) and for the histories of the provisioning
  script (\<open>aw\<close>); \<open>server_relation\<close>, what the statements of all sessions keep of the tables,
  for their growth (\<open>sx\<close>), for the evidence in them (\<open>se\<close>) and for the events that stay
  as they are (\<open>sn\<close>); \<open>durable_writer\<close> for the two sinks (\<open>ew\<close>,
  \<open>qw\<close>); \<open>paged_listing\<close> for the two listings (\<open>events\<close>, \<open>safe_events\<close>); \<open>command_gate\<close>
  and \<open>safe_gate\<close> for the gates (\<open>production\<close>, \<open>disposable\<close>, \<open>negative_test\<close>);
  \<open>ddl_backend\<close>, the database a migration runs on, for the explicit one (\<open>explicit\<close>);
  \<open>step_relation\<close> also for the rows a migration keeps (\<open>re\<close>, \<open>rv\<close>) and for the key client (\<open>ck\<close>).

  \<^bold>\<open>Parameters.\<close>  Redis, the database with its collation and its faults, the file
  system, the clocks, the UUID generator, pydantic's leaf validators, PyJWT with
  the JWKS client, the parser of floats and the network are parameters, each
  operation of which may raise; a theorem that needs more of them says so by a
  named hypothesis (\<open>store_ok\<close>, \<open>services_ok\<close>, \<open>pydantic_ok\<close>, \<open>dump_restores\<close>,
  \<open>strict_widths\<close>, \<open>ddl_backend\<close>, \<open>server_ok\<close>, \<open>sole_writer\<close>, \<open>times_ok\<close>,
  \<open>reads_tables\<close>), and its witness instantiates it.  Other workers of the group are part of the arbitrary environment.  A migration operation takes effect or
  raises without effect, as MySQL's DDL does; Alembic runs the migrations in the order of
  \<open>down_revision\<close>; the trigger statements are modelled by their meaning.

  \<^bold>\<open>Bounds.\<close>  The JSON parser has fuel \<open>2 * length + 1\<close>, proved to be enough.  The loop of
  the worker takes a number of iterations; production has no bound, and what it
  has done at any moment is what some bounded run has done.  Numbers are
  mathematical integers as in Python; SHA-256 works on words of 32 bits.

  \<^bold>\<open>Not modelled.\<close>  What is printed; the construction of the objects of SQLAlchemy,
  FastAPI and redis-py, the framework's own pages and redirects; sessions that change
  the tables while the clean-up runs; Python's recursion limit on deeply nested JSON;
  case conversion outside ASCII; the constants of \<open>audit/events.py\<close>, which nothing reads;
  privileges granted outside the provisioning script, and statements other than insert,
  update and delete.
\<close>

end
